(* ===== verification/Prelude.thy ===== *)
theory Prelude
  imports Main "HOL-Library.Word" "HOL-Library.Sublist"
begin

text \<open>
  What every theory of the development shares: Python's strings and numbers as far as the source
  uses them, UUIDs with their printed form, and the state-and-exception operations the service
  methods are written in, with the rules that carry the proofs about them.

  A Python \<open>str\<close> is a list of code points; here it is a \<^typ>\<open>string\<close> whose characters are the
  code points 0 to 255 (Latin-1), with the case, digit and white space tables of that range
  written out. Every literal of the source lies in that range. An instant (an aware
  \<open>datetime\<close>) is the number of microseconds since the epoch, which is both Python's and
  PostgreSQL's resolution.
\<close>

named_theorems preserves_intro \<open>an operation keeps a predicate on the state\<close>
named_theorems wp_simps \<open>weakest precondition of an operation, as an equation\<close>
named_theorems op_simps \<open>what an operation does to the state, as an equation\<close>

type_synonym time = int
type_synonym uuid = "128 word"

section \<open>Python strings\<close>

definition py_isspace :: "char \<Rightarrow> bool" where
  "py_isspace c = (let n = (of_char c :: nat) in
     (9 \<le> n \<and> n \<le> 13) \<or> (28 \<le> n \<and> n \<le> 32) \<or> n = 133 \<or> n = 160)"

definition py_isupper :: "char \<Rightarrow> bool" where
  "py_isupper c = (let n = (of_char c :: nat) in
     (65 \<le> n \<and> n \<le> 90) \<or> (192 \<le> n \<and> n \<le> 222 \<and> n \<noteq> 215))"

definition py_isdigit :: "char \<Rightarrow> bool" where
  "py_isdigit c = (let n = (of_char c :: nat) in
     (48 \<le> n \<and> n \<le> 57) \<or> n = 178 \<or> n = 179 \<or> n = 185)"

definition py_lower_char :: "char \<Rightarrow> char" where
  "py_lower_char c = (if py_isupper c then char_of ((of_char c :: nat) + 32) else c)"

definition py_lower :: "string \<Rightarrow> string" where
  "py_lower s = map py_lower_char s"

definition py_lstrip_by :: "(char \<Rightarrow> bool) \<Rightarrow> string \<Rightarrow> string" where
  "py_lstrip_by P s = dropWhile P s"

definition py_strip_by :: "(char \<Rightarrow> bool) \<Rightarrow> string \<Rightarrow> string" where
  "py_strip_by P s = rev (dropWhile P (rev (dropWhile P s)))"

definition py_strip :: "string \<Rightarrow> string" where
  "py_strip s = py_strip_by py_isspace s"

definition py_startswith :: "string \<Rightarrow> string \<Rightarrow> bool" where
  "py_startswith s p = (take (length p) s = p)"

definition py_endswith :: "string \<Rightarrow> string \<Rightarrow> bool" where
  "py_endswith s p = (length p \<le> length s \<and> drop (length s - length p) s = p)"

text \<open>\<open>s.replace(old, new)\<close> for a non-empty \<open>old\<close>: left to right, without overlaps.\<close>

function py_replace :: "string \<Rightarrow> string \<Rightarrow> string \<Rightarrow> string" where
  "py_replace old new s =
     (if old = [] \<or> s = [] then s
      else if py_startswith s old then new @ py_replace old new (drop (length old) s)
      else hd s # py_replace old new (tl s))"
  by pat_completeness auto
termination
  by (relation "measure (\<lambda>(old, new, s). length s)") auto

declare py_replace.simps [simp del]

definition py_contains :: "string \<Rightarrow> string \<Rightarrow> bool" where
  "py_contains s frag = (\<exists>i \<in> set [0..<Suc (length s)]. py_startswith (drop i s) frag)"

fun py_str_nat :: "nat \<Rightarrow> string" where
  "py_str_nat n = (if n < 10 then [char_of (48 + n)]
                   else py_str_nat (n div 10) @ [char_of (48 + n mod 10)])"

declare py_str_nat.simps [simp del]

definition py_str_int :: "int \<Rightarrow> string" where
  "py_str_int i = (if i < 0 then ''-'' @ py_str_nat (nat (- i)) else py_str_nat (nat i))"

text \<open>\<open>int(x)\<close> of a number of seconds given in microseconds: towards zero.\<close>

definition whole_seconds :: "time \<Rightarrow> int" where
  "whole_seconds t = (if 0 \<le> t then t div 1000000 else - ((- t) div 1000000))"

abbreviation seconds :: "int \<Rightarrow> time" where
  "seconds n \<equiv> n * 1000000"

abbreviation minutes :: "int \<Rightarrow> time" where
  "minutes n \<equiv> seconds (n * 60)"

abbreviation hours :: "int \<Rightarrow> time" where
  "hours n \<equiv> minutes (n * 60)"

abbreviation days :: "int \<Rightarrow> time" where
  "days n \<equiv> hours (n * 24)"

lemma whole_seconds_mono:
  assumes "t \<le> t'"
  shows "whole_seconds t \<le> whole_seconds t'"
proof -
  consider "0 \<le> t" "0 \<le> t'" | "t < 0" "0 \<le> t'" | "t < 0" "t' < 0"
    using assms by linarith
  then show ?thesis
  proof cases
    case 1
    then show ?thesis using zdiv_mono1 [OF assms] by (simp add: whole_seconds_def)
  next
    case 2
    then have "0 \<le> (- t) div 1000000" "0 \<le> t' div 1000000" by simp_all
    with 2 show ?thesis by (simp add: whole_seconds_def)
  next
    case 3
    then show ?thesis using zdiv_mono1 [of "- t'" "- t" 1000000] assms
      by (simp add: whole_seconds_def)
  qed
qed

lemma whole_seconds_later: "0 \<le> t \<Longrightarrow> 0 \<le> n \<Longrightarrow> whole_seconds (t + seconds n) = whole_seconds t + n"
  by (simp add: whole_seconds_def)

lemma whole_seconds_le: "0 \<le> t \<Longrightarrow> seconds (whole_seconds t) \<le> t"
  by (simp add: whole_seconds_def)

subsection \<open>Facts on strings\<close>

lemma of_char_lower:
  "(of_char (py_lower_char c) :: nat) =
     (if py_isupper c then of_char c + 32 else of_char c)"
proof -
  have "(of_char c :: nat) \<le> 222 \<Longrightarrow> (of_char (char_of ((of_char c :: nat) + 32)) :: nat) = of_char c + 32"
    by (simp add: of_char_of)
  then show ?thesis
    by (auto simp: py_lower_char_def py_isupper_def Let_def)
qed

lemma lower_not_upper [simp]: "\<not> py_isupper (py_lower_char c)"
  using of_char_lower [of c] by (auto simp: py_isupper_def Let_def split: if_splits)

lemma lower_char_idem [simp]: "py_lower_char (py_lower_char c) = py_lower_char c"
  by (simp add: py_lower_char_def [of "py_lower_char c"])

lemma py_lower_idem [simp]: "py_lower (py_lower s) = py_lower s"
  by (simp add: py_lower_def)

lemma py_lower_fixed_iff: "py_lower s = s \<longleftrightarrow> (\<forall>c \<in> set s. \<not> py_isupper c)"
proof
  show "py_lower s = s \<Longrightarrow> \<forall>c \<in> set s. \<not> py_isupper c"
    by (metis (no_types, lifting) image_iff list.set_map lower_not_upper py_lower_def)
  show "\<forall>c \<in> set s. \<not> py_isupper c \<Longrightarrow> py_lower s = s"
    by (simp add: py_lower_def py_lower_char_def map_idI)
qed

lemma isspace_lower [simp]: "py_isspace (py_lower_char c) = py_isspace c"
  using of_char_lower [of c]
  by (auto simp: py_isspace_def py_isupper_def Let_def split: if_splits)

lemma dropWhile_lower: "dropWhile py_isspace (map py_lower_char s) = map py_lower_char (dropWhile py_isspace s)"
  by (induction s) auto

lemma lower_strip: "py_lower (py_strip s) = py_strip (py_lower s)"
  by (simp add: py_lower_def py_strip_def py_strip_by_def dropWhile_lower rev_map)

lemma dropWhile_twice [simp]: "dropWhile P (dropWhile P s) = dropWhile P s"
  by (induction s) auto

lemma dropWhile_rev_stable:
  "dropWhile P s = s \<Longrightarrow> dropWhile P (rev (dropWhile P (rev s))) = rev (dropWhile P (rev s))"
proof -
  assume s: "dropWhile P s = s"
  let ?t = "rev (dropWhile P (rev s))"
  have "prefix ?t s"
    by (metis suffix_dropWhile suffix_to_prefix rev_rev_ident)
  then show ?thesis
    using s by (cases ?t; cases s) (auto simp: dropWhile_eq_Cons_conv split: if_splits)
qed

lemma strip_by_idem: "py_strip_by P (py_strip_by P s) = py_strip_by P s"
proof -
  have "dropWhile P (dropWhile P s) = dropWhile P s"
    by simp
  then have "dropWhile P (py_strip_by P s) = py_strip_by P s"
    unfolding py_strip_by_def by (rule dropWhile_rev_stable)
  then show ?thesis
    by (simp add: py_strip_by_def [of P "py_strip_by P s"])
       (simp add: py_strip_by_def)
qed

lemma py_strip_idem [simp]: "py_strip (py_strip s) = py_strip s"
  by (simp add: py_strip_def strip_by_idem)

lemma set_strip_by: "set (py_strip_by P s) \<subseteq> set s"
  by (auto simp: py_strip_by_def dest!: set_dropWhileD)

lemma strip_by_nothing: "\<forall>c \<in> set s. \<not> P c \<Longrightarrow> py_strip_by P s = s"
  by (metis dropWhile_eq_self_iff list.set_sel(1) py_strip_by_def rev_is_Nil_conv rev_rev_ident set_rev)

lemma replace_absent:
  "old \<noteq> [] \<Longrightarrow> hd old \<notin> set s \<Longrightarrow> py_replace old new s = s"
proof (induction s)
  case Nil
  then show ?case by (simp add: py_replace.simps)
next
  case (Cons c s)
  then have "\<not> py_startswith (c # s) old"
    by (cases old) (auto simp: py_startswith_def)
  with Cons show ?case by (simp add: py_replace.simps [of _ _ "c # s"])
qed

lemma replace_char_gone: "py_replace [c] [] s = filter (\<lambda>x. x \<noteq> c) s"
  by (induction s) (simp_all add: py_replace.simps [of _ _ "_ # _"] py_replace.simps [of _ _ "[]"]
      py_startswith_def)

section \<open>UUIDs\<close>

text \<open>
  A UUID is its 128-bit number. \<open>str(u)\<close> prints it as 32 hexadecimal digits in groups of
  8, 4, 4, 4 and 12; \<open>uuid.UUID(s)\<close> reads that form back, with or without the dashes, the braces
  and the \<open>urn:uuid:\<close> prefix, and raises \<open>ValueError\<close> (here \<^term>\<open>None\<close>) on anything that does not
  leave 32 hexadecimal digits.
\<close>

definition hex_digit :: "nat \<Rightarrow> char" where
  "hex_digit n = char_of (if n < 10 then 48 + n else 87 + n)"

definition hex_val :: "char \<Rightarrow> nat option" where
  "hex_val c = (let n = (of_char c :: nat) in
     if 48 \<le> n \<and> n \<le> 57 then Some (n - 48)
     else if 97 \<le> n \<and> n \<le> 102 then Some (n - 87)
     else if 65 \<le> n \<and> n \<le> 70 then Some (n - 55)
     else None)"

fun hex_fixed :: "nat \<Rightarrow> nat \<Rightarrow> string" where
  "hex_fixed 0 n = []"
| "hex_fixed (Suc k) n = hex_fixed k (n div 16) @ [hex_digit (n mod 16)]"

fun hex_value :: "nat \<Rightarrow> string \<Rightarrow> nat option" where
  "hex_value acc [] = Some acc"
| "hex_value acc (c # cs) =
     (case hex_val c of None \<Rightarrow> None | Some d \<Rightarrow> hex_value (acc * 16 + d) cs)"

definition uuid_str :: "uuid \<Rightarrow> string" where
  "uuid_str u = (let h = hex_fixed 32 (unat u) in
     take 8 h @ ''-'' @ take 4 (drop 8 h) @ ''-'' @ take 4 (drop 12 h) @ ''-'' @
     take 4 (drop 16 h) @ ''-'' @ drop 20 h)"

definition uuid_parse :: "string \<Rightarrow> uuid option" where
  "uuid_parse s =
     (let h = py_replace ''-'' [] (py_strip_by (\<lambda>c. c \<in> set ''{}'')
                (py_replace ''uuid:'' [] (py_replace ''urn:'' [] s)))
      in if length h \<noteq> 32 then None else map_option of_nat (hex_value 0 h))"

lemma of_char_hex_digit:
  "n < 16 \<Longrightarrow> (of_char (hex_digit n) :: nat) = (if n < 10 then 48 + n else 87 + n)"
  by (simp add: hex_digit_def of_char_of)

lemma hex_val_digit [simp]: "n < 16 \<Longrightarrow> hex_val (hex_digit n) = Some n"
  by (simp add: hex_val_def of_char_hex_digit)

lemma hex_value_append:
  "hex_value acc (xs @ ys) = Option.bind (hex_value acc xs) (\<lambda>a. hex_value a ys)"
  by (induction xs arbitrary: acc) (auto split: option.splits)

lemma hex_value_fixed: "hex_value acc (hex_fixed k n) = Some (acc * 16 ^ k + n mod 16 ^ k)"
proof (induction k arbitrary: n)
  case 0
  then show ?case by simp
next
  case (Suc k)
  have "n mod 16 ^ Suc k = (n div 16) mod 16 ^ k * 16 + n mod 16"
    by (metis add.commute mod_mult2_eq mult.commute power_Suc)
  with Suc show ?case
    by (simp add: hex_value_append algebra_simps)
qed

lemma length_hex_fixed [simp]: "length (hex_fixed k n) = k"
  by (induction k arbitrary: n) auto

lemma hex_fixed_chars: "c \<in> set (hex_fixed k n) \<Longrightarrow> \<exists>d < 16. c = hex_digit d"
proof (induction k arbitrary: n)
  case 0
  then show ?case by simp
next
  case (Suc k)
  then consider "c \<in> set (hex_fixed k (n div 16))" | "c = hex_digit (n mod 16)" by auto
  then show ?case
  proof cases
    case 1
    then show ?thesis by (rule Suc.IH)
  next
    case 2
    then show ?thesis by (intro exI [of _ "n mod 16"]) simp
  qed
qed

lemma hex_fixed_absent:
  assumes "\<not> (48 \<le> (of_char c :: nat) \<and> (of_char c :: nat) \<le> 57)"
    and "\<not> (97 \<le> (of_char c :: nat) \<and> (of_char c :: nat) \<le> 102)"
  shows "c \<notin> set (hex_fixed k n)"
proof
  assume "c \<in> set (hex_fixed k n)"
  then obtain d where "d < 16" "c = hex_digit d" using hex_fixed_chars by blast
  with assms show False by (auto simp: of_char_hex_digit split: if_splits)
qed

lemma uuid_str_chars:
  "set (uuid_str u) \<subseteq> insert (CHR ''-'') (set (hex_fixed 32 (unat u)))"
  by (auto simp: uuid_str_def Let_def dest!: in_set_takeD in_set_dropD)

lemma uuid_str_absent:
  assumes "c \<noteq> CHR ''-''"
    and "\<not> (48 \<le> (of_char c :: nat) \<and> (of_char c :: nat) \<le> 57)"
    and "\<not> (97 \<le> (of_char c :: nat) \<and> (of_char c :: nat) \<le> 102)"
  shows "c \<notin> set (uuid_str u)"
  using assms(1) hex_fixed_absent [OF assms(2,3)] uuid_str_chars [of u] by blast

lemma uuid_str_undashed: "filter (\<lambda>c. c \<noteq> CHR ''-'') (uuid_str u) = hex_fixed 32 (unat u)"
proof -
  let ?h = "hex_fixed 32 (unat u)"
  have dash: "CHR ''-'' \<notin> set ?h"
    by (rule hex_fixed_absent) auto
  have keep: "filter (\<lambda>c. c \<noteq> CHR ''-'') (take n (drop m ?h)) = take n (drop m ?h)" for n m
    using dash by (intro filter_True) (auto dest!: in_set_takeD in_set_dropD)
  have keep0: "filter (\<lambda>c. c \<noteq> CHR ''-'') (drop m ?h) = drop m ?h" for m
    using dash by (intro filter_True) (auto dest!: in_set_dropD)
  have "take 8 ?h @ take 4 (drop 8 ?h) @ take 4 (drop 12 ?h) @ take 4 (drop 16 ?h) @ drop 20 ?h = ?h"
    using append_take_drop_id [of 4 "drop 16 ?h"] append_take_drop_id [of 4 "drop 12 ?h"]
      append_take_drop_id [of 4 "drop 8 ?h"] append_take_drop_id [of 8 ?h]
    by (simp add: add.commute del: append_take_drop_id)
  then show ?thesis
    using keep [of 8 0] keep keep0 by (simp add: uuid_str_def Let_def)
qed

lemma uuid_parse_str [simp]: "uuid_parse (uuid_str u) = Some u"
proof -
  have u: "CHR ''u'' \<notin> set (uuid_str u)" by (rule uuid_str_absent) auto
  have b: "\<forall>c \<in> set (uuid_str u). \<not> c \<in> set ''{}''"
    using uuid_str_absent [of "CHR ''{''" u] uuid_str_absent [of "CHR ''}''" u] by auto
  have "unat u < 16 ^ 32"
    using unsigned_less [of u, where ?'a = nat] by simp
  then have "hex_value 0 (hex_fixed 32 (unat u)) = Some (unat u)"
    by (simp add: hex_value_fixed)
  with u b show ?thesis
    by (simp add: uuid_parse_def Let_def replace_absent strip_by_nothing replace_char_gone
        uuid_str_undashed)
qed

lemma uuid_str_inj [simp]: "uuid_str u = uuid_str v \<longleftrightarrow> u = v"
  by (metis option.inject uuid_parse_str)

section \<open>Operations: state and exceptions\<close>

text \<open>
  A method of a service or a repository changes state and may raise. It is a function from the
  state to its outcome (\<open>Inl\<close> the exception, \<open>Inr\<close> the value returned) and the state it leaves.
  The state survives a raise: what a method did before raising stays done, and undoing the
  database part of it is the business of the request's transaction.
\<close>

type_synonym ('s, 'e, 'a) act = "'s \<Rightarrow> ('e + 'a) \<times> 's"

definition ret :: "'a \<Rightarrow> ('s, 'e, 'a) act" where
  "ret x s = (Inr x, s)"

definition raise :: "'e \<Rightarrow> ('s, 'e, 'a) act" where
  "raise e s = (Inl e, s)"

definition bnd :: "('s, 'e, 'a) act \<Rightarrow> ('a \<Rightarrow> ('s, 'e, 'b) act) \<Rightarrow> ('s, 'e, 'b) act" where
  "bnd m f s = (case m s of (Inl e, s') \<Rightarrow> (Inl e, s') | (Inr x, s') \<Rightarrow> f x s')"

definition skip :: "('s, 'e, unit) act" where
  "skip = ret ()"

definition outcome :: "('e + 'a) \<times> 's \<Rightarrow> 'e + 'a" where
  "outcome = fst"

definition after :: "('e + 'a) \<times> 's \<Rightarrow> 's" where
  "after = snd"

lemma outcome_pair [simp]: "outcome (x, s) = x"
  by (simp add: outcome_def)

lemma after_pair [simp]: "after (x, s) = s"
  by (simp add: after_def)

lemma bnd_ret [simp]: "bnd (ret x) f = f x"
  by (simp add: fun_eq_iff bnd_def ret_def)

lemma bnd_raise [simp]: "bnd (raise e) f = raise e"
  by (simp add: fun_eq_iff bnd_def raise_def)

lemma bnd_assoc: "bnd (bnd m f) g = bnd m (\<lambda>x. bnd (f x) g)"
  by (auto simp: fun_eq_iff bnd_def split: prod.splits sum.splits)

lemma bnd_ret_right: "bnd m ret = m"
  by (auto simp: fun_eq_iff bnd_def ret_def split: prod.splits sum.splits)

lemma bnd_skip [simp]: "bnd skip f = f ()"
  by (simp add: skip_def)

lemma bnd_branches [op_simps]:
  "bnd (if b then m else n) f = (if b then bnd m f else bnd n f)"
  "bnd (case x of None \<Rightarrow> n | Some y \<Rightarrow> g y) f = (case x of None \<Rightarrow> bnd n f | Some y \<Rightarrow> bnd (g y) f)"
  "bnd (case p of (y, z) \<Rightarrow> h y z) f = (case p of (y, z) \<Rightarrow> bnd (h y z) f)"
  by (auto split: option.split prod.split)

declare bnd_assoc [op_simps]

lemma bnd_done [op_simps]:
  "bnd (Pair (Inr x)) f = f x"
  "bnd (Pair (Inl e)) f = Pair (Inl e)"
  "bnd (\<lambda>s. (Inr (v s), g s)) f s = f (v s) (g s)"
  by (simp_all add: fun_eq_iff bnd_def)

lemma ret_apply [simp]: "ret x s = (Inr x, s)"
  by (simp add: ret_def)

lemma raise_apply [simp]: "raise e s = (Inl e, s)"
  by (simp add: raise_def)

lemma skip_apply [simp]: "skip s = (Inr (), s)"
  by (simp add: skip_def)

lemma bnd_Inr: "m s = (Inr x, s') \<Longrightarrow> bnd m f s = f x s'"
  by (simp add: bnd_def)

lemma bnd_Inl: "m s = (Inl e, s') \<Longrightarrow> bnd m f s = (Inl e, s')"
  by (simp add: bnd_def)

lemma bnd_InrE:
  assumes "bnd m f s = (Inr y, s'')"
  obtains x s' where "m s = (Inr x, s')" and "f x s' = (Inr y, s'')"
  using assms by (auto simp: bnd_def split: prod.splits sum.splits)

lemma bnd_InlE:
  assumes "bnd m f s = (Inl e, s'')"
  obtains (first) "m s = (Inl e, s'')"
  | (second) x s' where "m s = (Inr x, s')" and "f x s' = (Inl e, s'')"
  using assms by (auto simp: bnd_def split: prod.splits sum.splits)

lemma if_act_apply: "(if b then m else m') s = (if b then m s else m' s)"
  by simp

subsection \<open>Keeping a predicate\<close>

definition preserves :: "('s \<Rightarrow> bool) \<Rightarrow> ('s, 'e, 'a) act \<Rightarrow> bool" where
  "preserves I m \<longleftrightarrow> (\<forall>s. I s \<longrightarrow> I (after (m s)))"

lemma preservesD: "preserves I m \<Longrightarrow> I s \<Longrightarrow> I (after (m s))"
  by (simp add: preserves_def)

lemma preserves_ret [preserves_intro]: "preserves I (ret x)"
  by (simp add: preserves_def)

lemma preserves_skip [preserves_intro]: "preserves I skip"
  by (simp add: preserves_def)

lemma preserves_raise [preserves_intro]: "preserves I (raise e)"
  by (simp add: preserves_def)

lemma preserves_bnd [preserves_intro]:
  "preserves I m \<Longrightarrow> (\<And>x. preserves I (f x)) \<Longrightarrow> preserves I (bnd m f)"
  unfolding preserves_def bnd_def
  by (fastforce split: prod.splits sum.splits simp: after_def)

lemma preserves_if [preserves_intro]:
  "(b \<Longrightarrow> preserves I m) \<Longrightarrow> (\<not> b \<Longrightarrow> preserves I m') \<Longrightarrow> preserves I (if b then m else m')"
  by simp

lemma preserves_option [preserves_intro]:
  "(x = None \<Longrightarrow> preserves I m) \<Longrightarrow> (\<And>y. x = Some y \<Longrightarrow> preserves I (f y)) \<Longrightarrow>
     preserves I (case x of None \<Rightarrow> m | Some y \<Rightarrow> f y)"
  by (cases x) auto

lemma preserves_sum [preserves_intro]:
  "(\<And>y. x = Inl y \<Longrightarrow> preserves I (f y)) \<Longrightarrow> (\<And>y. x = Inr y \<Longrightarrow> preserves I (g y)) \<Longrightarrow>
     preserves I (case x of Inl y \<Rightarrow> f y | Inr y \<Rightarrow> g y)"
  by (cases x) auto

lemma preserves_prod [preserves_intro]:
  "(\<And>y z. x = (y, z) \<Longrightarrow> preserves I (f y z)) \<Longrightarrow> preserves I (case x of (y, z) \<Rightarrow> f y z)"
  by (cases x) auto

lemma preserves_let [preserves_intro]:
  "(\<And>x. preserves I (f x)) \<Longrightarrow> preserves I (let x = y in f x)"
  by simp

subsection \<open>Weakest preconditions\<close>

text \<open>\<open>wp m Q Z s\<close>: run from \<open>s\<close>, the operation returns with \<open>Q\<close> or raises with \<open>Z\<close>.\<close>

definition wp :: "('s, 'e, 'a) act \<Rightarrow> ('a \<Rightarrow> 's \<Rightarrow> bool) \<Rightarrow> ('e \<Rightarrow> 's \<Rightarrow> bool) \<Rightarrow> 's \<Rightarrow> bool" where
  "wp m Q Z s = (case m s of (Inl e, s') \<Rightarrow> Z e s' | (Inr x, s') \<Rightarrow> Q x s')"

lemma wp_ret [wp_simps]: "wp (ret x) Q Z s = Q x s"
  by (simp add: wp_def)

lemma wp_skip [wp_simps]: "wp skip Q Z s = Q () s"
  by (simp add: wp_def)

lemma wp_raise [wp_simps]: "wp (raise e) Q Z s = Z e s"
  by (simp add: wp_def)

lemma wp_bnd [wp_simps]: "wp (bnd m f) Q Z s = wp m (\<lambda>x. wp (f x) Q Z) Z s"
  by (auto simp: wp_def bnd_def split: prod.splits sum.splits)

lemma wp_if [wp_simps]: "wp (if b then m else m') Q Z s = (if b then wp m Q Z s else wp m' Q Z s)"
  by simp

lemma wp_option [wp_simps]:
  "wp (case x of None \<Rightarrow> m | Some y \<Rightarrow> f y) Q Z s =
     (case x of None \<Rightarrow> wp m Q Z s | Some y \<Rightarrow> wp (f y) Q Z s)"
  by (cases x) simp_all

lemma wp_sum [wp_simps]:
  "wp (case x of Inl y \<Rightarrow> f y | Inr y \<Rightarrow> g y) Q Z s =
     (case x of Inl y \<Rightarrow> wp (f y) Q Z s | Inr y \<Rightarrow> wp (g y) Q Z s)"
  by (cases x) simp_all

lemma wp_prod [wp_simps]: "wp (case x of (y, z) \<Rightarrow> f y z) Q Z s = (case x of (y, z) \<Rightarrow> wp (f y z) Q Z s)"
  by (cases x) simp

lemma wp_let [wp_simps]: "wp (let x = y in f x) Q Z s = (let x = y in wp (f x) Q Z s)"
  by simp

lemma wp_mono:
  assumes "wp m Q Z s" and "\<And>x s'. Q x s' \<Longrightarrow> Q' x s'" and "\<And>e s'. Z e s' \<Longrightarrow> Z' e s'"
  shows "wp m Q' Z' s"
  using assms by (auto simp: wp_def split: prod.splits sum.splits)

lemma wp_Inr: "wp m Q Z s \<Longrightarrow> m s = (Inr x, s') \<Longrightarrow> Q x s'"
  by (simp add: wp_def)

lemma wp_Inl: "wp m Q Z s \<Longrightarrow> m s = (Inl e, s') \<Longrightarrow> Z e s'"
  by (simp add: wp_def)

lemma wp_after: "wp m (\<lambda>_. Q) (\<lambda>_. Q) s \<longleftrightarrow> Q (after (m s))"
  by (auto simp: wp_def after_def split: prod.splits sum.splits)

lemma preserves_wp: "preserves I m \<longleftrightarrow> (\<forall>s. I s \<longrightarrow> wp m (\<lambda>_. I) (\<lambda>_. I) s)"
  by (simp add: preserves_def wp_after)

end
