(* ===== verification/Domain.thy ===== *)
theory Domain
  imports Prelude
begin

text \<open>
  The data of the business layer: \<open>app/models/*.py\<close> and \<open>app/errors.py\<close>. A dataclass is a record
  with the dataclass's fields in its order, an enumeration a datatype with its text values, and an
  exception a value of \<open>exn\<close>.

  The dataclass \<open>User\<close> has an optional \<open>id\<close> and \<open>created_at\<close>, both unset until the repository
  stores the account. Here an account that was not stored yet is an \<open>account\<close> and a stored one is a
  \<open>user\<close>, which extends it with the two fields; every account a service gets from the repository
  is a stored one.
\<close>

section \<open>Enumerations\<close>

datatype role = USER | MODERATOR | SUPERADMIN

fun role_value :: "role \<Rightarrow> string" where
  "role_value USER = ''user''"
| "role_value MODERATOR = ''moderator''"
| "role_value SUPERADMIN = ''superadmin''"

definition Role :: "string \<Rightarrow> role option" where
  "Role s = (if s = ''user'' then Some USER
             else if s = ''moderator'' then Some MODERATOR
             else if s = ''superadmin'' then Some SUPERADMIN
             else None)"

datatype profile_visibility = PUBLIC | PROTECTED

fun visibility_value :: "profile_visibility \<Rightarrow> string" where
  "visibility_value PUBLIC = ''public''"
| "visibility_value PROTECTED = ''protected''"

definition ProfileVisibility :: "string \<Rightarrow> profile_visibility option" where
  "ProfileVisibility s = (if s = ''public'' then Some PUBLIC
                          else if s = ''protected'' then Some PROTECTED
                          else None)"

datatype account_status = ACTIVE | SUSPENDED | UNDER_REVIEW

fun status_value :: "account_status \<Rightarrow> string" where
  "status_value ACTIVE = ''active''"
| "status_value SUSPENDED = ''suspended''"
| "status_value UNDER_REVIEW = ''under_review''"

definition AccountStatus :: "string \<Rightarrow> account_status option" where
  "AccountStatus s = (if s = ''active'' then Some ACTIVE
                      else if s = ''suspended'' then Some SUSPENDED
                      else if s = ''under_review'' then Some UNDER_REVIEW
                      else None)"

text \<open>\<open>FeedLanguage.ALL\<close> is \<open>ALL_LANGUAGES\<close> here: \<open>ALL\<close> is a quantifier of the logic.\<close>

datatype feed_language = ES | EN | ALL_LANGUAGES

fun language_value :: "feed_language \<Rightarrow> string" where
  "language_value ES = ''es''"
| "language_value EN = ''en''"
| "language_value ALL_LANGUAGES = ''all''"

definition FeedLanguage :: "string \<Rightarrow> feed_language option" where
  "FeedLanguage s = (if s = ''es'' then Some ES
                     else if s = ''en'' then Some EN
                     else if s = ''all'' then Some ALL_LANGUAGES
                     else None)"

lemma Role_value [simp]: "Role (role_value r) = Some r"
  by (cases r) (simp_all add: Role_def)

lemma ProfileVisibility_value [simp]: "ProfileVisibility (visibility_value v) = Some v"
  by (cases v) (simp_all add: ProfileVisibility_def)

lemma AccountStatus_value [simp]: "AccountStatus (status_value s) = Some s"
  by (cases s) (simp_all add: AccountStatus_def)

lemma FeedLanguage_value [simp]: "FeedLanguage (language_value l) = Some l"
  by (cases l) (simp_all add: FeedLanguage_def)

lemma Role_Some: "Role s = Some r \<longleftrightarrow> s = role_value r"
  by (cases r) (auto simp: Role_def split: if_splits)

lemma ProfileVisibility_Some: "ProfileVisibility s = Some v \<longleftrightarrow> s = visibility_value v"
  by (cases v) (auto simp: ProfileVisibility_def split: if_splits)

lemma AccountStatus_Some: "AccountStatus s = Some x \<longleftrightarrow> s = status_value x"
  by (cases x) (auto simp: AccountStatus_def split: if_splits)

lemma FeedLanguage_Some: "FeedLanguage s = Some l \<longleftrightarrow> s = language_value l"
  by (cases l) (auto simp: FeedLanguage_def split: if_splits)

lemma role_value_inj [simp]: "role_value a = role_value b \<longleftrightarrow> a = b"
  by (metis Role_value option.inject)

lemma visibility_value_inj [simp]: "visibility_value a = visibility_value b \<longleftrightarrow> a = b"
  by (metis ProfileVisibility_value option.inject)

lemma language_value_inj [simp]: "language_value a = language_value b \<longleftrightarrow> a = b"
  by (metis FeedLanguage_value option.inject)

lemma status_value_inj [simp]: "status_value a = status_value b \<longleftrightarrow> a = b"
  by (metis AccountStatus_value option.inject)

section \<open>Accounts\<close>

record account =
  u_email :: string
  u_handle :: string
  u_password_hash :: string
  u_role :: role
  u_must_change_password :: bool
  u_temporary_password_expires_at :: "time option"
  u_is_email_verified :: bool
  u_status :: account_status
  u_status_reason :: "string option"
  u_status_changed_at :: "time option"
  u_deleted_at :: "time option"
  u_terms_accepted :: bool
  u_terms_accepted_at :: "time option"
  u_display_name :: "string option"
  u_bio :: "string option"
  u_profile_visibility :: profile_visibility
  u_feed_language :: feed_language

record user = account +
  u_id :: uuid
  u_created_at :: time

text \<open>The constructor call \<open>User(email=..., handle=..., password_hash=...)\<close> with the defaults.\<close>

definition User :: "string \<Rightarrow> string \<Rightarrow> string \<Rightarrow> account" where
  "User email handle password_hash =
     \<lparr> u_email = email, u_handle = handle, u_password_hash = password_hash,
       u_role = USER, u_must_change_password = False, u_temporary_password_expires_at = None,
       u_is_email_verified = False, u_status = ACTIVE, u_status_reason = None,
       u_status_changed_at = None, u_deleted_at = None, u_terms_accepted = False,
       u_terms_accepted_at = None, u_display_name = None, u_bio = None,
       u_profile_visibility = PUBLIC, u_feed_language = ALL_LANGUAGES \<rparr>"

definition can_log_in :: "'a account_scheme \<Rightarrow> bool" where
  "can_log_in u \<longleftrightarrow> u_status u = ACTIVE \<and> u_deleted_at u = None"

definition is_administrator :: "'a account_scheme \<Rightarrow> bool" where
  "is_administrator u \<longleftrightarrow> u_role u \<noteq> USER"

definition change_status ::
  "account_status \<Rightarrow> time \<Rightarrow> string option \<Rightarrow> 'a account_scheme \<Rightarrow> 'a account_scheme" where
  "change_status status at reason u =
     u\<lparr>u_status := status, u_status_reason := reason, u_status_changed_at := Some at\<rparr>"

definition temporary_password_expired :: "'a account_scheme \<Rightarrow> time \<Rightarrow> bool" where
  "temporary_password_expired u now \<longleftrightarrow>
     u_must_change_password u \<and>
     (case u_temporary_password_expires_at u of None \<Rightarrow> False | Some at \<Rightarrow> at \<le> now)"

section \<open>Tokens\<close>

record email_verification_token =
  evt_user_id :: uuid
  evt_token_hash :: string
  evt_expires_at :: time
  evt_id :: "uuid option"
  evt_used_at :: "time option"

definition evt_is_usable :: "email_verification_token \<Rightarrow> time \<Rightarrow> bool" where
  "evt_is_usable t now \<longleftrightarrow> evt_used_at t = None \<and> evt_expires_at t > now"

record password_reset_token =
  prt_user_id :: uuid
  prt_token_hash :: string
  prt_expires_at :: time
  prt_id :: "uuid option"
  prt_used_at :: "time option"

definition prt_is_usable :: "password_reset_token \<Rightarrow> time \<Rightarrow> bool" where
  "prt_is_usable t now \<longleftrightarrow> prt_used_at t = None \<and> prt_expires_at t > now"

record refresh_token =
  rt_user_id :: uuid
  rt_family_id :: uuid
  rt_token_hash :: string
  rt_expires_at :: time
  rt_id :: "uuid option"
  rt_used_at :: "time option"
  rt_revoked_at :: "time option"

section \<open>Feedback and audit entries\<close>

record feedback =
  fb_id :: uuid
  fb_user_id :: uuid
  fb_handle :: string
  fb_message :: string
  fb_device_os :: string
  fb_app_version :: string
  fb_created_at :: time

text \<open>
  The \<open>details\<close> of an audit entry is a JSON object; what the source stores there is text
  (\<open>email\<close>, \<open>reason\<close>) or a number (\<open>reports_count\<close>).
\<close>

datatype json_value = JText string | JNumber int

record audit_entry =
  ae_id :: uuid
  ae_occurred_at :: time
  ae_actor_id :: uuid
  ae_actor_email :: string
  ae_action :: string
  ae_target_type :: string
  ae_target_id :: uuid
  ae_details :: "(string \<times> json_value) list"

record audit_entry_with_target = audit_entry +
  ae_target_handle :: "string option"

text \<open>A JSON document; a number that is not an integer is kept as its text.\<close>

datatype json =
    JNull
  | JBool bool
  | JInt int
  | JFloat string
  | JString string
  | JArray "json list"
  | JObject "(string \<times> json) list"

section \<open>Events\<close>

text \<open>
  A CloudEvents envelope. Every value of its \<open>data\<close> object is text. \<open>time\<close> is printed with
  millisecond precision; the field holds the instant that text denotes, in milliseconds.
\<close>

record event =
  ev_specversion :: string
  ev_id :: string
  ev_source :: string
  ev_type :: string
  ev_time :: int
  ev_data :: "(string \<times> string) list"

section \<open>Errors\<close>

record problem =
  p_status :: int
  p_code :: string
  p_title :: string
  p_detail :: string
  p_headers :: "(string \<times> string) list"

text \<open>
  \<open>ProblemError\<close> is the error the services raise. \<open>ReusedRefreshTokenError\<close> is a subclass that a
  route tells apart. The others are raised by what the code calls: \<open>AttributeError\<close> is a field
  read off \<open>None\<close>, \<open>ValueError\<close> a failed conversion, \<open>KeyError\<close> a claim the token lacks,
  \<open>IntegrityError\<close> and \<open>DataError\<close> a constraint the database refused, \<open>RedisError\<close> a command the
  Redis client raised on, \<open>RequestValidationError\<close> a request its schema refused,
  \<open>BlocksUnavailableError\<close> an answer the social graph did not give and \<open>SeedConfigurationError\<close> an
  environment that describes no superadministrator. \<open>NoReturn\<close> is not an exception of Python: it marks
  a loop that is still running when the iterations granted to it in the model are spent.
\<close>

datatype exn =
    ProblemError problem
  | ReusedRefreshTokenError problem
  | AttributeError
  | ValueError
  | KeyError
  | IntegrityError
  | DataError
  | RedisError
  | RequestValidationError
  | BlocksUnavailableError
  | SeedConfigurationError
  | NoReturn

definition Problem :: "int \<Rightarrow> string \<Rightarrow> string \<Rightarrow> string \<Rightarrow> problem" where
  "Problem status code title detail =
     \<lparr> p_status = status, p_code = code, p_title = title, p_detail = detail, p_headers = [] \<rparr>"

fun problem_of :: "exn \<Rightarrow> problem option" where
  "problem_of (ProblemError p) = Some p"
| "problem_of (ReusedRefreshTokenError p) = Some p"
| "problem_of _ = None"

lemma change_status_fields [simp]:
  "u_status (change_status st at rs u) = st"
  "u_status_reason (change_status st at rs u) = rs"
  "u_status_changed_at (change_status st at rs u) = Some at"
  "u_email (change_status st at rs u) = u_email u"
  "u_handle (change_status st at rs u) = u_handle u"
  "u_role (change_status st at rs u) = u_role u"
  "u_deleted_at (change_status st at rs u) = u_deleted_at u"
  by (simp_all add: change_status_def)

lemma change_status_id [simp]:
  "u_id (change_status st at rs (u :: user)) = u_id u"
  "u_created_at (change_status st at rs (u :: user)) = u_created_at u"
  by (simp_all add: change_status_def)

end
