(* ===== verification/Tables.thy ===== *)
theory Tables
  imports Domain
begin

text \<open>
  The tables of \<open>infrastructure/database/models.py\<close>: a record per row type with its columns, the
  database as one list of rows per table in insertion order, and the constraints PostgreSQL checks
  (primary keys, unique columns, foreign keys, the CHECK clauses and the column widths) as
  executable predicates.
\<close>

section \<open>Rows\<close>

record user_model =
  um_id :: uuid
  um_email :: string
  um_handle :: string
  um_password_hash :: string
  um_must_change_password :: bool
  um_temporary_password_expires_at :: "time option"
  um_role :: string
  um_is_email_verified :: bool
  um_status :: string
  um_status_reason :: "string option"
  um_status_changed_at :: "time option"
  um_deleted_at :: "time option"
  um_terms_accepted :: bool
  um_terms_accepted_at :: "time option"
  um_display_name :: "string option"
  um_bio :: "string option"
  um_profile_visibility :: string
  um_feed_language :: string
  um_created_at :: time

record email_verification_token_model =
  evm_id :: uuid
  evm_user_id :: uuid
  evm_token_hash :: string
  evm_expires_at :: time
  evm_used_at :: "time option"
  evm_created_at :: time

record password_reset_token_model =
  prm_id :: uuid
  prm_user_id :: uuid
  prm_token_hash :: string
  prm_expires_at :: time
  prm_used_at :: "time option"
  prm_created_at :: time

record refresh_token_model =
  rtm_id :: uuid
  rtm_user_id :: uuid
  rtm_family_id :: uuid
  rtm_token_hash :: string
  rtm_expires_at :: time
  rtm_used_at :: "time option"
  rtm_revoked_at :: "time option"
  rtm_created_at :: time

record outbox_model =
  om_id :: uuid
  om_type :: string
  om_payload :: event
  om_created_at :: time

text \<open>
  \<open>FeedbackModel\<close> and \<open>AuditLogModel\<close> have the columns of the dataclasses they store
  (\<open>**asdict(...)\<close>), so their rows are those records.
\<close>

record db =
  users :: "user_model list"
  email_verification_tokens :: "email_verification_token_model list"
  password_reset_tokens :: "password_reset_token_model list"
  refresh_tokens :: "refresh_token_model list"
  outbox :: "outbox_model list"
  feedback_messages :: "feedback list"
  admin_audit_log :: "audit_entry list"

section \<open>Constraints\<close>

definition ck_users :: "user_model \<Rightarrow> bool" where
  "ck_users r \<longleftrightarrow>
     um_role r \<in> set [''user'', ''moderator'', ''superadmin''] \<and>
     um_profile_visibility r \<in> set [''public'', ''protected''] \<and>
     um_feed_language r \<in> set [''es'', ''en'', ''all''] \<and>
     um_status r \<in> set [''active'', ''suspended'', ''under_review'']"

definition users_widths :: "user_model \<Rightarrow> bool" where
  "users_widths r \<longleftrightarrow>
     length (um_email r) \<le> 320 \<and> length (um_handle r) \<le> 16 \<and> length (um_password_hash r) \<le> 255"

definition ck_admin_audit_action :: "audit_entry \<Rightarrow> bool" where
  "ck_admin_audit_action a \<longleftrightarrow>
     ae_action a \<in> set [''admin.created'', ''admin.temporary_password_reset'', ''user.blocked'',
                          ''report.dismissed'', ''report.resolved'']"

definition users_unique :: "user_model list \<Rightarrow> bool" where
  "users_unique us \<longleftrightarrow>
     distinct (map um_id us) \<and> distinct (map um_email us) \<and> distinct (map um_handle us)"

definition tokens_constraints :: "db \<Rightarrow> bool" where
  "tokens_constraints d \<longleftrightarrow>
     (let ids = set (map um_id (users d)) in
      distinct (map evm_token_hash (email_verification_tokens d)) \<and>
      distinct (map prm_token_hash (password_reset_tokens d)) \<and>
      distinct (map rtm_token_hash (refresh_tokens d)) \<and>
      distinct (map evm_id (email_verification_tokens d)) \<and>
      distinct (map prm_id (password_reset_tokens d)) \<and>
      distinct (map rtm_id (refresh_tokens d)) \<and>
      (\<forall>t \<in> set (email_verification_tokens d). evm_user_id t \<in> ids) \<and>
      (\<forall>t \<in> set (password_reset_tokens d). prm_user_id t \<in> ids) \<and>
      (\<forall>t \<in> set (refresh_tokens d). rtm_user_id t \<in> ids))"

definition constraints :: "db \<Rightarrow> bool" where
  "constraints d \<longleftrightarrow>
     users_unique (users d) \<and>
     (\<forall>r \<in> set (users d). ck_users r) \<and>
     tokens_constraints d \<and>
     distinct (map om_id (outbox d)) \<and>
     distinct (map fb_id (feedback_messages d)) \<and>
     distinct (map ae_id (admin_audit_log d)) \<and>
     (\<forall>a \<in> set (admin_audit_log d). ck_admin_audit_action a)"

text \<open>What a commit lets through.\<close>

definition storable :: "db \<Rightarrow> bool" where
  "storable d \<longleftrightarrow> (\<forall>r \<in> set (users d). users_widths r) \<and> constraints d"

definition empty_db :: db where
  "empty_db = \<lparr> users = [], email_verification_tokens = [], password_reset_tokens = [],
     refresh_tokens = [], outbox = [], feedback_messages = [], admin_audit_log = [] \<rparr>"

lemma constraints_empty: "constraints empty_db"
  by (simp add: constraints_def empty_db_def users_unique_def tokens_constraints_def)

lemma constraintsD:
  assumes "constraints d"
  shows constraints_users: "users_unique (users d)"
    and constraints_ck: "r \<in> set (users d) \<Longrightarrow> ck_users r"
    and constraints_tokens: "tokens_constraints d"
  using assms by (simp_all add: constraints_def)

section \<open>Finding and changing rows by a unique column\<close>

text \<open>
  \<open>session.scalar(select(M).where(...))\<close> is the first row that matches and \<open>session.get\<close> the row
  with that primary key.
\<close>

lemma find_SomeD: "List.find P xs = Some x \<Longrightarrow> x \<in> set xs \<and> P x"
  by (induction xs) (auto split: if_splits)

lemma find_unique:
  assumes "distinct (map f xs)" and "x \<in> set xs"
  shows "List.find (\<lambda>y. f y = f x) xs = Some x"
  using assms by (induction xs) auto

lemma find_map_same:
  assumes "\<And>x. f (g x) = f x"
  shows "List.find (\<lambda>x. f x = k) (map g xs) = map_option g (List.find (\<lambda>x. f x = k) xs)"
  using assms by (induction xs) auto

lemma find_append: "List.find P (xs @ ys) = (case List.find P xs of Some x \<Rightarrow> Some x | None \<Rightarrow> List.find P ys)"
  by (induction xs) auto

lemma find_NoneD: "List.find P xs = None \<Longrightarrow> x \<in> set xs \<Longrightarrow> \<not> P x"
  by (auto simp: find_None_iff)

end
