(* ===== verification/Environment.thy ===== *)
theory Environment
  imports Tables
begin

text \<open>
  What the services run in: the configuration (\<open>config/settings.py\<close>), the code they call that is
  not part of the repository, as parameters, and the state of the world an operation works on.

  The parameters are the fields of \<open>env\<close>: the clock, the random sources, argon2, SHA-256, PyJWT
  with this service's signing key, the address check behind pydantic's \<open>EmailStr\<close> (the normalised
  address, or \<open>None\<close>), the HTML sanitiser \<open>nh3\<close>, the answers of the social graph's service to a block
  check (\<open>None\<close> for a failed or unreadable one), pydantic's readers of JSON, UUIDs and aware instants,
  and the Redis client. What the code relies on about them is
  stated by named predicates: \<open>redis_server\<close> (the documented behaviour of the six commands the code
  sends), \<open>jwt_codec\<close>, \<open>argon2_correct\<close> and \<open>steady_clock\<close>. Each reading of the clock or of a
  random source is the next draw: \<open>w_draws\<close> counts them, and the value is whatever the
  environment gives for that draw.
\<close>

section \<open>Settings\<close>

record settings =
  internal_api_token :: string
  jwt_issuer :: string
  access_token_minutes :: int
  refresh_token_days :: int
  login_max_attempts :: int
  login_lockout_minutes :: int
  admin_login_max_attempts :: int
  admin_login_lockout_minutes :: int
  change_password_max_attempts :: int
  change_password_lockout_minutes :: int
  superadmin_email :: "string option"
  superadmin_password :: "string option"
  superadmin_handle :: string
  administrator_email_domain :: string
  email_verification_hours :: int
  password_reset_minutes :: int
  password_reset_max_requests :: int
  password_reset_window_minutes :: int
  public_base_url :: string

definition default_settings :: "string \<Rightarrow> settings" where
  "default_settings token =
     \<lparr> internal_api_token = token, jwt_issuer = ''users-api'', access_token_minutes = 15,
       refresh_token_days = 7, login_max_attempts = 5, login_lockout_minutes = 15,
       admin_login_max_attempts = 3, admin_login_lockout_minutes = 30,
       change_password_max_attempts = 3, change_password_lockout_minutes = 15,
       superadmin_email = None, superadmin_password = None, superadmin_handle = ''@superadmin'',
       administrator_email_domain = [], email_verification_hours = 24,
       password_reset_minutes = 10, password_reset_max_requests = 3,
       password_reset_window_minutes = 60, public_base_url = ''http://localhost:8000'' \<rparr>"

definition API_PREFIX :: string where
  "API_PREFIX = ''/api''"

section \<open>The Redis server\<close>

text \<open>
  The commands the code sends, each with the instant the server handles it. \<open>None\<close> in place of an
  answer is the client raising. Every value the code stores is a decimal number, so a value is an
  \<open>int\<close> here. \<open>rd_live\<close> observes the server: what a key holds at an instant, with the instant it
  expires, if it does.
\<close>

record 'r redis_api =
  rd_incr :: "string \<Rightarrow> time \<Rightarrow> 'r \<Rightarrow> int option \<times> 'r"
  rd_expire :: "string \<Rightarrow> int \<Rightarrow> time \<Rightarrow> 'r \<Rightarrow> int option \<times> 'r"
  rd_get :: "string \<Rightarrow> time \<Rightarrow> 'r \<Rightarrow> int option option \<times> 'r"
  rd_set_ex :: "string \<Rightarrow> int \<Rightarrow> int \<Rightarrow> time \<Rightarrow> 'r \<Rightarrow> unit option \<times> 'r"
  rd_delete :: "string \<Rightarrow> time \<Rightarrow> 'r \<Rightarrow> int option \<times> 'r"
  rd_exists :: "string \<Rightarrow> time \<Rightarrow> 'r \<Rightarrow> int option \<times> 'r"
  rd_live :: "'r \<Rightarrow> time \<Rightarrow> string \<Rightarrow> (int \<times> time option) option"

definition alive_at :: "time \<Rightarrow> int \<times> time option \<Rightarrow> bool" where
  "alive_at t e \<longleftrightarrow> (case snd e of None \<Rightarrow> True | Some d \<Rightarrow> t < d)"

definition aged :: "time \<Rightarrow> (int \<times> time option) option \<Rightarrow> (int \<times> time option) option" where
  "aged t e = (case e of None \<Rightarrow> None | Some x \<Rightarrow> if alive_at t x then Some x else None)"

definition incremented :: "(int \<times> time option) option \<Rightarrow> int \<times> time option" where
  "incremented e = (case e of None \<Rightarrow> (1, None) | Some (n, d) \<Rightarrow> (n + 1, d))"

locale redis_server =
  fixes api :: "'r redis_api"
  assumes live_alive: "rd_live api r t k = Some e \<Longrightarrow> alive_at t e"
    and live_ages: "t \<le> t' \<Longrightarrow> rd_live api r t' k = aged t' (rd_live api r t k)"
    and incr_answer: "rd_incr api k t r = (Some n, r') \<Longrightarrow> n = fst (incremented (rd_live api r t k))"
    and incr_effect: "rd_incr api k t r = (Some n, r') \<Longrightarrow>
          rd_live api r' t = (rd_live api r t)(k \<mapsto> incremented (rd_live api r t k))"
    and incr_raises: "rd_incr api k t r = (None, r') \<Longrightarrow>
          rd_live api r' t = rd_live api r t \<or>
          rd_live api r' t = (rd_live api r t)(k \<mapsto> incremented (rd_live api r t k))"
    and expire_effect: "rd_expire api k s t r = (Some b, r') \<Longrightarrow> 0 < s \<Longrightarrow>
          rd_live api r' t = (rd_live api r t)
            (k := map_option (\<lambda>e. (fst e, Some (t + seconds s))) (rd_live api r t k))"
    and expire_now: "rd_expire api k s t r = (Some b, r') \<Longrightarrow> s \<le> 0 \<Longrightarrow>
          rd_live api r' t = (rd_live api r t)(k := None)"
    and expire_raises: "rd_expire api k s t r = (None, r') \<Longrightarrow>
          rd_live api r' t = rd_live api r t \<or>
          rd_live api r' t = (rd_live api r t)
            (k := map_option (\<lambda>e. (fst e, Some (t + seconds s))) (rd_live api r t k)) \<or>
          rd_live api r' t = (rd_live api r t)(k := None)"
    and get_answer: "rd_get api k t r = (Some a, r') \<Longrightarrow> a = map_option fst (rd_live api r t k)"
    and get_keeps: "rd_get api k t r = (ga, r') \<Longrightarrow> rd_live api r' t = rd_live api r t"
    and set_effect: "rd_set_ex api k v s t r = (Some u, r') \<Longrightarrow>
          0 < s \<and> rd_live api r' t = (rd_live api r t)(k \<mapsto> (v, Some (t + seconds s)))"
    and set_raises: "rd_set_ex api k v s t r = (None, r') \<Longrightarrow>
          rd_live api r' t = rd_live api r t \<or>
          0 < s \<and> rd_live api r' t = (rd_live api r t)(k \<mapsto> (v, Some (t + seconds s)))"
    and delete_effect: "rd_delete api k t r = (Some n, r') \<Longrightarrow>
          rd_live api r' t = (rd_live api r t)(k := None)"
    and delete_raises: "rd_delete api k t r = (None, r') \<Longrightarrow>
          rd_live api r' t = rd_live api r t \<or> rd_live api r' t = (rd_live api r t)(k := None)"
    and exists_answer: "rd_exists api k t r = (Some n, r') \<Longrightarrow>
          n = (if rd_live api r t k = None then 0 else 1)"
    and exists_keeps: "rd_exists api k t r = (x, r') \<Longrightarrow> rd_live api r' t = rd_live api r t"

text \<open>A server that always answers.\<close>

definition redis_answers :: "'r redis_api \<Rightarrow> bool" where
  "redis_answers api \<longleftrightarrow>
     (\<forall>k t r. \<exists>n r'. rd_incr api k t r = (Some n, r')) \<and>
     (\<forall>k s t r. \<exists>n r'. rd_expire api k s t r = (Some n, r')) \<and>
     (\<forall>k t r. \<exists>v r'. rd_get api k t r = (Some v, r')) \<and>
     (\<forall>k v s t r. 0 < s \<longrightarrow> (\<exists>r'. rd_set_ex api k v s t r = (Some (), r'))) \<and>
     (\<forall>k t r. \<exists>n r'. rd_delete api k t r = (Some n, r')) \<and>
     (\<forall>k t r. \<exists>n r'. rd_exists api k t r = (Some n, r'))"

subsection \<open>A server that satisfies the laws\<close>

text \<open>The keyspace as a function from keys to entries; every command answers.\<close>

type_synonym keyspace = "string \<Rightarrow> (int \<times> time option) option"

definition keyspace_redis :: "keyspace redis_api" where
  "keyspace_redis =
     \<lparr> rd_incr = (\<lambda>k t r. let e = incremented (aged t (r k)) in (Some (fst e), r(k \<mapsto> e))),
       rd_expire = (\<lambda>k s t r.
         (Some (if aged t (r k) = None then 0 else 1),
          r(k := (if s \<le> 0 then None
                  else map_option (\<lambda>e. (fst e, Some (t + seconds s))) (aged t (r k)))))),
       rd_get = (\<lambda>k t r. (Some (map_option fst (aged t (r k))), r)),
       rd_set_ex = (\<lambda>k v s t r.
         if 0 < s then (Some (), r(k \<mapsto> (v, Some (t + seconds s)))) else (None, r)),
       rd_delete = (\<lambda>k t r. (Some (if aged t (r k) = None then 0 else 1), r(k := None))),
       rd_exists = (\<lambda>k t r. (Some (if aged t (r k) = None then 0 else 1), r)),
       rd_live = (\<lambda>r t k. aged t (r k)) \<rparr>"

lemma aged_aged: "t \<le> t' \<Longrightarrow> aged t' (aged t e) = aged t' e"
  by (auto simp: aged_def alive_at_def split: option.splits)

lemma aged_Some: "aged t e = Some x \<Longrightarrow> alive_at t x"
  by (auto simp: aged_def split: option.splits if_splits)

lemma incremented_alive: "(case e of None \<Rightarrow> True | Some x \<Rightarrow> alive_at t x) \<Longrightarrow> alive_at t (incremented e)"
  by (auto simp: alive_at_def incremented_def split: option.splits)

lemma aged_alive: "alive_at t x \<Longrightarrow> aged t (Some x) = Some x"
  by (simp add: aged_def)

lemma aged_None [simp]: "aged t None = None"
  by (simp add: aged_def)

lemma aged_incremented [simp]: "aged t (Some (incremented (aged t e))) = Some (incremented (aged t e))"
  by (rule aged_alive) (auto simp: incremented_def aged_def alive_at_def split: option.splits)

lemma aged_expiring [simp]:
  "0 < s \<Longrightarrow> aged t (map_option (\<lambda>x. (fst x, Some (t + seconds s))) e) =
     map_option (\<lambda>x. (fst x, Some (t + seconds s))) e"
  by (cases e) (simp_all add: aged_def alive_at_def)

lemma aged_fresh [simp]: "0 < s \<Longrightarrow> aged t (Some (v, Some (t + seconds s))) = Some (v, Some (t + seconds s))"
  by (simp add: aged_def alive_at_def)

interpretation keyspace_server: redis_server keyspace_redis
  by unfold_locales
     (auto simp: keyspace_redis_def Let_def aged_Some aged_aged intro!: ext split: if_splits)

lemma keyspace_redis_answers: "redis_answers keyspace_redis"
  by (simp add: redis_answers_def keyspace_redis_def Let_def)

section \<open>Access tokens as PyJWT sees them\<close>

text \<open>
  The payload handed to \<open>jwt.encode\<close> carries aware instants; PyJWT writes them as whole seconds
  since the epoch. What \<open>jwt.decode\<close> returns is a dictionary: a claim the token lacks is \<open>None\<close>.
\<close>

record token_payload =
  pl_iss :: string
  pl_sub :: string
  pl_role :: string
  pl_handle :: string
  pl_profile_visibility :: string
  pl_jti :: string
  pl_iat :: time
  pl_exp :: time

record claims =
  c_iss :: "string option"
  c_sub :: "string option"
  c_role :: "string option"
  c_handle :: "string option"
  c_profile_visibility :: "string option"
  c_jti :: "string option"
  c_iat :: "int option"
  c_exp :: "int option"

datatype jwt_error = ExpiredSignatureError | OtherInvalidTokenError

definition claims_of :: "token_payload \<Rightarrow> claims" where
  "claims_of p =
     \<lparr> c_iss = Some (pl_iss p), c_sub = Some (pl_sub p), c_role = Some (pl_role p),
       c_handle = Some (pl_handle p), c_profile_visibility = Some (pl_profile_visibility p),
       c_jti = Some (pl_jti p), c_iat = Some (whole_seconds (pl_iat p)),
       c_exp = Some (whole_seconds (pl_exp p)) \<rparr>"

section \<open>The environment and the world\<close>

record 'r env =
  e_clock :: "nat \<Rightarrow> time"
  e_uuid4 :: "nat \<Rightarrow> uuid"
  e_token_urlsafe :: "nat \<Rightarrow> nat \<Rightarrow> string"
  e_argon2_hash :: "nat \<Rightarrow> string \<Rightarrow> string"
  e_argon2_verify :: "string \<Rightarrow> string \<Rightarrow> bool"
  e_sha256 :: "string \<Rightarrow> string"
  e_jwt_encode :: "token_payload \<Rightarrow> string"
  e_jwt_decode :: "string \<Rightarrow> string \<Rightarrow> time \<Rightarrow> jwt_error + claims"
  e_validate_email :: "string \<Rightarrow> string option"
  e_nh3_clean :: "string \<Rightarrow> string"
  e_check_blocks :: "nat \<Rightarrow> uuid \<Rightarrow> uuid list \<Rightarrow> uuid list option"
  e_json_parse :: "string \<Rightarrow> json option"
  e_json_uuid :: "json \<Rightarrow> uuid option"
  e_json_instant :: "json \<Rightarrow> time option"
  e_redis :: "'r redis_api"

definition steady_clock :: "'r env \<Rightarrow> bool" where
  "steady_clock E \<longleftrightarrow> (\<forall>m n. m \<le> n \<longrightarrow> e_clock E m \<le> e_clock E n)"

text \<open>
  What the code relies on about \<open>jwt.decode(token, key, algorithms, issuer, require=["iss"])\<close>:
  a token this key signed comes back with its claims while it is within its validity, it is
  reported as expired from its \<open>exp\<close> on, and whatever is accepted was signed by this key, is
  not expired, is not from the future and names the issuer.
\<close>

definition jwt_codec :: "'r env \<Rightarrow> bool" where
  "jwt_codec E \<longleftrightarrow>
     (\<forall>p iss t. pl_iss p = iss \<longrightarrow> seconds (whole_seconds (pl_iat p)) \<le> t \<longrightarrow>
        t < seconds (whole_seconds (pl_exp p)) \<longrightarrow>
        e_jwt_decode E (e_jwt_encode E p) iss t = Inr (claims_of p)) \<and>
     (\<forall>p iss t. seconds (whole_seconds (pl_iat p)) \<le> t \<longrightarrow>
        seconds (whole_seconds (pl_exp p)) \<le> t \<longrightarrow>
        e_jwt_decode E (e_jwt_encode E p) iss t = Inl ExpiredSignatureError) \<and>
     (\<forall>tok iss t c. e_jwt_decode E tok iss t = Inr c \<longrightarrow>
        (\<exists>p. tok = e_jwt_encode E p \<and> c = claims_of p \<and> pl_iss p = iss \<and>
             seconds (whole_seconds (pl_iat p)) \<le> t \<and> t < seconds (whole_seconds (pl_exp p)))) \<and>
     (\<forall>p q. e_jwt_encode E p = e_jwt_encode E q \<longrightarrow> claims_of p = claims_of q)"

text \<open>argon2: the hash of a password verifies against that password and against no other.\<close>

definition argon2_correct :: "'r env \<Rightarrow> bool" where
  "argon2_correct E \<longleftrightarrow>
     (\<forall>n p q. e_argon2_hash E n p \<noteq> [] \<and> (e_argon2_verify E (e_argon2_hash E n p) q \<longleftrightarrow> q = p))"

record 'r world =
  w_db :: db
  w_redis :: 'r
  w_draws :: nat
  w_tx_now :: time

type_synonym ('r, 'a) op = "('r world, exn, 'a) act"

definition draw :: "(nat \<Rightarrow> 'a) \<Rightarrow> ('r, 'a) op" where
  "draw f w = (Inr (f (w_draws w)), w\<lparr>w_draws := Suc (w_draws w)\<rparr>)"

definition now_utc :: "'r env \<Rightarrow> ('r, time) op" where
  "now_utc E = draw (e_clock E)"

definition uuid4 :: "'r env \<Rightarrow> ('r, uuid) op" where
  "uuid4 E = draw (e_uuid4 E)"

definition token_urlsafe :: "'r env \<Rightarrow> nat \<Rightarrow> ('r, string) op" where
  "token_urlsafe E nbytes = draw (e_token_urlsafe E nbytes)"

definition query :: "(db \<Rightarrow> 'a) \<Rightarrow> ('r, 'a) op" where
  "query f w = (Inr (f (w_db w)), w)"

definition modify_db :: "(db \<Rightarrow> db) \<Rightarrow> ('r, unit) op" where
  "modify_db f w = (Inr (), w\<lparr>w_db := f (w_db w)\<rparr>)"

definition server_now :: "('r, time) op" where
  "server_now w = (Inr (w_tx_now w), w)"

definition redis_cmd :: "'r env \<Rightarrow> (time \<Rightarrow> 'r \<Rightarrow> 'a option \<times> 'r) \<Rightarrow> ('r, 'a) op" where
  "redis_cmd E f w =
     (case f (e_clock E (w_draws w)) (w_redis w) of (a, r') \<Rightarrow>
        ((case a of None \<Rightarrow> Inl RedisError | Some x \<Rightarrow> Inr x),
         w\<lparr>w_redis := r', w_draws := Suc (w_draws w)\<rparr>))"

text \<open>\<open>claims["k"]\<close> and the like: a missing key raises \<open>KeyError\<close>.\<close>

definition subscript :: "'a option \<Rightarrow> ('r, 'a) op" where
  "subscript x = (case x of None \<Rightarrow> raise KeyError | Some v \<Rightarrow> ret v)"

text \<open>Reading a field of an object that may be \<open>None\<close>.\<close>

definition not_none :: "'a option \<Rightarrow> ('r, 'a) op" where
  "not_none x = (case x of None \<Rightarrow> raise AttributeError | Some v \<Rightarrow> ret v)"

section \<open>The transaction of a request\<close>

text \<open>
  \<open>session_scope\<close> of \<open>infrastructure/database/session.py\<close>: commit when the handler returns, roll
  back when it raises. Redis is outside of it, and so is everything drawn from the environment.
  Committing flushes what was added, so a violated constraint surfaces there at the latest and rolls
  back too. PostgreSQL's \<open>now()\<close>, which fills the \<open>created_at\<close> columns, is the instant the
  transaction began.
\<close>

definition session_scope :: "'r env \<Rightarrow> ('r, 'a) op \<Rightarrow> ('r, 'a) op" where
  "session_scope E m w =
     (let w0 = w\<lparr>w_tx_now := e_clock E (w_draws w), w_draws := Suc (w_draws w)\<rparr> in
      case m w0 of
        (Inl e, w1) \<Rightarrow> (Inl e, w1\<lparr>w_db := w_db w\<rparr>)
      | (Inr x, w1) \<Rightarrow>
          if \<not> (\<forall>r \<in> set (users (w_db w1)). users_widths r) then (Inl DataError, w1\<lparr>w_db := w_db w\<rparr>)
          else if constraints (w_db w1) then (Inr x, w1)
          else (Inl IntegrityError, w1\<lparr>w_db := w_db w\<rparr>))"

subsection \<open>Facts\<close>

lemma session_scope_Inr:
  assumes "m (w\<lparr>w_tx_now := e_clock E (w_draws w), w_draws := Suc (w_draws w)\<rparr>) = (Inr x, w1)"
    and "storable (w_db w1)"
  shows "session_scope E m w = (Inr x, w1)"
  using assms by (auto simp: session_scope_def storable_def)

lemma session_scope_storable:
  "session_scope E m w = (Inr x, w') \<Longrightarrow> storable (w_db w')"
  "session_scope E m w = (Inl e, w') \<Longrightarrow> w_db w' = w_db w"
  by (auto simp: session_scope_def storable_def Let_def split: prod.splits sum.splits if_splits)

lemma draw_apply [simp]: "draw f w = (Inr (f (w_draws w)), w\<lparr>w_draws := Suc (w_draws w)\<rparr>)"
  by (simp add: draw_def)

lemma query_apply [simp]: "query f w = (Inr (f (w_db w)), w)"
  by (simp add: query_def)

lemma modify_db_apply [simp]: "modify_db f w = (Inr (), w\<lparr>w_db := f (w_db w)\<rparr>)"
  by (simp add: modify_db_def)

lemma server_now_apply [simp]: "server_now w = (Inr (w_tx_now w), w)"
  by (simp add: server_now_def)

lemma now_apply [simp]:
  "now_utc E w = (Inr (e_clock E (w_draws w)), w\<lparr>w_draws := Suc (w_draws w)\<rparr>)"
  by (simp add: now_utc_def)

lemma uuid4_apply [simp]:
  "uuid4 E w = (Inr (e_uuid4 E (w_draws w)), w\<lparr>w_draws := Suc (w_draws w)\<rparr>)"
  by (simp add: uuid4_def)

lemma token_urlsafe_apply [simp]:
  "token_urlsafe E n w = (Inr (e_token_urlsafe E n (w_draws w)), w\<lparr>w_draws := Suc (w_draws w)\<rparr>)"
  by (simp add: token_urlsafe_def)

lemma subscript_simps [simp]:
  "subscript None = raise KeyError"
  "subscript (Some v) = ret v"
  by (simp_all add: subscript_def)

lemma not_none_simps [simp]:
  "not_none None = raise AttributeError"
  "not_none (Some v) = ret v"
  by (simp_all add: not_none_def)

lemma bnd_apply [op_simps]:
  "bnd (draw f) g w = g (f (w_draws w)) (w\<lparr>w_draws := Suc (w_draws w)\<rparr>)"
  "bnd (now_utc E) h w = h (e_clock E (w_draws w)) (w\<lparr>w_draws := Suc (w_draws w)\<rparr>)"
  "bnd (uuid4 E) k w = k (e_uuid4 E (w_draws w)) (w\<lparr>w_draws := Suc (w_draws w)\<rparr>)"
  "bnd (token_urlsafe E n) l w = l (e_token_urlsafe E n (w_draws w)) (w\<lparr>w_draws := Suc (w_draws w)\<rparr>)"
  "bnd (query q) m w = m (q (w_db w)) w"
  "bnd (modify_db c) p w = p () (w\<lparr>w_db := c (w_db w)\<rparr>)"
  "bnd server_now h w = h (w_tx_now w) w"
  by (simp_all add: bnd_Inr)

lemma bnd_redis [op_simps]:
  "bnd (redis_cmd E c) f w = (case c (e_clock E (w_draws w)) (w_redis w) of
     (None, r) \<Rightarrow> (Inl RedisError, w\<lparr>w_redis := r, w_draws := Suc (w_draws w)\<rparr>)
   | (Some x, r) \<Rightarrow> f x (w\<lparr>w_redis := r, w_draws := Suc (w_draws w)\<rparr>))"
  by (auto simp: redis_cmd_def bnd_def split: prod.split option.split)

lemma preserves_subscript [preserves_intro]: "preserves I (subscript x)"
  by (cases x) (auto intro: preserves_intro)

lemma preserves_not_none [preserves_intro]: "preserves I (not_none x)"
  by (cases x) (auto intro: preserves_intro)

lemma preserves_query [preserves_intro]: "preserves I (query f)"
  by (simp add: preserves_def)

lemma preserves_server_now [preserves_intro]: "preserves I server_now"
  by (simp add: preserves_def)

lemma wp_draws [wp_simps]:
  "wp (draw f) Q Z w = Q (f (w_draws w)) (w\<lparr>w_draws := Suc (w_draws w)\<rparr>)"
  "wp (now_utc E) Q1 Z w = Q1 (e_clock E (w_draws w)) (w\<lparr>w_draws := Suc (w_draws w)\<rparr>)"
  "wp (uuid4 E) Q2 Z w = Q2 (e_uuid4 E (w_draws w)) (w\<lparr>w_draws := Suc (w_draws w)\<rparr>)"
  "wp (token_urlsafe E n) Q3 Z w = Q3 (e_token_urlsafe E n (w_draws w)) (w\<lparr>w_draws := Suc (w_draws w)\<rparr>)"
  by (simp_all add: wp_def)

lemma wp_database [wp_simps]:
  "wp (query q) Q Z w = Q (q (w_db w)) w"
  "wp (modify_db c) Q1 Z w = Q1 () (w\<lparr>w_db := c (w_db w)\<rparr>)"
  "wp server_now Q2 Z w = Q2 (w_tx_now w) w"
  by (simp_all add: wp_def)

lemma wp_partial [wp_simps]:
  "wp (subscript x) Q Z w = (case x of None \<Rightarrow> Z KeyError w | Some v \<Rightarrow> Q v w)"
  "wp (not_none y) Q1 Z w = (case y of None \<Rightarrow> Z AttributeError w | Some v \<Rightarrow> Q1 v w)"
  by (auto simp: wp_def split: option.splits)

text \<open>Whatever a Redis command does, it leaves the database alone.\<close>

lemma wp_redis_cmd:
  assumes "\<And>x r. Q x (w\<lparr>w_redis := r, w_draws := Suc (w_draws w)\<rparr>)"
    and "\<And>r. Z RedisError (w\<lparr>w_redis := r, w_draws := Suc (w_draws w)\<rparr>)"
  shows "wp (redis_cmd E f) Q Z w"
  using assms by (simp add: wp_def redis_cmd_def split: prod.split option.split)

end
