(* ===== verification/Redis_Stores.thy ===== *)
theory Redis_Stores
  imports Environment
begin

text \<open>
  The two interfaces the business layer keeps in Redis, and their implementations:
  \<open>RateLimiter\<close> (\<open>app/repositories/rate_limiter.py\<close>) by \<open>RedisRateLimiter\<close> and
  \<open>SessionStore\<close> (\<open>app/repositories/sessions.py\<close>) by \<open>RedisSessionStore\<close>
  (\<open>infrastructure/redis/\<close>).

  Each abstract class is a locale: its operations, what they promise as laws, and the lemmas its
  clients use. The locale \<open>service_env\<close> is an environment whose Redis server and clock behave;
  the implementations satisfy both contracts in every such environment.
\<close>

section \<open>The rate limiter\<close>

definition hit :: "'r env \<Rightarrow> string \<Rightarrow> int \<Rightarrow> ('r, int) op" where
  "hit E key window_seconds =
     bnd (redis_cmd E (rd_incr (e_redis E) key)) (\<lambda>marks.
     if marks = 1 then
       bnd (redis_cmd E (rd_expire (e_redis E) key window_seconds)) (\<lambda>_.
       ret marks)
     else ret marks)"

definition count_marks :: "'r env \<Rightarrow> string \<Rightarrow> ('r, int) op" where
  "count_marks E key =
     bnd (redis_cmd E (rd_get (e_redis E) key)) (\<lambda>marks.
     ret (case marks of None \<Rightarrow> 0 | Some n \<Rightarrow> n))"

definition reset_marks :: "'r env \<Rightarrow> string \<Rightarrow> ('r, unit) op" where
  "reset_marks E key = bnd (redis_cmd E (rd_delete (e_redis E) key)) (\<lambda>_. skip)"

section \<open>The session store\<close>

definition revoked_token_key :: "string \<Rightarrow> string" where
  "revoked_token_key jti = ''revoked:jti:'' @ jti"

definition revoked_sessions_key :: "uuid \<Rightarrow> string" where
  "revoked_sessions_key user_id = ''revoked:user:'' @ uuid_str user_id"

definition revoke_token :: "'r env \<Rightarrow> string \<Rightarrow> time \<Rightarrow> time \<Rightarrow> ('r, unit) op" where
  "revoke_token E jti expires_at now =
     (let ttl = whole_seconds (expires_at - now) in
      redis_cmd E (rd_set_ex (e_redis E) (revoked_token_key jti) 1 ttl))"

definition revoke_sessions :: "'r env \<Rightarrow> uuid \<Rightarrow> time \<Rightarrow> int \<Rightarrow> ('r, unit) op" where
  "revoke_sessions E user_id now ttl_seconds =
     redis_cmd E (rd_set_ex (e_redis E) (revoked_sessions_key user_id) (whole_seconds now) ttl_seconds)"

definition is_token_revoked :: "'r env \<Rightarrow> string \<Rightarrow> ('r, bool) op" where
  "is_token_revoked E jti =
     bnd (redis_cmd E (rd_exists (e_redis E) (revoked_token_key jti))) (\<lambda>n. ret (n = 1))"

definition revoked_before :: "'r env \<Rightarrow> uuid \<Rightarrow> ('r, time option) op" where
  "revoked_before E user_id =
     bnd (redis_cmd E (rd_get (e_redis E) (revoked_sessions_key user_id))) (\<lambda>cutoff.
     ret (map_option seconds cutoff))"

lemma revoked_sessions_key_inj [simp]: "revoked_sessions_key u = revoked_sessions_key v \<longleftrightarrow> u = v"
  by (simp add: revoked_sessions_key_def)

lemma revoked_token_key_inj [simp]: "revoked_token_key a = revoked_token_key b \<longleftrightarrow> a = b"
  by (simp add: revoked_token_key_def)

lemma revoked_keys_differ [simp]:
  "revoked_token_key a \<noteq> revoked_sessions_key u" "revoked_sessions_key u \<noteq> revoked_token_key a"
  by (simp_all add: revoked_token_key_def revoked_sessions_key_def)

section \<open>The contract of a rate limiter\<close>

text \<open>
  \<open>marks w t k\<close> is the counter of the key at instant \<open>t\<close> if nobody marks it again, \<open>None\<close> when there
  is none, and \<open>clk w\<close> the instant of the next call. The window opens on the first mark, later marks
  do not extend it, and a reset drops the counter.
\<close>

definition or_zero :: "int option \<Rightarrow> int" where
  "or_zero x = (case x of None \<Rightarrow> 0 | Some n \<Rightarrow> n)"

lemma or_zero_simps [simp]: "or_zero None = 0" "or_zero (Some n) = n"
  by (simp_all add: or_zero_def)

locale rate_limiter =
  fixes mark :: "string \<Rightarrow> int \<Rightarrow> ('w, exn, int) act"
    and tally :: "string \<Rightarrow> ('w, exn, int) act"
    and forget :: "string \<Rightarrow> ('w, exn, unit) act"
    and marks :: "'w \<Rightarrow> time \<Rightarrow> string \<Rightarrow> int option"
    and clk :: "'w \<Rightarrow> time"
  assumes tally_answer: "tally k w = (Inr n, w') \<Longrightarrow> n = or_zero (marks w (clk w) k)"
    and tally_keeps: "tally k w = (x, w') \<Longrightarrow> clk w \<le> t \<Longrightarrow> marks w' t k' = marks w t k'"
    and tally_clk: "tally k w = (x, w') \<Longrightarrow> clk w \<le> clk w'"
    and mark_answer: "mark k s w = (Inr n, w') \<Longrightarrow> n = or_zero (marks w (clk w) k) + 1"
    and mark_first: "mark k s w = (Inr n, w') \<Longrightarrow> marks w (clk w) k = None \<Longrightarrow> 0 < s \<Longrightarrow>
          \<exists>t0 \<ge> clk w. t0 \<le> clk w' \<and>
            (\<forall>t \<ge> t0. marks w' t k = (if t < t0 + seconds s then Some 1 else None))"
    and mark_later: "mark k s w = (Inr n, w') \<Longrightarrow> n \<noteq> 1 \<Longrightarrow> clk w \<le> t \<Longrightarrow>
          marks w' t k = map_option (\<lambda>_. n) (marks w t k)"
    and mark_other: "mark k s w = (x, w') \<Longrightarrow> k' \<noteq> k \<Longrightarrow> clk w' \<le> t \<Longrightarrow>
          marks w' t k' = marks w t k'"
    and mark_clk: "mark k s w = (x, w') \<Longrightarrow> clk w \<le> clk w'"
    and forget_effect: "forget k w = (Inr u, w') \<Longrightarrow> clk w \<le> t \<Longrightarrow> marks w' t k = None"
    and forget_other: "forget k w = (fx, w') \<Longrightarrow> k' \<noteq> k \<Longrightarrow> clk w \<le> t \<Longrightarrow>
          marks w' t k' = marks w t k'"
begin

text \<open>A window that counts \<open>n\<close> marks until \<open>d\<close> and none from then on.\<close>

definition window_open :: "'w \<Rightarrow> string \<Rightarrow> time \<Rightarrow> int \<Rightarrow> bool" where
  "window_open w k d n \<longleftrightarrow> 0 < n \<and> (\<forall>t \<ge> clk w. marks w t k = (if t < d then Some n else None))"

lemma window_opens:
  assumes "mark k s w = (Inr n, w')" and "marks w (clk w) k = None" and "0 < s"
  shows "n = 1 \<and> (\<exists>d. clk w + seconds s \<le> d \<and> d \<le> clk w' + seconds s \<and> window_open w' k d 1)"
proof -
  obtain t0 where t0: "clk w \<le> t0" "t0 \<le> clk w'"
    and m: "\<forall>t \<ge> t0. marks w' t k = (if t < t0 + seconds s then Some 1 else None)"
    using mark_first [OF assms] by blast
  have "window_open w' k (t0 + seconds s) 1"
    using t0 m by (auto simp: window_open_def)
  moreover have "n = 1" using mark_answer [OF assms(1)] assms(2) by simp
  ultimately show ?thesis using t0 by (intro conjI exI [of _ "t0 + seconds s"]) auto
qed

lemma window_counts:
  assumes "window_open w k d n" and "clk w < d" and "mark k s w = (Inr m, w')"
  shows "m = n + 1 \<and> window_open w' k d (n + 1)"
proof -
  have "marks w (clk w) k = Some n" and n: "0 < n"
    using assms(1,2) by (auto simp: window_open_def)
  then have m: "m = n + 1" using mark_answer [OF assms(3)] by simp
  have "marks w' t k = (if t < d then Some (n + 1) else None)" if t: "clk w' \<le> t" for t
    using mark_later [OF assms(3), of t] mark_clk [OF assms(3)] assms(1) m n t
    by (auto simp: window_open_def)
  with m n show ?thesis by (simp add: window_open_def)
qed

lemma window_closes: "window_open w k d n \<Longrightarrow> d \<le> clk w \<Longrightarrow> marks w (clk w) k = None"
  by (simp add: window_open_def)

lemma window_tally:
  "window_open w k d n \<Longrightarrow> tally j w = (x, w') \<Longrightarrow> window_open w' k d n"
  using tally_keeps [of j w x w'] tally_clk [of j w x w']
  by (auto simp: window_open_def)

end

section \<open>The contract of a session store\<close>

text \<open>
  \<open>cutoff w t u\<close> is the account's cutoff, in whole seconds, as it would be read at instant \<open>t\<close>.
\<close>

locale session_store =
  fixes revoke_all :: "uuid \<Rightarrow> time \<Rightarrow> int \<Rightarrow> ('w, exn, unit) act"
    and before :: "uuid \<Rightarrow> ('w, exn, time option) act"
    and cutoff :: "'w \<Rightarrow> time \<Rightarrow> uuid \<Rightarrow> int option"
    and clk :: "'w \<Rightarrow> time"
  assumes revoke_all_effect: "revoke_all u now ttl w = (Inr (), w') \<Longrightarrow> clk w \<le> t \<Longrightarrow>
            cutoff w' t u = (if t < clk w + seconds ttl then Some (whole_seconds now) else None)"
    and revoke_all_other: "revoke_all u now ttl w = (x, w') \<Longrightarrow> u' \<noteq> u \<Longrightarrow> clk w \<le> t \<Longrightarrow>
            cutoff w' t u' = cutoff w t u'"
    and revoke_all_clk: "revoke_all u now ttl w = (x, w') \<Longrightarrow> clk w \<le> clk w'"
    and before_answer: "before u w = (Inr c, w') \<Longrightarrow> c = map_option seconds (cutoff w (clk w) u)"
    and before_keeps: "before u w = (bx, w') \<Longrightarrow> clk w \<le> t \<Longrightarrow> cutoff w' t u' = cutoff w t u'"
begin

text \<open>
  Until \<open>d\<close> the account has a cutoff of second \<open>s\<close> or later: a token issued in second \<open>s\<close> or before
  is on the wrong side of it.
\<close>

definition covered :: "'w \<Rightarrow> uuid \<Rightarrow> int \<Rightarrow> time \<Rightarrow> bool" where
  "covered w u s d \<longleftrightarrow> (\<forall>t \<ge> clk w. t < d \<longrightarrow> (\<exists>c \<ge> s. cutoff w t u = Some c))"

lemma revoke_all_covers:
  assumes "revoke_all u now ttl w = (Inr (), w')"
  shows "covered w' u (whole_seconds now) (clk w + seconds ttl)"
  using revoke_all_effect [OF assms] revoke_all_clk [OF assms] by (auto simp: covered_def)

lemma covered_read:
  assumes "covered w u s d" and "clk w < d" and "before u w = (Inr c, w')"
  shows "\<exists>i \<ge> s. c = Some (seconds i)"
  using assms before_answer [OF assms(3)] by (fastforce simp: covered_def)

end

section \<open>Both contracts hold of the implementations\<close>

abbreviation instant :: "'r env \<Rightarrow> 'r world \<Rightarrow> time" where
  "instant E w \<equiv> e_clock E (w_draws w)"

definition live_marks :: "'r env \<Rightarrow> 'r world \<Rightarrow> time \<Rightarrow> string \<Rightarrow> int option" where
  "live_marks E w t k = map_option fst (rd_live (e_redis E) (w_redis w) t k)"

definition live_cutoff :: "'r env \<Rightarrow> 'r world \<Rightarrow> time \<Rightarrow> uuid \<Rightarrow> int option" where
  "live_cutoff E w t u = map_option fst (rd_live (e_redis E) (w_redis w) t (revoked_sessions_key u))"

locale service_env = redis_server "e_redis E" for E :: "'r env" +
  assumes steady: "steady_clock E"
begin

lemma clock_mono: "m \<le> n \<Longrightarrow> e_clock E m \<le> e_clock E n"
  using steady by (simp add: steady_clock_def)

lemma live_later:
  assumes "rd_live (e_redis E) r' t0 k = rd_live (e_redis E) r t0 k" and "t0 \<le> t"
  shows "rd_live (e_redis E) r' t k = rd_live (e_redis E) r t k"
  using assms live_ages [of t0 t r' k] live_ages [of t0 t r k] by simp

lemma cmd_Inr:
  assumes "redis_cmd E f w = (Inr x, w')"
  obtains r' where "f (instant E w) (w_redis w) = (Some x, r')"
    and "w' = w\<lparr>w_redis := r', w_draws := Suc (w_draws w)\<rparr>"
  using assms by (auto simp: redis_cmd_def split: prod.splits option.splits)

lemma cmd_any:
  assumes "redis_cmd E f w = (x, w')"
  obtains a r' where "f (instant E w) (w_redis w) = (a, r')"
    and "w' = w\<lparr>w_redis := r', w_draws := Suc (w_draws w)\<rparr>"
    and "x = (case a of None \<Rightarrow> Inl RedisError | Some v \<Rightarrow> Inr v)"
  using assms by (auto simp: redis_cmd_def split: prod.splits)

text \<open>A command names one key; what the server holds under any other key stays.\<close>

definition confined :: "(time \<Rightarrow> 'r \<Rightarrow> 'a option \<times> 'r) \<Rightarrow> string \<Rightarrow> bool" where
  "confined f k \<longleftrightarrow> (\<forall>t r a r' k'. f t r = (a, r') \<longrightarrow> k' \<noteq> k \<longrightarrow>
     rd_live (e_redis E) r' t k' = rd_live (e_redis E) r t k')"

lemma confined_incr: "confined (rd_incr (e_redis E) k) k"
proof (clarsimp simp: confined_def)
  fix t r a r' k' assume f: "rd_incr (e_redis E) k t r = (a, r')" and k: "k' \<noteq> k"
  show "rd_live (e_redis E) r' t k' = rd_live (e_redis E) r t k'"
  proof (cases a)
    case None
    then show ?thesis using incr_raises [OF f [unfolded None]] k by auto
  next
    case (Some n)
    then show ?thesis using incr_effect [of k t r n r'] f k by simp
  qed
qed

lemma confined_expire: "confined (rd_expire (e_redis E) k s) k"
proof (clarsimp simp: confined_def)
  fix t r a r' k' assume f: "rd_expire (e_redis E) k s t r = (a, r')" and k: "k' \<noteq> k"
  show "rd_live (e_redis E) r' t k' = rd_live (e_redis E) r t k'"
  proof (cases a)
    case None
    then show ?thesis using expire_raises [OF f [unfolded None]] k by auto
  next
    case (Some n)
    then show ?thesis
      using expire_effect [of k s t r n r'] expire_now [of k s t r n r'] f k
      by (cases "0 < s") simp_all
  qed
qed

lemma confined_get: "confined (rd_get (e_redis E) k) k"
  using get_keeps by (simp add: confined_def)

lemma confined_exists: "confined (rd_exists (e_redis E) k) k"
  using exists_keeps by (simp add: confined_def)

lemma confined_set: "confined (rd_set_ex (e_redis E) k v s) k"
proof (clarsimp simp: confined_def)
  fix t r a r' k' assume f: "rd_set_ex (e_redis E) k v s t r = (a, r')" and k: "k' \<noteq> k"
  show "rd_live (e_redis E) r' t k' = rd_live (e_redis E) r t k'"
  proof (cases a)
    case None
    then show ?thesis using set_raises [OF f [unfolded None]] k by auto
  next
    case (Some n)
    then show ?thesis using set_effect [of k v s t r n r'] f k by simp
  qed
qed

lemma confined_delete: "confined (rd_delete (e_redis E) k) k"
proof (clarsimp simp: confined_def)
  fix t r a r' k' assume f: "rd_delete (e_redis E) k t r = (a, r')" and k: "k' \<noteq> k"
  show "rd_live (e_redis E) r' t k' = rd_live (e_redis E) r t k'"
  proof (cases a)
    case None
    then show ?thesis using delete_raises [OF f [unfolded None]] k by auto
  next
    case (Some n)
    then show ?thesis using delete_effect [of k t r n r'] f k by simp
  qed
qed

lemmas confined_commands =
  confined_incr confined_expire confined_get confined_exists confined_set confined_delete

lemma confined_later:
  assumes "confined f k" and "redis_cmd E f w = (x, w')" and "k' \<noteq> k" and "instant E w \<le> t"
  shows "rd_live (e_redis E) (w_redis w') t k' = rd_live (e_redis E) (w_redis w) t k'"
proof -
  obtain a r' where f: "f (instant E w) (w_redis w) = (a, r')"
    and w': "w' = w\<lparr>w_redis := r', w_draws := Suc (w_draws w)\<rparr>"
    using assms(2) by (rule cmd_any)
  have "rd_live (e_redis E) r' (instant E w) k' = rd_live (e_redis E) (w_redis w) (instant E w) k'"
    using assms(1,3) f unfolding confined_def by blast
  from live_later [OF this assms(4)] w' show ?thesis by simp
qed

lemma cmd_clk:
  assumes "redis_cmd E f w = (x, w')"
  shows "instant E w \<le> instant E w'"
  using assms by (rule cmd_any) (simp add: clock_mono)

lemma hit_unfold:
  assumes "hit E k s w = (x, w')"
  obtains (raised) "redis_cmd E (rd_incr (e_redis E) k) w = (x, w')" "\<exists>e. x = Inl e"
  | (later) n where "redis_cmd E (rd_incr (e_redis E) k) w = (Inr n, w')" "n \<noteq> 1" "x = Inr n"
  | (first) w1 y where "redis_cmd E (rd_incr (e_redis E) k) w = (Inr 1, w1)"
      "redis_cmd E (rd_expire (e_redis E) k s) w1 = (y, w')"
      "x = (case y of Inl e \<Rightarrow> Inl e | Inr _ \<Rightarrow> Inr 1)"
  using assms
  by (auto simp: hit_def bnd_def split: prod.splits sum.splits if_splits)

lemma hit_clk:
  assumes "hit E k s w = (x, w')"
  shows "instant E w \<le> instant E w'"
  using assms by (cases rule: hit_unfold) (auto dest!: cmd_clk intro: order_trans)

lemma incr_marks:
  assumes "redis_cmd E (rd_incr (e_redis E) k) w = (Inr n, w')"
  shows incr_counts: "n = or_zero (live_marks E w (instant E w) k) + 1"
    and incr_live: "instant E w \<le> t \<Longrightarrow> rd_live (e_redis E) (w_redis w') t k =
      aged t (Some (incremented (rd_live (e_redis E) (w_redis w) (instant E w) k)))"
proof -
  obtain r' where f: "rd_incr (e_redis E) k (instant E w) (w_redis w) = (Some n, r')"
    and w': "w' = w\<lparr>w_redis := r', w_draws := Suc (w_draws w)\<rparr>"
    using assms(1) by (rule cmd_Inr)
  show "n = or_zero (live_marks E w (instant E w) k) + 1"
    using incr_answer [OF f] by (auto simp: live_marks_def incremented_def split: option.splits)
  show "rd_live (e_redis E) (w_redis w') t k =
      aged t (Some (incremented (rd_live (e_redis E) (w_redis w) (instant E w) k)))"
    if "instant E w \<le> t"
    using incr_effect [OF f] live_ages [OF that, of r' k] w' by simp
qed

lemma hit_counts:
  assumes "hit E k s w = (Inr n, w')"
  shows "n = or_zero (live_marks E w (instant E w) k) + 1"
  using assms
proof (cases rule: hit_unfold)
  case raised
  then show ?thesis by simp
next
  case (later m)
  then show ?thesis using incr_counts [OF later(1)] by simp
next
  case (first w1 y)
  then have "n = 1" by (cases y) auto
  with first show ?thesis using incr_counts [OF first(1)] by simp
qed

lemma hit_opens:
  assumes "hit E k s w = (Inr n, w')" and "live_marks E w (instant E w) k = None" and "0 < s"
  shows "\<exists>t0 \<ge> instant E w. t0 \<le> instant E w' \<and>
    (\<forall>t \<ge> t0. live_marks E w' t k = (if t < t0 + seconds s then Some 1 else None))"
proof -
  have n: "n = 1" using hit_counts [OF assms(1)] assms(2) by simp
  with assms(1) obtain w1 b where i: "redis_cmd E (rd_incr (e_redis E) k) w = (Inr 1, w1)"
    and e: "redis_cmd E (rd_expire (e_redis E) k s) w1 = (Inr b, w')"
    by (auto elim!: hit_unfold split: sum.splits)
  obtain r' where f: "rd_expire (e_redis E) k s (instant E w1) (w_redis w1) = (Some b, r')"
    and w': "w' = w1\<lparr>w_redis := r', w_draws := Suc (w_draws w1)\<rparr>"
    using e by (rule cmd_Inr)
  let ?t0 = "instant E w1"
  have t0: "instant E w \<le> ?t0" using cmd_clk [OF i] .
  have "rd_live (e_redis E) (w_redis w1) ?t0 k = Some (1, None)"
    using incr_live [OF i t0] assms(2)
    by (simp add: live_marks_def incremented_def aged_def alive_at_def)
  then have "rd_live (e_redis E) r' ?t0 k = Some (1, Some (?t0 + seconds s))"
    using expire_effect [OF f assms(3)] by simp
  then have "live_marks E w' t k = (if t < ?t0 + seconds s then Some 1 else None)"
    if "?t0 \<le> t" for t
    using live_ages [OF that, of r' k] w' by (simp add: live_marks_def aged_def alive_at_def)
  then show ?thesis
    using t0 cmd_clk [OF e] by blast
qed

lemma hit_counts_on:
  assumes "hit E k s w = (Inr n, w')" and "n \<noteq> 1" and "instant E w \<le> t"
  shows "live_marks E w' t k = map_option (\<lambda>_. n) (live_marks E w t k)"
proof -
  have i: "redis_cmd E (rd_incr (e_redis E) k) w = (Inr n, w')"
    using assms(1,2) by (auto elim!: hit_unfold split: sum.splits)
  obtain m d where m: "rd_live (e_redis E) (w_redis w) (instant E w) k = Some (m, d)" "n = m + 1"
    using incr_counts [OF i] assms(2) by (auto simp: live_marks_def or_zero_def split: option.splits)
  then show ?thesis
    using incr_live [OF i assms(3)] live_ages [OF assms(3), of "w_redis w" k]
    by (simp add: live_marks_def incremented_def aged_def alive_at_def)
qed

lemma hit_elsewhere:
  assumes "hit E k s w = (x, w')" and "k' \<noteq> k" and "instant E w' \<le> t"
  shows "rd_live (e_redis E) (w_redis w') t k' = rd_live (e_redis E) (w_redis w) t k'"
  using assms(1)
proof (cases rule: hit_unfold)
  case raised
  with assms show ?thesis
    using confined_later [OF confined_incr raised(1) assms(2)] hit_clk [OF assms(1)] by simp
next
  case (later n)
  with assms show ?thesis
    using confined_later [OF confined_incr later(1) assms(2)] hit_clk [OF assms(1)] by simp
next
  case (first w1 y)
  have t: "instant E w1 \<le> t" "instant E w \<le> t"
    using cmd_clk [OF first(1)] cmd_clk [OF first(2)] assms(3) by linarith+
  show ?thesis
    using confined_later [OF confined_incr first(1) assms(2) t(2)]
      confined_later [OF confined_expire first(2) assms(2) t(1)] by simp
qed

lemma count_marks_run:
  assumes "count_marks E k w = (x, w')"
  shows "(\<forall>n. x = Inr n \<longrightarrow> n = or_zero (live_marks E w (instant E w) k)) \<and>
    instant E w \<le> instant E w' \<and>
    (instant E w \<le> t \<longrightarrow> rd_live (e_redis E) (w_redis w') t k' = rd_live (e_redis E) (w_redis w) t k')"
proof -
  obtain y where g: "redis_cmd E (rd_get (e_redis E) k) w = (y, w')"
    and x: "x = (case y of Inl e \<Rightarrow> Inl e | Inr m \<Rightarrow> Inr (or_zero m))"
    using assms by (auto simp: count_marks_def bnd_def or_zero_def split: prod.splits sum.splits)
  obtain a r' where f: "rd_get (e_redis E) k (instant E w) (w_redis w) = (a, r')"
    and w': "w' = w\<lparr>w_redis := r', w_draws := Suc (w_draws w)\<rparr>"
    and y: "y = (case a of None \<Rightarrow> Inl RedisError | Some v \<Rightarrow> Inr v)"
    using g by (rule cmd_any)
  have "rd_live (e_redis E) r' (instant E w) k' = rd_live (e_redis E) (w_redis w) (instant E w) k'"
    using get_keeps [OF f] by simp
  from live_later [OF this] have "instant E w \<le> t \<Longrightarrow>
      rd_live (e_redis E) (w_redis w') t k' = rd_live (e_redis E) (w_redis w) t k'"
    using w' by simp
  moreover have "n = or_zero (live_marks E w (instant E w) k)" if "x = Inr n" for n
    using that x y f get_answer by (auto simp: live_marks_def split: option.splits)
  ultimately show ?thesis
    using cmd_clk [OF g] by blast
qed

lemma reset_marks_run:
  assumes "reset_marks E k w = (x, w')" and "instant E w \<le> t"
  shows "(\<forall>u. x = Inr u \<longrightarrow> rd_live (e_redis E) (w_redis w') t k = None) \<and>
    (k' \<noteq> k \<longrightarrow> rd_live (e_redis E) (w_redis w') t k' = rd_live (e_redis E) (w_redis w) t k')"
proof -
  obtain y where g: "redis_cmd E (rd_delete (e_redis E) k) w = (y, w')"
    and x: "x = (case y of Inl e \<Rightarrow> Inl e | Inr _ \<Rightarrow> Inr ())"
    using assms by (auto simp: reset_marks_def bnd_def split: prod.splits sum.splits)
  obtain a r' where f: "rd_delete (e_redis E) k (instant E w) (w_redis w) = (a, r')"
    and w': "w' = w\<lparr>w_redis := r', w_draws := Suc (w_draws w)\<rparr>"
    and y: "y = (case a of None \<Rightarrow> Inl RedisError | Some v \<Rightarrow> Inr v)"
    using g by (rule cmd_any)
  have "rd_live (e_redis E) (w_redis w') t k = None" if "x = Inr u" for u
    using that x y f w' delete_effect [of k "instant E w" "w_redis w"] live_ages [OF assms(2), of r' k]
    by (auto split: option.splits)
  then show ?thesis
    using confined_later [OF confined_delete g _ assms(2)] by blast
qed

sublocale limiter: rate_limiter "hit E" "count_marks E" "reset_marks E" "live_marks E" "instant E"
proof (unfold_locales, goal_cases)
  case (1 k w n w') then show ?case using count_marks_run by blast
next
  case (2 k w x w' t k') then show ?case using count_marks_run by (simp add: live_marks_def)
next
  case (3 k w x w') then show ?case using count_marks_run by blast
next
  case (4 k s w n w') then show ?case by (rule hit_counts)
next
  case (5 k s w n w') then show ?case by (rule hit_opens)
next
  case (6 k s w n w' t) then show ?case by (rule hit_counts_on)
next
  case (7 k s w x w' k' t) then show ?case using hit_elsewhere by (simp add: live_marks_def)
next
  case (8 k s w x w') then show ?case by (rule hit_clk)
next
  case (9 k w u w' t) then show ?case using reset_marks_run by (simp add: live_marks_def)
next
  case (10 k w fx w' k' t) then show ?case using reset_marks_run by (simp add: live_marks_def)
qed

lemma revoke_sessions_run:
  assumes "revoke_sessions E u now ttl w = (x, w')"
  shows "instant E w \<le> instant E w'"
    and "u' \<noteq> u \<Longrightarrow> instant E w \<le> t \<Longrightarrow> live_cutoff E w' t u' = live_cutoff E w t u'"
    and "instant E w \<le> t \<Longrightarrow>
      x = Inl RedisError \<and> live_cutoff E w' t u = live_cutoff E w t u \<or>
      live_cutoff E w' t u = (if t < instant E w + seconds ttl then Some (whole_seconds now) else None)"
    and "x = Inr () \<Longrightarrow> instant E w \<le> t \<Longrightarrow>
      live_cutoff E w' t u = (if t < instant E w + seconds ttl then Some (whole_seconds now) else None)"
proof -
  let ?k = "revoked_sessions_key u"
  have c: "redis_cmd E (rd_set_ex (e_redis E) ?k (whole_seconds now) ttl) w = (x, w')"
    using assms by (simp add: revoke_sessions_def)
  show "instant E w \<le> instant E w'" using c by (rule cmd_clk)
  show "live_cutoff E w' t u' = live_cutoff E w t u'" if "u' \<noteq> u" "instant E w \<le> t"
    using confined_later [OF confined_set c _ that(2), of "revoked_sessions_key u'"] that
    by (simp add: live_cutoff_def)
  obtain a r' where f: "rd_set_ex (e_redis E) ?k (whole_seconds now) ttl (instant E w) (w_redis w) = (a, r')"
    and w': "w' = w\<lparr>w_redis := r', w_draws := Suc (w_draws w)\<rparr>"
    and x: "x = (case a of None \<Rightarrow> Inl RedisError | Some v \<Rightarrow> Inr v)"
    using c by (rule cmd_any)
  have set: "live_cutoff E w' t u = (if t < instant E w + seconds ttl then Some (whole_seconds now) else None)"
    if "rd_live (e_redis E) r' (instant E w) = (rd_live (e_redis E) (w_redis w) (instant E w))
          (?k \<mapsto> (whole_seconds now, Some (instant E w + seconds ttl)))" "instant E w \<le> t" for t
    using live_ages [OF that(2), of r' ?k] that w'
    by (simp add: live_cutoff_def aged_def alive_at_def)
  show "live_cutoff E w' t u = (if t < instant E w + seconds ttl then Some (whole_seconds now) else None)"
    if "x = Inr ()" "instant E w \<le> t"
    using that x f set set_effect [of ?k "whole_seconds now" ttl "instant E w" "w_redis w"]
    by (auto split: option.splits)
  show "x = Inl RedisError \<and> live_cutoff E w' t u = live_cutoff E w t u \<or>
      live_cutoff E w' t u = (if t < instant E w + seconds ttl then Some (whole_seconds now) else None)"
    if t: "instant E w \<le> t"
  proof (cases a)
    case None
    from set_raises [OF f [unfolded None]] show ?thesis
    proof
      assume "rd_live (e_redis E) r' (instant E w) = rd_live (e_redis E) (w_redis w) (instant E w)"
      then have "live_cutoff E w' t u = live_cutoff E w t u"
        using live_later [OF _ t, of r' ?k "w_redis w"] w' by (simp add: live_cutoff_def)
      then show ?thesis using None x by simp
    next
      assume "0 < ttl \<and> rd_live (e_redis E) r' (instant E w) = (rd_live (e_redis E) (w_redis w) (instant E w))
          (?k \<mapsto> (whole_seconds now, Some (instant E w + seconds ttl)))"
      then show ?thesis using set t by blast
    qed
  next
    case (Some v)
    then show ?thesis
      using f set t set_effect [of ?k "whole_seconds now" ttl "instant E w" "w_redis w"] by auto
  qed
qed

lemma revoked_before_run:
  assumes "revoked_before E u w = (x, w')"
  shows "(\<forall>c. x = Inr c \<longrightarrow> c = map_option seconds (live_cutoff E w (instant E w) u))"
    and "instant E w \<le> t \<Longrightarrow> rd_live (e_redis E) (w_redis w') t k = rd_live (e_redis E) (w_redis w) t k"
proof -
  let ?k = "revoked_sessions_key u"
  obtain y where g: "redis_cmd E (rd_get (e_redis E) ?k) w = (y, w')"
    and x: "x = (case y of Inl e \<Rightarrow> Inl e | Inr m \<Rightarrow> Inr (map_option seconds m))"
    using assms by (auto simp: revoked_before_def bnd_def split: prod.splits sum.splits)
  obtain a r' where f: "rd_get (e_redis E) ?k (instant E w) (w_redis w) = (a, r')"
    and w': "w' = w\<lparr>w_redis := r', w_draws := Suc (w_draws w)\<rparr>"
    and y: "y = (case a of None \<Rightarrow> Inl RedisError | Some v \<Rightarrow> Inr v)"
    using g by (rule cmd_any)
  show "\<forall>c. x = Inr c \<longrightarrow> c = map_option seconds (live_cutoff E w (instant E w) u)"
    using x y f get_answer by (auto simp: live_cutoff_def split: option.splits)
  show "rd_live (e_redis E) (w_redis w') t k = rd_live (e_redis E) (w_redis w) t k" if "instant E w \<le> t"
    using live_later [OF _ that, of r' k "w_redis w"] get_keeps [OF f] w' by simp
qed

sublocale store: session_store "revoke_sessions E" "revoked_before E" "live_cutoff E" "instant E"
proof (unfold_locales, goal_cases)
  case (1 u now ttl w w' t) then show ?case using revoke_sessions_run(4) by blast
next
  case (2 u now ttl w x w' u' t) then show ?case using revoke_sessions_run(2) by blast
next
  case (3 u now ttl w x w') then show ?case using revoke_sessions_run(1) by blast
next
  case (4 u w c w') then show ?case using revoked_before_run(1) by blast
next
  case (5 u w bx w' t u') then show ?case using revoked_before_run(2) by (simp add: live_cutoff_def)
qed

end

end
