(* ===== verification/Sign_Out.thy ===== *)
theory Sign_Out
  imports Redis_Stores
begin

text \<open>
  What stays true after the sessions of an account were revoked: until the tokens issued up to that
  second have expired, the cutoff is there to refuse them. The rules below carry this through any
  operation the services are made of, so that each service method keeps it by a structural proof.
\<close>

section \<open>The condition\<close>

text \<open>
  Up to instant \<open>D\<close> the account \<open>u\<close> has a cutoff of second \<open>s\<close> or later. \<open>ttl\<close> is the life of a
  cutoff, in seconds: one written from now on lasts at least until \<open>D\<close>, and is not before \<open>s\<close>.
\<close>

definition signed_out :: "'r env \<Rightarrow> int \<Rightarrow> uuid \<Rightarrow> int \<Rightarrow> time \<Rightarrow> 'r world \<Rightarrow> bool" where
  "signed_out E ttl u s D w \<longleftrightarrow>
     s \<le> whole_seconds (instant E w) \<and> D \<le> instant E w + seconds ttl \<and>
     (\<forall>t \<ge> instant E w. t < D \<longrightarrow> (\<exists>c \<ge> s. live_cutoff E w t u = Some c))"

lemma signed_out_db [simp]:
  "signed_out E ttl u s D (w\<lparr>w_db := d\<rparr>) = signed_out E ttl u s D w"
  "signed_out E ttl u s D (w\<lparr>w_tx_now := t\<rparr>) = signed_out E ttl u s D w"
  by (simp_all add: signed_out_def live_cutoff_def)

context service_env
begin

lemma signed_out_later:
  assumes "signed_out E ttl u s D w" and "instant E w \<le> instant E w'"
    and "\<And>t. instant E w' \<le> t \<Longrightarrow> live_cutoff E w' t u = live_cutoff E w t u"
  shows "signed_out E ttl u s D w'"
proof -
  have "s \<le> whole_seconds (instant E w')"
    using assms(1) whole_seconds_mono [OF assms(2)] by (simp add: signed_out_def)
  with assms show ?thesis by (simp add: signed_out_def)
qed

lemma so_draw: "preserves (signed_out E ttl u s D) (draw f)"
  unfolding preserves_def
proof (intro allI impI)
  fix w assume "signed_out E ttl u s D w"
  then have "signed_out E ttl u s D (w\<lparr>w_draws := Suc (w_draws w)\<rparr>)"
    by (rule signed_out_later) (simp_all add: clock_mono live_cutoff_def)
  then show "signed_out E ttl u s D (after (draw f w))" by simp
qed

lemma so_now:
  assumes "\<And>now. s \<le> whole_seconds now \<Longrightarrow> preserves (signed_out E ttl u s D) (f now)"
  shows "preserves (signed_out E ttl u s D) (bnd (now_utc E) f)"
  unfolding preserves_def
proof (intro allI impI)
  fix w assume w: "signed_out E ttl u s D w"
  let ?w = "w\<lparr>w_draws := Suc (w_draws w)\<rparr>"
  have "signed_out E ttl u s D ?w"
    using preservesD [OF so_draw w, of "\<lambda>_. ()"] by simp
  moreover have "s \<le> whole_seconds (instant E w)"
    using w by (simp add: signed_out_def)
  ultimately show "signed_out E ttl u s D (after (bnd (now_utc E) f w))"
    using preservesD [OF assms, of "instant E w" ?w] by (simp add: bnd_apply)
qed

lemma so_cmd:
  assumes "confined f k" and "k \<noteq> revoked_sessions_key u"
  shows "preserves (signed_out E ttl u s D) (redis_cmd E f)"
  unfolding preserves_def
proof (intro allI impI)
  fix w assume w: "signed_out E ttl u s D w"
  obtain x w' where c: "redis_cmd E f w = (x, w')" by fastforce
  have "signed_out E ttl u s D w'"
  proof (rule signed_out_later [OF w cmd_clk [OF c]])
    fix t assume "instant E w' \<le> t"
    then show "live_cutoff E w' t u = live_cutoff E w t u"
      using confined_later [OF assms(1) c, of "revoked_sessions_key u" t] assms(2) cmd_clk [OF c]
      by (simp add: live_cutoff_def)
  qed
  with c show "signed_out E ttl u s D (after (redis_cmd E f w))" by simp
qed

lemma so_revoke:
  assumes "s \<le> whole_seconds now"
  shows "preserves (signed_out E ttl u s D) (revoke_sessions E v now ttl)"
  unfolding preserves_def
proof (intro allI impI)
  fix w assume w: "signed_out E ttl u s D w"
  obtain x w' where c: "revoke_sessions E v now ttl w = (x, w')" by fastforce
  have ge: "instant E w \<le> instant E w'" by (rule revoke_sessions_run(1) [OF c])
  have cover: "\<exists>i \<ge> s. live_cutoff E w' t u = Some i" if t: "instant E w' \<le> t" "t < D" for t
  proof (cases "v = u")
    case True
    have "t < instant E w + seconds ttl" using w t by (simp add: signed_out_def)
    with revoke_sessions_run(3) [OF c, of t] assms w t ge True show ?thesis
      by (auto simp: signed_out_def)
  next
    case False
    with revoke_sessions_run(2) [OF c, of u t] w t ge show ?thesis
      by (simp add: signed_out_def)
  qed
  have "s \<le> whole_seconds (instant E w')"
    using w whole_seconds_mono [OF ge] by (simp add: signed_out_def)
  then have "signed_out E ttl u s D w'"
    using w ge cover by (auto simp: signed_out_def)
  with c show "signed_out E ttl u s D (after (revoke_sessions E v now ttl w))" by simp
qed

text \<open>A revocation establishes it, for every token of the account that lives \<open>ttl\<close> seconds.\<close>

lemma so_established:
  assumes "revoke_sessions E u now ttl w = (Inr (), w')"
    and "whole_seconds now \<le> whole_seconds (instant E w)"
  shows "signed_out E ttl u (whole_seconds now) (instant E w + seconds ttl) w'"
proof -
  have ge: "instant E w \<le> instant E w'" by (rule revoke_sessions_run(1) [OF assms(1)])
  have "whole_seconds now \<le> whole_seconds (instant E w')"
    using assms(2) whole_seconds_mono [OF ge] by simp
  then show ?thesis
    using ge revoke_sessions_run(4) [OF assms(1) refl] by (auto simp: signed_out_def)
qed

lemma so_modify_db: "preserves (signed_out E ttl u s D) (modify_db c)"
  by (simp add: preserves_def)

lemma so_uuid4: "preserves (signed_out E ttl u s D) (uuid4 E)"
  unfolding uuid4_def by (rule so_draw)

lemma so_token_urlsafe: "preserves (signed_out E ttl u s D) (token_urlsafe E n)"
  unfolding token_urlsafe_def by (rule so_draw)

lemma so_now_utc: "preserves (signed_out E ttl u s D) (now_utc E)"
  unfolding now_utc_def by (rule so_draw)

lemma so_scope:
  assumes "preserves (signed_out E ttl u s D) m"
  shows "preserves (signed_out E ttl u s D) (session_scope E m)"
  unfolding preserves_def
proof (intro allI impI)
  fix w assume w: "signed_out E ttl u s D w"
  let ?w = "w\<lparr>w_tx_now := instant E w, w_draws := Suc (w_draws w)\<rparr>"
  have "signed_out E ttl u s D (w\<lparr>w_draws := Suc (w_draws w)\<rparr>)"
    using preservesD [OF so_draw w, of "\<lambda>_. ()"] by simp
  moreover have "?w = (w\<lparr>w_draws := Suc (w_draws w)\<rparr>)\<lparr>w_tx_now := instant E w\<rparr>" by simp
  ultimately have "signed_out E ttl u s D ?w" by (metis signed_out_db(2))
  from preservesD [OF assms this] show "signed_out E ttl u s D (after (session_scope E m w))"
    by (auto simp: session_scope_def Let_def split: prod.splits sum.splits)
qed

lemma so_hit: "k \<noteq> revoked_sessions_key u \<Longrightarrow> preserves (signed_out E ttl u s D) (hit E k n)"
  unfolding hit_def by (intro preserves_intro so_cmd [OF confined_incr] so_cmd [OF confined_expire])

lemma so_count: "k \<noteq> revoked_sessions_key u \<Longrightarrow> preserves (signed_out E ttl u s D) (count_marks E k)"
  unfolding count_marks_def by (intro preserves_intro so_cmd [OF confined_get])

lemma so_reset: "k \<noteq> revoked_sessions_key u \<Longrightarrow> preserves (signed_out E ttl u s D) (reset_marks E k)"
  unfolding reset_marks_def by (intro preserves_intro so_cmd [OF confined_delete])

lemma so_revoke_token: "preserves (signed_out E ttl u s D) (revoke_token E jti exp now)"
  unfolding revoke_token_def Let_def by (rule so_cmd [OF confined_set]) simp

lemma so_is_token_revoked: "preserves (signed_out E ttl u s D) (is_token_revoked E jti)"
  unfolding is_token_revoked_def by (intro preserves_intro so_cmd [OF confined_exists]) simp

lemma so_revoked_before: "preserves (signed_out E ttl u s D) (revoked_before E v)"
  unfolding preserves_def
proof (intro allI impI)
  fix w assume w: "signed_out E ttl u s D w"
  obtain x w' where c: "revoked_before E v w = (x, w')" by fastforce
  then obtain y where g: "redis_cmd E (rd_get (e_redis E) (revoked_sessions_key v)) w = (y, w')"
    by (auto simp: revoked_before_def bnd_def split: prod.splits sum.splits)
  have "signed_out E ttl u s D w'"
    using revoked_before_run(2) [OF c] cmd_clk [OF g]
    by (intro signed_out_later [OF w cmd_clk [OF g]]) (simp add: live_cutoff_def)
  with c show "signed_out E ttl u s D (after (revoked_before E v w))" by simp
qed

text \<open>Every rule, the ones for a reading of the clock before the general one for a sequence.\<close>

lemmas so_rules =
  so_now so_revoke so_scope so_modify_db so_draw so_uuid4 so_token_urlsafe so_now_utc
  so_hit so_count so_reset so_revoke_token so_is_token_revoked so_revoked_before preserves_intro

end

end
