(* ===== verification/Security.thy ===== *)
theory Security
  imports Sign_Out
begin

text \<open>
  Passwords, emailed and refresh tokens, and access tokens: \<open>app/security.py\<close>. The primitives
  (argon2, SHA-256, PyJWT, \<open>secrets\<close>) are parameters of the environment.
\<close>

section \<open>Passwords\<close>

text \<open>\<open>_DUMMY_HASH\<close> is computed when the module is loaded, before anything else is drawn.\<close>

definition DUMMY_HASH :: "'r env \<Rightarrow> string" where
  "DUMMY_HASH E = e_argon2_hash E 0 ''not-a-real-password''"

definition hash_password :: "'r env \<Rightarrow> string \<Rightarrow> ('r, string) op" where
  "hash_password E password = draw (\<lambda>n. e_argon2_hash E n password)"

text \<open>\<open>password_hash or _DUMMY_HASH\<close>: an empty hash is replaced too, \<open>None\<close> never verifies.\<close>

definition verify_password :: "'r env \<Rightarrow> string \<Rightarrow> string option \<Rightarrow> bool" where
  "verify_password E password password_hash =
     (let checked = (case password_hash of
                       None \<Rightarrow> DUMMY_HASH E
                     | Some h \<Rightarrow> if h = [] then DUMMY_HASH E else h)
      in if e_argon2_verify E checked password then password_hash \<noteq> None else False)"

section \<open>Opaque tokens\<close>

definition hash_token :: "'r env \<Rightarrow> string \<Rightarrow> string" where
  "hash_token E raw_token = e_sha256 E raw_token"

definition generate_emailed_token :: "'r env \<Rightarrow> ('r, string) op" where
  "generate_emailed_token E = token_urlsafe E 32"

definition generate_refresh_token :: "'r env \<Rightarrow> ('r, string) op" where
  "generate_refresh_token E = token_urlsafe E 32"

definition generate_temporary_password :: "'r env \<Rightarrow> ('r, string) op" where
  "generate_temporary_password E = token_urlsafe E 12"

section \<open>Access tokens\<close>

definition issue_access_token ::
  "'r env \<Rightarrow> uuid \<Rightarrow> string \<Rightarrow> string \<Rightarrow> string \<Rightarrow> int \<Rightarrow> string \<Rightarrow> time option \<Rightarrow> ('r, string) op" where
  "issue_access_token E subject role handle profile_visibility expires_in_minutes issuer now =
     bnd (case now of None \<Rightarrow> now_utc E | Some t \<Rightarrow> ret t) (\<lambda>issued_at.
     bnd (uuid4 E) (\<lambda>jti.
     ret (e_jwt_encode E
       \<lparr> pl_iss = issuer, pl_sub = uuid_str subject, pl_role = role, pl_handle = handle,
         pl_profile_visibility = profile_visibility, pl_jti = uuid_str jti,
         pl_iat = issued_at, pl_exp = issued_at + minutes expires_in_minutes \<rparr>)))"

text \<open>PyJWT reads the clock itself to judge \<open>exp\<close> and \<open>iat\<close>; its exceptions are values here.\<close>

definition decode_access_token :: "'r env \<Rightarrow> string \<Rightarrow> string \<Rightarrow> ('r, jwt_error + claims) op" where
  "decode_access_token E token issuer = bnd (now_utc E) (\<lambda>t. ret (e_jwt_decode E token issuer t))"

section \<open>Facts\<close>

lemma verify_password_None [simp]: "\<not> verify_password E p None"
  by (simp add: verify_password_def Let_def)

lemma verify_hashed:
  assumes "argon2_correct E"
  shows "verify_password E q (Some (e_argon2_hash E n p)) \<longleftrightarrow> q = p"
proof -
  have "e_argon2_hash E n p \<noteq> []" and "e_argon2_verify E (e_argon2_hash E n p) q \<longleftrightarrow> q = p"
    using assms unfolding argon2_correct_def by blast+
  then show ?thesis by (simp add: verify_password_def)
qed

lemma bnd_decode [op_simps]:
  "bnd (decode_access_token E tok iss) f w =
     f (e_jwt_decode E tok iss (instant E w)) (w\<lparr>w_draws := Suc (w_draws w)\<rparr>)"
  by (simp add: decode_access_token_def bnd_assoc bnd_apply)

lemma wp_security [wp_simps]:
  "wp (hash_password E p) Q Z w = Q (e_argon2_hash E (w_draws w) p) (w\<lparr>w_draws := Suc (w_draws w)\<rparr>)"
  "wp (generate_emailed_token E) Q Z w = wp (token_urlsafe E 32) Q Z w"
  "wp (generate_refresh_token E) Q Z w = wp (token_urlsafe E 32) Q Z w"
  "wp (generate_temporary_password E) Q Z w = wp (token_urlsafe E 12) Q Z w"
  "wp (decode_access_token E tok iss) Q1 Z w =
     Q1 (e_jwt_decode E tok iss (instant E w)) (w\<lparr>w_draws := Suc (w_draws w)\<rparr>)"
  by (simp_all add: hash_password_def generate_emailed_token_def generate_refresh_token_def
      generate_temporary_password_def decode_access_token_def wp_simps)

lemma wp_issue [wp_simps]:
  "wp (issue_access_token E sub role h vis m iss now) Q Z w =
     wp (bnd (case now of None \<Rightarrow> now_utc E | Some t \<Rightarrow> ret t) (\<lambda>issued_at.
         bnd (uuid4 E) (\<lambda>jti.
         ret (e_jwt_encode E
           \<lparr> pl_iss = iss, pl_sub = uuid_str sub, pl_role = role, pl_handle = h,
             pl_profile_visibility = vis, pl_jti = uuid_str jti,
             pl_iat = issued_at, pl_exp = issued_at + minutes m \<rparr>)))) Q Z w"
  by (simp add: issue_access_token_def)

context service_env
begin

lemma so_security:
  "preserves (signed_out E ttl u s D) (hash_password E p)"
  "preserves (signed_out E ttl u s D) (generate_emailed_token E)"
  "preserves (signed_out E ttl u s D) (generate_refresh_token E)"
  "preserves (signed_out E ttl u s D) (generate_temporary_password E)"
  "preserves (signed_out E ttl u s D) (issue_access_token E sub role h vis m iss now)"
  "preserves (signed_out E ttl u s D) (decode_access_token E tok iss)"
  unfolding hash_password_def generate_emailed_token_def generate_refresh_token_def
    generate_temporary_password_def issue_access_token_def decode_access_token_def
  by (rule so_rules | assumption)+

end

end
