(* ===== verification/Events.thy ===== *)
theory Events
  imports Security
begin

text \<open>
  The envelopes this service publishes: \<open>app/events.py\<close>. The only thing a constructor draws is the
  event's id. \<open>isoformat(timespec="milliseconds")\<close> drops the microseconds below the millisecond.
\<close>

section \<open>Types\<close>

definition SOURCE :: string where "SOURCE = ''users-api''"
definition SPEC_VERSION :: string where "SPEC_VERSION = ''1.0''"
definition USER_REGISTERED :: string where "USER_REGISTERED = ''user.registered.v1''"
definition EMAIL_VERIFICATION_REQUESTED :: string where
  "EMAIL_VERIFICATION_REQUESTED = ''email_verification.requested.v1''"
definition PASSWORD_RESET_REQUESTED :: string where
  "PASSWORD_RESET_REQUESTED = ''password.reset_requested.v1''"
definition PASSWORD_CHANGED :: string where "PASSWORD_CHANGED = ''password.changed.v1''"
definition USER_DELETED :: string where "USER_DELETED = ''user.deleted.v1''"
definition PREFERENCES_CHANGED :: string where "PREFERENCES_CHANGED = ''preferences.changed.v1''"
definition FEEDBACK_SUBMITTED :: string where "FEEDBACK_SUBMITTED = ''feedback.submitted.v1''"

section \<open>Constructors\<close>

definition build_event :: "'r env \<Rightarrow> string \<Rightarrow> (string \<times> string) list \<Rightarrow> time \<Rightarrow> ('r, event) op" where
  "build_event E event_type data now =
     bnd (uuid4 E) (\<lambda>i.
     ret \<lparr> ev_specversion = SPEC_VERSION, ev_id = uuid_str i, ev_source = SOURCE,
           ev_type = event_type, ev_time = now div 1000, ev_data = data \<rparr>)"

definition user_registered :: "'r env \<Rightarrow> user \<Rightarrow> string \<Rightarrow> time \<Rightarrow> ('r, event) op" where
  "user_registered E user verification_url now =
     build_event E USER_REGISTERED
       [(''user_id'', uuid_str (u_id user)), (''email'', u_email user), (''handle'', u_handle user),
        (''verification_url'', verification_url)] now"

definition email_verification_requested :: "'r env \<Rightarrow> user \<Rightarrow> string \<Rightarrow> time \<Rightarrow> ('r, event) op" where
  "email_verification_requested E user verification_url now =
     build_event E EMAIL_VERIFICATION_REQUESTED
       [(''user_id'', uuid_str (u_id user)), (''email'', u_email user),
        (''verification_url'', verification_url)] now"

definition password_reset_requested :: "'r env \<Rightarrow> user \<Rightarrow> string \<Rightarrow> time \<Rightarrow> ('r, event) op" where
  "password_reset_requested E user token now =
     build_event E PASSWORD_RESET_REQUESTED
       [(''user_id'', uuid_str (u_id user)), (''email'', u_email user), (''token'', token)] now"

definition password_changed :: "'r env \<Rightarrow> user \<Rightarrow> time \<Rightarrow> ('r, event) op" where
  "password_changed E user now =
     build_event E PASSWORD_CHANGED
       [(''user_id'', uuid_str (u_id user)), (''email'', u_email user)] now"

definition user_deleted :: "'r env \<Rightarrow> user \<Rightarrow> time \<Rightarrow> ('r, event) op" where
  "user_deleted E user now = build_event E USER_DELETED [(''user_id'', uuid_str (u_id user))] now"

definition preferences_changed :: "'r env \<Rightarrow> user \<Rightarrow> time \<Rightarrow> ('r, event) op" where
  "preferences_changed E user now =
     build_event E PREFERENCES_CHANGED
       [(''user_id'', uuid_str (u_id user)), (''feed_language'', language_value (u_feed_language user))]
       now"

definition feedback_submitted :: "'r env \<Rightarrow> feedback \<Rightarrow> ('r, event) op" where
  "feedback_submitted E f =
     build_event E FEEDBACK_SUBMITTED
       [(''feedback_id'', uuid_str (fb_id f)), (''user_id'', uuid_str (fb_user_id f)),
        (''handle'', fb_handle f), (''message'', fb_message f), (''device_os'', fb_device_os f),
        (''app_version'', fb_app_version f)] (fb_created_at f)"

text \<open>\<open>Event.id\<close>: the id read back from the envelope.\<close>

definition event_id :: "event \<Rightarrow> uuid option" where
  "event_id ev = uuid_parse (ev_id ev)"

section \<open>Facts\<close>

lemmas event_constructors =
  user_registered_def email_verification_requested_def password_reset_requested_def
  password_changed_def user_deleted_def preferences_changed_def feedback_submitted_def

lemma build_event_apply [simp]:
  "build_event E ty data now w =
     (Inr \<lparr> ev_specversion = SPEC_VERSION, ev_id = uuid_str (e_uuid4 E (w_draws w)), ev_source = SOURCE,
            ev_type = ty, ev_time = now div 1000, ev_data = data \<rparr>,
      w\<lparr>w_draws := Suc (w_draws w)\<rparr>)"
  by (simp add: build_event_def bnd_apply)

lemma wp_build_event [wp_simps]:
  "wp (build_event E ty data now) Q Z w =
     Q \<lparr> ev_specversion = SPEC_VERSION, ev_id = uuid_str (e_uuid4 E (w_draws w)), ev_source = SOURCE,
         ev_type = ty, ev_time = now div 1000, ev_data = data \<rparr>
       (w\<lparr>w_draws := Suc (w_draws w)\<rparr>)"
  by (simp add: wp_def)

context service_env
begin

lemma so_build_event: "preserves (signed_out E ttl u s D) (build_event E ty data now)"
  unfolding build_event_def by (rule so_rules | assumption)+

lemma so_events:
  "preserves (signed_out E ttl u s D) (user_registered E a url now)"
  "preserves (signed_out E ttl u s D) (email_verification_requested E a url now)"
  "preserves (signed_out E ttl u s D) (password_reset_requested E a tok now)"
  "preserves (signed_out E ttl u s D) (password_changed E a now)"
  "preserves (signed_out E ttl u s D) (user_deleted E a now)"
  "preserves (signed_out E ttl u s D) (preferences_changed E a now)"
  "preserves (signed_out E ttl u s D) (feedback_submitted E f)"
  unfolding event_constructors by (rule so_build_event)+

end

end
