(* ===== verification/Repositories.thy ===== *)
theory Repositories
  imports Events "HOL-Library.Product_Lexorder"
begin

text \<open>
  The repositories on PostgreSQL: \<open>infrastructure/database/*_repository.py\<close>, one definition per
  method, as operations on the tables. A statement that SQLAlchemy only queues (\<open>session.add\<close>,
  assigning to a row) is applied when it is issued: the session flushes it before the next query and
  at the latest at the commit, where the constraints are checked again.

  The interface the services rely on for accounts (\<open>UserRepository\<close>) and the one for refresh tokens
  (\<open>RefreshTokenRepository\<close>) are locales, interpreted on the definitions.
\<close>

section \<open>Accounts\<close>

definition to_domain :: "user_model \<Rightarrow> user option" where
  "to_domain row =
     (case Role (um_role row) of None \<Rightarrow> None | Some role \<Rightarrow>
      case AccountStatus (um_status row) of None \<Rightarrow> None | Some status \<Rightarrow>
      case ProfileVisibility (um_profile_visibility row) of None \<Rightarrow> None | Some visibility \<Rightarrow>
      case FeedLanguage (um_feed_language row) of None \<Rightarrow> None | Some language \<Rightarrow>
      Some \<lparr> u_email = um_email row, u_handle = um_handle row,
             u_password_hash = um_password_hash row, u_role = role,
             u_must_change_password = um_must_change_password row,
             u_temporary_password_expires_at = um_temporary_password_expires_at row,
             u_is_email_verified = um_is_email_verified row, u_status = status,
             u_status_reason = um_status_reason row, u_status_changed_at = um_status_changed_at row,
             u_deleted_at = um_deleted_at row, u_terms_accepted = um_terms_accepted row,
             u_terms_accepted_at = um_terms_accepted_at row, u_display_name = um_display_name row,
             u_bio = um_bio row, u_profile_visibility = visibility, u_feed_language = language,
             u_id = um_id row, u_created_at = um_created_at row \<rparr>)"

definition UserModel :: "account \<Rightarrow> uuid \<Rightarrow> time \<Rightarrow> user_model" where
  "UserModel user i created_at =
     \<lparr> um_id = i, um_email = u_email user, um_handle = u_handle user,
       um_password_hash = u_password_hash user,
       um_must_change_password = u_must_change_password user,
       um_temporary_password_expires_at = u_temporary_password_expires_at user,
       um_role = role_value (u_role user), um_is_email_verified = u_is_email_verified user,
       um_status = status_value (u_status user), um_status_reason = u_status_reason user,
       um_status_changed_at = u_status_changed_at user, um_deleted_at = u_deleted_at user,
       um_terms_accepted = u_terms_accepted user, um_terms_accepted_at = u_terms_accepted_at user,
       um_display_name = u_display_name user, um_bio = u_bio user,
       um_profile_visibility = visibility_value (u_profile_visibility user),
       um_feed_language = language_value (u_feed_language user), um_created_at = created_at \<rparr>"

definition loaded :: "user_model option \<Rightarrow> ('r, user option) op" where
  "loaded row = (case row of None \<Rightarrow> ret None
     | Some r \<Rightarrow> (case to_domain r of None \<Rightarrow> raise ValueError | Some u \<Rightarrow> ret (Some u)))"

definition users_add :: "'r env \<Rightarrow> account \<Rightarrow> ('r, user) op" where
  "users_add E user =
     bnd (uuid4 E) (\<lambda>i.
     bnd server_now (\<lambda>created_at.
     let row = UserModel user i created_at in
     bnd (query users) (\<lambda>us.
     if \<not> users_widths row then raise DataError
     else if i \<in> set (map um_id us) \<or> um_email row \<in> set (map um_email us)
             \<or> um_handle row \<in> set (map um_handle us) then raise IntegrityError
     else
       bnd (modify_db (\<lambda>d. d\<lparr>users := users d @ [row]\<rparr>)) (\<lambda>_.
       case to_domain row of None \<Rightarrow> raise ValueError | Some u \<Rightarrow> ret u))))"

definition row_by_id :: "uuid \<Rightarrow> db \<Rightarrow> user_model option" where
  "row_by_id i d = List.find (\<lambda>r. um_id r = i) (users d)"

definition users_get :: "uuid \<Rightarrow> ('r, user option) op" where
  "users_get user_id = bnd (query (row_by_id user_id)) loaded"

definition users_find_by_identifier :: "string \<Rightarrow> ('r, user option) op" where
  "users_find_by_identifier identifier =
     bnd (query (\<lambda>d. List.find (\<lambda>r. um_email r = identifier \<or> um_handle r = identifier) (users d)))
       loaded"

definition users_find_by_email :: "string \<Rightarrow> ('r, user option) op" where
  "users_find_by_email email =
     bnd (query (\<lambda>d. List.find (\<lambda>r. um_email r = email) (users d))) loaded"

fun loaded_all :: "user_model list \<Rightarrow> ('r, user list) op" where
  "loaded_all [] = ret []"
| "loaded_all (r # rs) =
     (case to_domain r of None \<Rightarrow> raise ValueError
      | Some u \<Rightarrow> bnd (loaded_all rs) (\<lambda>us. ret (u # us)))"

definition users_list_administrators :: "('r, user list) op" where
  "users_list_administrators =
     bnd (query (\<lambda>d. sort_key um_created_at
            (filter (\<lambda>r. um_role r \<noteq> role_value USER \<and> um_deleted_at r = None) (users d))))
       loaded_all"

definition users_count :: "account_status \<Rightarrow> ('r, nat) op" where
  "users_count status =
     query (\<lambda>d. length (filter (\<lambda>r. um_role r = role_value USER \<and> um_status r = status_value status \<and>
              um_is_email_verified r \<and> um_deleted_at r = None) (users d)))"

definition users_exists_with_email_or_handle :: "string \<Rightarrow> string \<Rightarrow> ('r, bool) op" where
  "users_exists_with_email_or_handle email handle =
     query (\<lambda>d. List.find (\<lambda>r. um_email r = email \<or> um_handle r = handle) (users d) \<noteq> None)"

definition write_row :: "user \<Rightarrow> user_model \<Rightarrow> user_model" where
  "write_row user row = row\<lparr>
     um_password_hash := u_password_hash user,
     um_role := role_value (u_role user),
     um_must_change_password := u_must_change_password user,
     um_temporary_password_expires_at := u_temporary_password_expires_at user,
     um_is_email_verified := u_is_email_verified user,
     um_status := status_value (u_status user),
     um_status_reason := u_status_reason user,
     um_status_changed_at := u_status_changed_at user,
     um_deleted_at := u_deleted_at user,
     um_display_name := u_display_name user,
     um_bio := u_bio user,
     um_profile_visibility := visibility_value (u_profile_visibility user),
     um_feed_language := language_value (u_feed_language user)\<rparr>"

definition users_save :: "user \<Rightarrow> ('r, unit) op" where
  "users_save user =
     modify_db (\<lambda>d. d\<lparr>users := map (\<lambda>r. if um_id r = u_id user then write_row user r else r) (users d)\<rparr>)"

section \<open>Emailed tokens\<close>

definition evt_of_row :: "email_verification_token_model \<Rightarrow> email_verification_token" where
  "evt_of_row row = \<lparr> evt_user_id = evm_user_id row, evt_token_hash = evm_token_hash row,
     evt_expires_at = evm_expires_at row, evt_id = Some (evm_id row), evt_used_at = evm_used_at row \<rparr>"

definition verification_tokens_add :: "'r env \<Rightarrow> email_verification_token \<Rightarrow> ('r, unit) op" where
  "verification_tokens_add E token =
     bnd (uuid4 E) (\<lambda>i. bnd server_now (\<lambda>t.
     modify_db (\<lambda>d. d\<lparr>email_verification_tokens := email_verification_tokens d @
       [\<lparr> evm_id = i, evm_user_id = evt_user_id token, evm_token_hash = evt_token_hash token,
          evm_expires_at = evt_expires_at token, evm_used_at = None, evm_created_at = t \<rparr>]\<rparr>)))"

definition verification_tokens_find_by_hash :: "string \<Rightarrow> ('r, email_verification_token option) op" where
  "verification_tokens_find_by_hash h =
     query (\<lambda>d. map_option evt_of_row
       (List.find (\<lambda>r. evm_token_hash r = h) (email_verification_tokens d)))"

definition verification_tokens_mark_used :: "uuid option \<Rightarrow> time \<Rightarrow> ('r, unit) op" where
  "verification_tokens_mark_used token_id used_at =
     modify_db (\<lambda>d. d\<lparr>email_verification_tokens :=
       map (\<lambda>r. if Some (evm_id r) = token_id then r\<lparr>evm_used_at := Some used_at\<rparr> else r)
         (email_verification_tokens d)\<rparr>)"

definition prt_of_row :: "password_reset_token_model \<Rightarrow> password_reset_token" where
  "prt_of_row row = \<lparr> prt_user_id = prm_user_id row, prt_token_hash = prm_token_hash row,
     prt_expires_at = prm_expires_at row, prt_id = Some (prm_id row), prt_used_at = prm_used_at row \<rparr>"

definition reset_tokens_add :: "'r env \<Rightarrow> password_reset_token \<Rightarrow> ('r, unit) op" where
  "reset_tokens_add E token =
     bnd (uuid4 E) (\<lambda>i. bnd server_now (\<lambda>t.
     modify_db (\<lambda>d. d\<lparr>password_reset_tokens := password_reset_tokens d @
       [\<lparr> prm_id = i, prm_user_id = prt_user_id token, prm_token_hash = prt_token_hash token,
          prm_expires_at = prt_expires_at token, prm_used_at = None, prm_created_at = t \<rparr>]\<rparr>)))"

definition reset_tokens_find_by_hash :: "string \<Rightarrow> ('r, password_reset_token option) op" where
  "reset_tokens_find_by_hash h =
     query (\<lambda>d. map_option prt_of_row
       (List.find (\<lambda>r. prm_token_hash r = h) (password_reset_tokens d)))"

definition reset_tokens_mark_all_used :: "uuid \<Rightarrow> time \<Rightarrow> ('r, unit) op" where
  "reset_tokens_mark_all_used user_id used_at =
     modify_db (\<lambda>d. d\<lparr>password_reset_tokens := map (\<lambda>r. if prm_user_id r = user_id \<and> prm_used_at r = None
                 then r\<lparr>prm_used_at := Some used_at\<rparr> else r) (password_reset_tokens d)\<rparr>)"

section \<open>Refresh tokens\<close>

definition rt_of_row :: "refresh_token_model \<Rightarrow> refresh_token" where
  "rt_of_row row = \<lparr> rt_user_id = rtm_user_id row, rt_family_id = rtm_family_id row,
     rt_token_hash = rtm_token_hash row, rt_expires_at = rtm_expires_at row,
     rt_id = Some (rtm_id row), rt_used_at = rtm_used_at row, rt_revoked_at = rtm_revoked_at row \<rparr>"

definition refresh_tokens_add :: "'r env \<Rightarrow> refresh_token \<Rightarrow> ('r, unit) op" where
  "refresh_tokens_add E token =
     bnd (uuid4 E) (\<lambda>i. bnd server_now (\<lambda>t.
     modify_db (\<lambda>d. d\<lparr>refresh_tokens := refresh_tokens d @
       [\<lparr> rtm_id = i, rtm_user_id = rt_user_id token, rtm_family_id = rt_family_id token,
          rtm_token_hash = rt_token_hash token, rtm_expires_at = rt_expires_at token,
          rtm_used_at = None, rtm_revoked_at = None, rtm_created_at = t \<rparr>]\<rparr>)))"

definition refresh_tokens_find_by_hash :: "string \<Rightarrow> ('r, refresh_token option) op" where
  "refresh_tokens_find_by_hash h =
     query (\<lambda>d. map_option rt_of_row (List.find (\<lambda>r. rtm_token_hash r = h) (refresh_tokens d)))"

definition rtm_consumable :: "string \<Rightarrow> time \<Rightarrow> refresh_token_model \<Rightarrow> bool" where
  "rtm_consumable h now r \<longleftrightarrow>
     rtm_token_hash r = h \<and> rtm_used_at r = None \<and> rtm_revoked_at r = None \<and> rtm_expires_at r > now"

text \<open>\<open>UPDATE ... WHERE ... RETURNING\<close>: one statement; the row comes back as updated.\<close>

definition refresh_tokens_consume :: "string \<Rightarrow> time \<Rightarrow> ('r, refresh_token option) op" where
  "refresh_tokens_consume h now =
     bnd (query (\<lambda>d. List.find (rtm_consumable h now) (refresh_tokens d))) (\<lambda>row.
     bnd (modify_db (\<lambda>d. d\<lparr>refresh_tokens :=
            map (\<lambda>r. if rtm_consumable h now r then r\<lparr>rtm_used_at := Some now\<rparr> else r)
              (refresh_tokens d)\<rparr>)) (\<lambda>_.
     ret (map_option (\<lambda>r. rt_of_row (r\<lparr>rtm_used_at := Some now\<rparr>)) row)))"

definition refresh_tokens_revoke_family :: "uuid \<Rightarrow> time \<Rightarrow> ('r, unit) op" where
  "refresh_tokens_revoke_family family_id revoked_at =
     modify_db (\<lambda>d. d\<lparr>refresh_tokens := map (\<lambda>r. if rtm_family_id r = family_id \<and> rtm_revoked_at r = None
                 then r\<lparr>rtm_revoked_at := Some revoked_at\<rparr> else r) (refresh_tokens d)\<rparr>)"

definition refresh_tokens_revoke_all :: "uuid \<Rightarrow> time \<Rightarrow> ('r, unit) op" where
  "refresh_tokens_revoke_all user_id revoked_at =
     modify_db (\<lambda>d. d\<lparr>refresh_tokens := map (\<lambda>r. if rtm_user_id r = user_id \<and> rtm_revoked_at r = None
                 then r\<lparr>rtm_revoked_at := Some revoked_at\<rparr> else r) (refresh_tokens d)\<rparr>)"

section \<open>Outbox, feedback and audit log\<close>

definition outbox_add :: "event \<Rightarrow> ('r, unit) op" where
  "outbox_add event =
     (case event_id event of None \<Rightarrow> raise ValueError
      | Some i \<Rightarrow>
          bnd server_now (\<lambda>t.
          modify_db (\<lambda>d. d\<lparr>outbox := outbox d @
            [\<lparr> om_id = i, om_type = ev_type event, om_payload = event, om_created_at = t \<rparr>]\<rparr>)))"

definition feedback_add :: "feedback \<Rightarrow> ('r, unit) op" where
  "feedback_add f = modify_db (\<lambda>d. d\<lparr>feedback_messages := feedback_messages d @ [f]\<rparr>)"

text \<open>\<open>INSERT ... ON CONFLICT (id) DO NOTHING\<close>.\<close>

definition audit_add :: "audit_entry \<Rightarrow> ('r, unit) op" where
  "audit_add entry =
     modify_db (\<lambda>d. d\<lparr>admin_audit_log :=
       if ae_id entry \<in> set (map ae_id (admin_audit_log d)) then admin_audit_log d
       else admin_audit_log d @ [entry]\<rparr>)"

definition target_handle :: "db \<Rightarrow> audit_entry \<Rightarrow> string option" where
  "target_handle d a =
     (if ae_target_type a = ''user'' then
        map_option um_handle
          (List.find (\<lambda>r. um_id r = ae_target_id a \<and> um_deleted_at r = None) (users d))
      else None)"

definition newest_first :: "audit_entry list \<Rightarrow> audit_entry list" where
  "newest_first rows = rev (sort_key (\<lambda>a. (ae_occurred_at a, ae_id a)) rows)"

definition with_target :: "db \<Rightarrow> audit_entry \<Rightarrow> audit_entry_with_target" where
  "with_target d a = audit_entry.extend a \<lparr> ae_target_handle = target_handle d a \<rparr>"

definition audit_list_page :: "nat \<Rightarrow> nat \<Rightarrow> ('r, audit_entry_with_target list \<times> nat) op" where
  "audit_list_page limit offset =
     query (\<lambda>d. (map (with_target d) (take limit (drop offset (newest_first (admin_audit_log d)))),
                  length (admin_audit_log d)))"

section \<open>Rows and accounts\<close>

definition wf_users :: "user_model list \<Rightarrow> bool" where
  "wf_users us \<longleftrightarrow> distinct (map um_id us) \<and> (\<forall>r \<in> set us. ck_users r)"

text \<open>The account stored under an id.\<close>

definition accounts :: "db \<Rightarrow> uuid \<Rightarrow> user option" where
  "accounts d i = Option.bind (row_by_id i d) to_domain"

text \<open>
  What saving \<open>user\<close> over the stored \<open>old\<close> leaves: the identity, the two names, the acceptance of the
  terms and the creation date are the stored ones, everything else is \<open>user\<close>'s.
\<close>

definition merged :: "user \<Rightarrow> user \<Rightarrow> user" where
  "merged user old = user\<lparr>u_email := u_email old, u_handle := u_handle old,
     u_terms_accepted := u_terms_accepted old, u_terms_accepted_at := u_terms_accepted_at old,
     u_id := u_id old, u_created_at := u_created_at old\<rparr>"

lemma wf_users_constraints: "constraints d \<Longrightarrow> wf_users (users d)"
  by (simp add: constraints_def wf_users_def users_unique_def)

lemma to_domain_Some:
  "to_domain r = Some u \<longleftrightarrow>
     um_role r = role_value (u_role u) \<and> um_status r = status_value (u_status u) \<and>
     um_profile_visibility r = visibility_value (u_profile_visibility u) \<and>
     um_feed_language r = language_value (u_feed_language u) \<and>
     um_email r = u_email u \<and> um_handle r = u_handle u \<and> um_password_hash r = u_password_hash u \<and>
     um_must_change_password r = u_must_change_password u \<and>
     um_temporary_password_expires_at r = u_temporary_password_expires_at u \<and>
     um_is_email_verified r = u_is_email_verified u \<and> um_status_reason r = u_status_reason u \<and>
     um_status_changed_at r = u_status_changed_at u \<and> um_deleted_at r = u_deleted_at u \<and>
     um_terms_accepted r = u_terms_accepted u \<and> um_terms_accepted_at r = u_terms_accepted_at u \<and>
     um_display_name r = u_display_name u \<and> um_bio r = u_bio u \<and> um_id r = u_id u \<and>
     um_created_at r = u_created_at u"
  by (cases u) (auto simp: to_domain_def Role_Some AccountStatus_Some ProfileVisibility_Some
      FeedLanguage_Some split: option.splits)

lemma ck_users_total: "ck_users r \<Longrightarrow> \<exists>u. to_domain r = Some u"
  by (auto simp: ck_users_def to_domain_def Role_def AccountStatus_def ProfileVisibility_def
      FeedLanguage_def split: option.splits)

lemma to_domain_ck: "to_domain r = Some u \<Longrightarrow> ck_users r"
  by (cases "u_role u"; cases "u_status u"; cases "u_profile_visibility u"; cases "u_feed_language u")
     (simp_all add: to_domain_Some ck_users_def)

lemma to_domain_model [simp]:
  "to_domain (UserModel a i t) = Some (account.extend a \<lparr> u_id = i, u_created_at = t \<rparr>)"
  by (simp add: to_domain_Some UserModel_def account.defs)

lemma to_domain_write:
  "to_domain r = Some old \<Longrightarrow> to_domain (write_row u r) = Some (merged u old)"
  by (simp add: to_domain_Some write_row_def merged_def)

lemma write_row_id [simp]: "um_id (write_row u r) = um_id r"
  by (simp add: write_row_def)

lemma row_by_idD: "row_by_id i d = Some r \<Longrightarrow> r \<in> set (users d) \<and> um_id r = i"
  using find_SomeD [of "\<lambda>r. um_id r = i" "users d" r] by (auto simp: row_by_id_def)

lemma row_by_id_save:
  "row_by_id i (d\<lparr>users := map (\<lambda>r. if um_id r = j then g r else r) (users d)\<rparr>) =
     (if i = j then map_option g (row_by_id i d) else row_by_id i d)"
  if "\<And>r. um_id (g r) = um_id r"
proof -
  have "row_by_id i (d\<lparr>users := map (\<lambda>r. if um_id r = j then g r else r) (users d)\<rparr>) =
      map_option (\<lambda>r. if um_id r = j then g r else r) (row_by_id i d)"
    unfolding row_by_id_def
    using find_map_same [of um_id "\<lambda>r. if um_id r = j then g r else r" i "users d"] that by simp
  also have "\<dots> = (if i = j then map_option g (row_by_id i d) else row_by_id i d)"
    by (cases "row_by_id i d") (auto dest: row_by_idD)
  finally show ?thesis .
qed

lemma to_domain_id: "row_by_id i d = Some r \<Longrightarrow> to_domain r = Some u \<Longrightarrow> u_id u = i"
  using row_by_idD [of i d r] by (simp add: to_domain_Some)

lemma accounts_id: "accounts d i = Some u \<Longrightarrow> u_id u = i"
  by (auto simp: accounts_def bind_eq_Some_conv to_domain_Some dest: row_by_idD)

lemma accounts_wf:
  assumes "wf_users (users d)"
  shows "accounts d i = None \<longleftrightarrow> row_by_id i d = None"
  using assms ck_users_total
  by (cases "row_by_id i d") (auto simp: accounts_def wf_users_def dest: row_by_idD)

lemma accounts_save:
  assumes "wf_users (users d)"
  shows "accounts (d\<lparr>users := map (\<lambda>r. if um_id r = u_id u then write_row u r else r) (users d)\<rparr>) i =
    (if i = u_id u then map_option (merged u) (accounts d i) else accounts d i)"
proof (cases "row_by_id i d")
  case None
  then show ?thesis by (auto simp: accounts_def row_by_id_save)
next
  case (Some r)
  then have "ck_users r" using assms row_by_idD [OF Some] by (simp add: wf_users_def)
  then obtain old where "to_domain r = Some old" using ck_users_total by blast
  with Some show ?thesis by (auto simp: accounts_def row_by_id_save to_domain_write)
qed

lemma wf_users_save:
  assumes "wf_users us"
  shows "wf_users (map (\<lambda>r. if um_id r = u_id u then write_row u r else r) us)"
proof -
  have "map um_id (map (\<lambda>r. if um_id r = u_id u then write_row u r else r) us) = map um_id us"
    by (simp add: o_def cong: map_cong)
  moreover have "ck_users (write_row u r)" if "r \<in> set us" for r
    using that assms ck_users_total [of r] to_domain_write [of r _ u] to_domain_ck
    by (auto simp: wf_users_def)
  ultimately show ?thesis
    using assms unfolding wf_users_def by (auto simp del: map_map)
qed

lemma merged_self [simp]: "u_id a = u_id b \<Longrightarrow> u_email a = u_email b \<Longrightarrow> u_handle a = u_handle b \<Longrightarrow>
    u_terms_accepted a = u_terms_accepted b \<Longrightarrow> u_terms_accepted_at a = u_terms_accepted_at b \<Longrightarrow>
    u_created_at a = u_created_at b \<Longrightarrow> merged a b = a"
  by (simp add: merged_def)

lemma preserves_loaded [preserves_intro]: "preserves I (loaded row)"
  unfolding loaded_def by (intro preserves_intro)

lemma preserves_loaded_all [preserves_intro]: "preserves I (loaded_all rows)"
proof (induction rows)
  case Nil
  show ?case unfolding loaded_all.simps by (rule preserves_ret)
next
  case (Cons r rows)
  then show ?case unfolding loaded_all.simps by (intro preserves_intro)
qed

section \<open>Weakest preconditions of the methods\<close>

lemma wp_loaded [wp_simps]:
  "wp (loaded row) Q Z w = (case row of None \<Rightarrow> Q None w | Some r \<Rightarrow>
     (case to_domain r of None \<Rightarrow> Z ValueError w | Some u \<Rightarrow> Q (Some u) w))"
  by (simp add: loaded_def wp_simps split: option.splits)

lemma wp_users [wp_simps]:
  "wp (users_get i) Q Z w = wp (loaded (row_by_id i (w_db w))) Q Z w"
  "wp (users_find_by_identifier s) Q Z w =
     wp (loaded (List.find (\<lambda>r. um_email r = s \<or> um_handle r = s) (users (w_db w)))) Q Z w"
  "wp (users_find_by_email s) Q Z w =
     wp (loaded (List.find (\<lambda>r. um_email r = s) (users (w_db w)))) Q Z w"
  "wp (users_exists_with_email_or_handle e h) Q1 Z w =
     Q1 (List.find (\<lambda>r. um_email r = e \<or> um_handle r = h) (users (w_db w)) \<noteq> None) w"
  "wp (users_save u) Q2 Z w = Q2 () (w\<lparr>w_db := (w_db w)\<lparr>users :=
     map (\<lambda>r. if um_id r = u_id u then write_row u r else r) (users (w_db w))\<rparr>\<rparr>)"
  "wp (users_count st) Q3 Z w = Q3 (length (filter (\<lambda>r. um_role r = role_value USER \<and>
     um_status r = status_value st \<and> um_is_email_verified r \<and> um_deleted_at r = None) (users (w_db w)))) w"
  by (simp_all add: users_get_def users_find_by_identifier_def users_find_by_email_def
      users_exists_with_email_or_handle_def users_save_def users_count_def wp_simps)

lemmas repository_defs =
  users_add_def verification_tokens_add_def verification_tokens_find_by_hash_def
  verification_tokens_mark_used_def reset_tokens_add_def reset_tokens_find_by_hash_def
  reset_tokens_mark_all_used_def refresh_tokens_add_def refresh_tokens_find_by_hash_def
  refresh_tokens_consume_def refresh_tokens_revoke_family_def refresh_tokens_revoke_all_def
  outbox_add_def feedback_add_def audit_add_def audit_list_page_def

lemma users_get_run:
  assumes "wf_users (users (w_db w))"
  shows "users_get i w = (Inr (accounts (w_db w) i), w)"
proof (cases "row_by_id i (w_db w)")
  case None
  then show ?thesis by (simp add: users_get_def bnd_apply loaded_def accounts_def)
next
  case (Some r)
  then have "ck_users r" using assms row_by_idD [OF Some] by (simp add: wf_users_def)
  then obtain u where "to_domain r = Some u" using ck_users_total by blast
  with Some show ?thesis by (simp add: users_get_def bnd_apply loaded_def accounts_def)
qed

lemma users_save_apply [simp]:
  "users_save u w = (Inr (), w\<lparr>w_db := (w_db w)\<lparr>users :=
     map (\<lambda>r. if um_id r = u_id u then write_row u r else r) (users (w_db w))\<rparr>\<rparr>)"
  by (simp add: users_save_def)

section \<open>The contract of the account repository\<close>

locale account_repository =
  fixes get :: "uuid \<Rightarrow> ('w, exn, user option) act"
    and save :: "user \<Rightarrow> ('w, exn, unit) act"
    and view :: "'w \<Rightarrow> uuid \<Rightarrow> user option"
    and ok :: "'w \<Rightarrow> bool"
  assumes get_reads: "ok w \<Longrightarrow> get i w = (Inr (view w i), w)"
    and save_writes: "ok w \<Longrightarrow> save u w = (x, w') \<Longrightarrow>
          x = Inr () \<and> ok w' \<and>
          view w' = (view w)(u_id u := map_option (merged u) (view w (u_id u)))"
    and view_id: "view w i = Some u \<Longrightarrow> u_id u = i"
begin

text \<open>Saving an account read before under a change of its other fields stores exactly that.\<close>

lemma read_change_save:
  assumes "ok w" and "view w i = Some u" and "merged v u = v" and "save v w = (x, w')"
  shows "get i w' = (Inr (Some v), w') \<and> (\<forall>j. j \<noteq> i \<longrightarrow> get j w' = (Inr (view w j), w'))"
proof -
  have "u_id v = i"
    using assms(3) view_id [OF assms(2)] by (metis merged_def user.select_convs(1) user.surjective
        user.update_convs(1) user.update_convs(2))
  with assms save_writes [OF assms(1,4)] get_reads show ?thesis by auto
qed

lemma save_keeps_identity:
  assumes "ok w" and "save v w = (x, w')" and "view w i = Some u"
  shows "\<exists>u'. view w' i = Some u' \<and> u_id u' = u_id u \<and> u_email u' = u_email u \<and>
    u_handle u' = u_handle u \<and> u_created_at u' = u_created_at u"
  using save_writes [OF assms(1,2)] assms(3) by (auto simp: merged_def)

lemma save_unknown:
  assumes "ok w" and "view w (u_id v) = None" and "save v w = (x, w')"
  shows "view w' = view w"
  using save_writes [OF assms(1,3)] assms(2) by auto

end

interpretation user_repository: account_repository users_get users_save
  "\<lambda>w. accounts (w_db w)" "\<lambda>w. wf_users (users (w_db w))"
proof (unfold_locales, goal_cases)
  case (1 w i) then show ?case by (rule users_get_run)
next
  case (2 w u x w') then show ?case by (auto simp: fun_eq_iff accounts_save wf_users_save)
next
  case (3 w i u) then show ?case by (rule accounts_id)
qed

section \<open>The contract of the refresh token repository\<close>

locale refresh_token_repository =
  fixes consume :: "string \<Rightarrow> time \<Rightarrow> ('w, exn, refresh_token option) act"
    and revoke_account :: "uuid \<Rightarrow> time \<Rightarrow> ('w, exn, unit) act"
    and revoke_chain :: "uuid \<Rightarrow> time \<Rightarrow> ('w, exn, unit) act"
    and view :: "'w \<Rightarrow> string \<Rightarrow> refresh_token option"
    and ok :: "'w \<Rightarrow> bool"
  assumes consume_run: "ok w \<Longrightarrow> consume h now w = (x, w') \<Longrightarrow> ok w' \<and>
      (case view w h of
         Some t \<Rightarrow>
           if rt_used_at t = None \<and> rt_revoked_at t = None \<and> rt_expires_at t > now
           then x = Inr (Some (t\<lparr>rt_used_at := Some now\<rparr>)) \<and>
                view w' = (view w)(h \<mapsto> t\<lparr>rt_used_at := Some now\<rparr>)
           else x = Inr None \<and> view w' = view w
       | None \<Rightarrow> x = Inr None \<and> view w' = view w)"
    and revoke_account_run: "ok w \<Longrightarrow> revoke_account u at w = (y, w') \<Longrightarrow> y = Inr () \<and> ok w' \<and>
      view w' = (\<lambda>h. map_option (\<lambda>t. if rt_user_id t = u \<and> rt_revoked_at t = None
                       then t\<lparr>rt_revoked_at := Some at\<rparr> else t) (view w h))"
    and revoke_chain_run: "ok w \<Longrightarrow> revoke_chain f at w = (y, w') \<Longrightarrow> y = Inr () \<and> ok w' \<and>
      view w' = (\<lambda>h. map_option (\<lambda>t. if rt_family_id t = f \<and> rt_revoked_at t = None
                       then t\<lparr>rt_revoked_at := Some at\<rparr> else t) (view w h))"
begin

lemma consume_once:
  assumes "ok w" and "consume h now w = (Inr (Some t), w')"
  shows "\<exists>w''. consume h later w' = (Inr None, w'')"
proof -
  have ok: "ok w'" and v: "view w' h = Some t" and t: "rt_used_at t \<noteq> None"
    using consume_run [OF assms] by (auto split: option.splits if_splits)
  obtain x w'' where c: "consume h later w' = (x, w'')" by fastforce
  from consume_run [OF ok c] v t c show ?thesis by (auto split: if_splits)
qed

lemma revoked_never_consumed:
  assumes "ok w" and "revoke_account u at w = (y, w')" and "view w h = Some t" and "rt_user_id t = u"
  shows "\<exists>w''. consume h later w' = (Inr None, w'')"
proof -
  have ok: "ok w'" and v: "\<exists>t'. view w' h = Some t' \<and> rt_revoked_at t' \<noteq> None"
    using revoke_account_run [OF assms(1,2)] assms(3,4) by auto
  obtain x w'' where c: "consume h later w' = (x, w'')" by fastforce
  from consume_run [OF ok c] v c show ?thesis by (auto split: if_splits)
qed

lemma revoke_account_spares_others:
  assumes "ok w" and "revoke_account u at w = (y, w')" and "view w h = Some t" and "rt_user_id t \<noteq> u"
  shows "view w' h = Some t"
  using revoke_account_run [OF assms(1,2)] assms(3,4) by simp

end

definition refresh_view :: "db \<Rightarrow> string \<Rightarrow> refresh_token option" where
  "refresh_view d h = map_option rt_of_row (List.find (\<lambda>r. rtm_token_hash r = h) (refresh_tokens d))"

definition wf_refresh :: "db \<Rightarrow> bool" where
  "wf_refresh d \<longleftrightarrow> distinct (map rtm_token_hash (refresh_tokens d))"

lemma wf_refresh_constraints: "constraints d \<Longrightarrow> wf_refresh d"
  by (simp add: constraints_def tokens_constraints_def wf_refresh_def Let_def)

lemma refresh_view_map:
  assumes "\<And>r. rtm_token_hash (g r) = rtm_token_hash r" and "\<And>r. rt_of_row (g r) = f (rt_of_row r)"
  shows "refresh_view (d\<lparr>refresh_tokens := map g (refresh_tokens d)\<rparr>) h = map_option f (refresh_view d h)"
  using assms find_map_same [of rtm_token_hash g h "refresh_tokens d"]
  by (simp add: refresh_view_def option.map_comp o_def)

lemma wf_refresh_map:
  assumes "\<And>r. rtm_token_hash (g r) = rtm_token_hash r"
  shows "wf_refresh (d\<lparr>refresh_tokens := map g (refresh_tokens d)\<rparr>) = wf_refresh d"
  using assms by (simp add: wf_refresh_def o_def)

lemma consume_db:
  "refresh_tokens_consume h now w =
     (Inr (map_option (\<lambda>r. rt_of_row (r\<lparr>rtm_used_at := Some now\<rparr>))
            (List.find (rtm_consumable h now) (refresh_tokens (w_db w)))),
      w\<lparr>w_db := (w_db w)\<lparr>refresh_tokens :=
        map (\<lambda>r. if rtm_consumable h now r then r\<lparr>rtm_used_at := Some now\<rparr> else r)
          (refresh_tokens (w_db w))\<rparr>\<rparr>)"
  by (simp add: refresh_tokens_consume_def bnd_apply)

lemma find_consumable_rows:
  "distinct (map rtm_token_hash rows) \<Longrightarrow>
     List.find (rtm_consumable h now) rows =
       (case List.find (\<lambda>r. rtm_token_hash r = h) rows of None \<Rightarrow> None
        | Some r \<Rightarrow> if rtm_consumable h now r then Some r else None)"
proof (induction rows)
  case Nil
  then show ?case by simp
next
  case (Cons r rows)
  have "List.find (\<lambda>r. rtm_token_hash r = h) rows = None" if "rtm_token_hash r = h"
    unfolding find_None_iff using Cons.prems that by (auto simp: image_iff)
  with Cons show ?case by (auto simp: rtm_consumable_def)
qed

lemmas find_consumable = find_consumable_rows [OF wf_refresh_def [THEN iffD1]]

lemma rt_of_row_fields [simp]:
  "rt_user_id (rt_of_row r) = rtm_user_id r" "rt_family_id (rt_of_row r) = rtm_family_id r"
  "rt_token_hash (rt_of_row r) = rtm_token_hash r" "rt_expires_at (rt_of_row r) = rtm_expires_at r"
  "rt_used_at (rt_of_row r) = rtm_used_at r" "rt_revoked_at (rt_of_row r) = rtm_revoked_at r"
  by (simp_all add: rt_of_row_def)

text \<open>The exchange changes one token of the map, when it is usable.\<close>

lemma consume_view:
  assumes "refresh_tokens_consume h now w = (x, w')"
  shows "k \<noteq> h \<Longrightarrow> refresh_view (w_db w') k = refresh_view (w_db w) k"
    and "refresh_view (w_db w') h = map_option (\<lambda>t.
      if rt_used_at t = None \<and> rt_revoked_at t = None \<and> rt_expires_at t > now
      then t\<lparr>rt_used_at := Some now\<rparr> else t) (refresh_view (w_db w) h)"
proof -
  let ?g = "\<lambda>r. if rtm_consumable h now r then r\<lparr>rtm_used_at := Some now\<rparr> else r"
  let ?f = "\<lambda>t. if rt_token_hash t = h \<and> rt_used_at t = None \<and> rt_revoked_at t = None \<and> rt_expires_at t > now
                then t\<lparr>rt_used_at := Some now\<rparr> else t"
  have g: "rtm_token_hash (?g r) = rtm_token_hash r" for r by simp
  have f: "rt_of_row (?g r) = ?f (rt_of_row r)" for r
    by (simp add: rtm_consumable_def rt_of_row_def)
  have view: "refresh_view (w_db w') k = map_option ?f (refresh_view (w_db w) k)" for k
    using assms refresh_view_map [of ?g ?f, OF g f] by (auto simp: consume_db)
  have hash: "refresh_view (w_db w) k = Some t \<Longrightarrow> rt_token_hash t = k" for k t
    by (auto simp: refresh_view_def dest: find_SomeD)
  from view [of k] hash [of k] show "k \<noteq> h \<Longrightarrow> refresh_view (w_db w') k = refresh_view (w_db w) k"
    by (cases "refresh_view (w_db w) k") auto
  from view [of h] hash [of h] show "refresh_view (w_db w') h = map_option (\<lambda>t.
      if rt_used_at t = None \<and> rt_revoked_at t = None \<and> rt_expires_at t > now
      then t\<lparr>rt_used_at := Some now\<rparr> else t) (refresh_view (w_db w) h)"
    by (cases "refresh_view (w_db w) h") auto
qed

lemma consume_refines:
  assumes ok: "wf_refresh (w_db w)" and run: "refresh_tokens_consume h now w = (x, w')"
  shows "wf_refresh (w_db w') \<and>
    (case refresh_view (w_db w) h of
       Some t \<Rightarrow>
         if rt_used_at t = None \<and> rt_revoked_at t = None \<and> rt_expires_at t > now
         then x = Inr (Some (t\<lparr>rt_used_at := Some now\<rparr>)) \<and>
              refresh_view (w_db w') = (refresh_view (w_db w))(h \<mapsto> t\<lparr>rt_used_at := Some now\<rparr>)
         else x = Inr None \<and> refresh_view (w_db w') = refresh_view (w_db w)
     | None \<Rightarrow> x = Inr None \<and> refresh_view (w_db w') = refresh_view (w_db w))"
proof -
  let ?g = "\<lambda>r. if rtm_consumable h now r then r\<lparr>rtm_used_at := Some now\<rparr> else r"
  have x: "x = Inr (map_option (\<lambda>r. rt_of_row (r\<lparr>rtm_used_at := Some now\<rparr>))
      (List.find (rtm_consumable h now) (refresh_tokens (w_db w))))"
    and w': "w_db w' = (w_db w)\<lparr>refresh_tokens := map ?g (refresh_tokens (w_db w))\<rparr>"
    using run by (auto simp: consume_db)
  have ok': "wf_refresh (w_db w')"
    using ok wf_refresh_map [of ?g "w_db w"] by (simp add: w')
  note view = consume_view [OF run] and found = find_consumable [OF ok, of h now]
  show ?thesis
  proof (cases "List.find (\<lambda>r. rtm_token_hash r = h) (refresh_tokens (w_db w))")
    case None
    then have "refresh_view (w_db w) h = None" by (simp add: refresh_view_def)
    moreover have "refresh_view (w_db w') k = refresh_view (w_db w) k" for k
      using view calculation by (cases "k = h") simp_all
    ultimately show ?thesis using ok' None x found by (simp add: fun_eq_iff)
  next
    case (Some r)
    let ?t = "rt_of_row r"
    have t: "refresh_view (w_db w) h = Some ?t" using Some by (simp add: refresh_view_def)
    have usable: "rtm_consumable h now r \<longleftrightarrow>
        rt_used_at ?t = None \<and> rt_revoked_at ?t = None \<and> rt_expires_at ?t > now"
      using Some find_SomeD [OF Some] by (simp add: rtm_consumable_def)
    have "x = Inr (if rtm_consumable h now r then Some (?t\<lparr>rt_used_at := Some now\<rparr>) else None)"
      using x Some found by (simp add: rt_of_row_def)
    moreover have "refresh_view (w_db w') = (refresh_view (w_db w))
        (h \<mapsto> (if rtm_consumable h now r then ?t\<lparr>rt_used_at := Some now\<rparr> else ?t))"
      using view t usable by (intro ext) simp
    ultimately show ?thesis
      using t usable ok' by (cases "rtm_consumable h now r") (auto simp: fun_upd_idem)
  qed
qed

lemma revoke_refines:
  "wf_refresh (w_db (after (refresh_tokens_revoke_all u at w))) = wf_refresh (w_db w)"
  "refresh_view (w_db (after (refresh_tokens_revoke_all u at w))) h =
     map_option (\<lambda>t. if rt_user_id t = u \<and> rt_revoked_at t = None
                     then t\<lparr>rt_revoked_at := Some at\<rparr> else t) (refresh_view (w_db w) h)"
  "wf_refresh (w_db (after (refresh_tokens_revoke_family f at w))) = wf_refresh (w_db w)"
  "refresh_view (w_db (after (refresh_tokens_revoke_family f at w))) h =
     map_option (\<lambda>t. if rt_family_id t = f \<and> rt_revoked_at t = None
                     then t\<lparr>rt_revoked_at := Some at\<rparr> else t) (refresh_view (w_db w) h)"
  unfolding refresh_tokens_revoke_all_def refresh_tokens_revoke_family_def modify_db_apply after_pair
  by (simp_all add: wf_refresh_map refresh_view_map rt_of_row_def)

interpretation sql_refresh_tokens: refresh_token_repository refresh_tokens_consume
  refresh_tokens_revoke_all refresh_tokens_revoke_family "\<lambda>w. refresh_view (w_db w)" "\<lambda>w. wf_refresh (w_db w)"
proof (unfold_locales, goal_cases)
  case (1 w h now x w') then show ?case by (rule consume_refines)
next
  case (2 w u at y w')
  then have "w' = after (refresh_tokens_revoke_all u at w)" "y = Inr ()"
    by (auto simp: refresh_tokens_revoke_all_def)
  with 2 show ?case by (simp add: revoke_refines fun_eq_iff)
next
  case (3 w f at y w')
  then have "w' = after (refresh_tokens_revoke_family f at w)" "y = Inr ()"
    by (auto simp: refresh_tokens_revoke_family_def)
  with 3 show ?case by (simp add: revoke_refines fun_eq_iff)
qed

context service_env
begin

lemma so_repositories:
  "preserves (signed_out E ttl u s D) (users_add E a)"
  "preserves (signed_out E ttl u s D) (users_get i)"
  "preserves (signed_out E ttl u s D) (users_find_by_identifier x)"
  "preserves (signed_out E ttl u s D) (users_find_by_email x)"
  "preserves (signed_out E ttl u s D) users_list_administrators"
  "preserves (signed_out E ttl u s D) (users_count st)"
  "preserves (signed_out E ttl u s D) (users_exists_with_email_or_handle x y)"
  "preserves (signed_out E ttl u s D) (users_save v)"
  "preserves (signed_out E ttl u s D) (verification_tokens_add E vt)"
  "preserves (signed_out E ttl u s D) (verification_tokens_find_by_hash h)"
  "preserves (signed_out E ttl u s D) (verification_tokens_mark_used ti now)"
  "preserves (signed_out E ttl u s D) (reset_tokens_add E pt)"
  "preserves (signed_out E ttl u s D) (reset_tokens_find_by_hash h)"
  "preserves (signed_out E ttl u s D) (reset_tokens_mark_all_used i now)"
  "preserves (signed_out E ttl u s D) (refresh_tokens_add E rt)"
  "preserves (signed_out E ttl u s D) (refresh_tokens_find_by_hash h)"
  "preserves (signed_out E ttl u s D) (refresh_tokens_consume h now)"
  "preserves (signed_out E ttl u s D) (refresh_tokens_revoke_family f now)"
  "preserves (signed_out E ttl u s D) (refresh_tokens_revoke_all i now)"
  "preserves (signed_out E ttl u s D) (outbox_add ev)"
  "preserves (signed_out E ttl u s D) (feedback_add fb)"
  "preserves (signed_out E ttl u s D) (audit_add ae)"
  "preserves (signed_out E ttl u s D) (audit_list_page lim off)"
  unfolding repository_defs users_get_def users_find_by_identifier_def users_find_by_email_def
    users_list_administrators_def users_count_def users_exists_with_email_or_handle_def users_save_def
  by (rule preserves_loaded preserves_loaded_all so_rules | assumption)+

lemmas so_layer = so_rules so_security so_events so_repositories

end

end
