(* ===== verification/Auth_Service.thy ===== *)
theory Auth_Service
  imports Repositories
begin

text \<open>
  Registration, the two logins, refreshing and closing sessions: \<open>app/services/auth.py\<close>. A method
  of \<open>AuthService\<close> is a definition with the environment and the settings as its first arguments;
  its repositories, limiter, session store and outbox are the operations of the theories below.
\<close>

section \<open>Messages and errors\<close>

definition INVALID_CREDENTIALS :: string where
  "INVALID_CREDENTIALS = (''Credenciales inv'' @ [CHR 0xE1] @ ''lidas'')"

definition SUSPENDED_ACCOUNT :: string where
  "SUSPENDED_ACCOUNT = ''Cuenta suspendida''"

definition UNDER_REVIEW_ACCOUNT :: string where
  "UNDER_REVIEW_ACCOUNT = (''Tu cuenta est'' @ [CHR 0xE1] @ '' en revisi'' @ [CHR 0xF3] @ ''n por denuncias de otros usuarios. '') @
     (''Mientras dure la revisi'' @ [CHR 0xF3] @ ''n no pod'' @ [CHR 0xE9] @ ''s iniciar sesi'' @ [CHR 0xF3] @ ''n'')"

definition UNVERIFIED_ACCOUNT :: string where
  "UNVERIFIED_ACCOUNT = (''Revis'' @ [CHR 0xE1] @ '' tu casilla de correo para validar la cuenta antes de ingresar'')"

definition INVALID_TOKEN :: string where
  "INVALID_TOKEN = (''El token no es v'' @ [CHR 0xE1] @ ''lido'')"

definition NOT_AN_ADMINISTRATOR :: string where
  "NOT_AN_ADMINISTRATOR = ''Esta cuenta no tiene acceso al backoffice''"

definition EXPIRED_TEMPORARY_PASSWORD :: string where
  "EXPIRED_TEMPORARY_PASSWORD =
     (''La contrase'' @ [CHR 0xF1] @ ''a temporal venci'' @ [CHR 0xF3] @ ''. Pedile al superadministrador que genere una nueva'')"

definition REFRESH_FAILED_TITLE :: string where
  "REFRESH_FAILED_TITLE = (''No se pudo renovar la sesi'' @ [CHR 0xF3] @ ''n'')"

definition REFRESH_FAILED_DETAIL :: string where
  "REFRESH_FAILED_DETAIL = (''Tu sesi'' @ [CHR 0xF3] @ ''n venci'' @ [CHR 0xF3] @ ''. Inici'' @ [CHR 0xE1] @ '' sesi'' @ [CHR 0xF3] @ ''n de nuevo'')"

definition LOGIN_FAILED_TITLE :: string where
  "LOGIN_FAILED_TITLE = (''No se pudo iniciar sesi'' @ [CHR 0xF3] @ ''n'')"

definition invalid_refresh_token :: problem where
  "invalid_refresh_token =
     Problem 401 ''invalid-refresh-token'' REFRESH_FAILED_TITLE REFRESH_FAILED_DETAIL"

definition invalid_credentials :: problem where
  "invalid_credentials = Problem 401 ''invalid-credentials'' LOGIN_FAILED_TITLE INVALID_CREDENTIALS"

record issued_session =
  is_access_token :: string
  is_refresh_token :: string
  is_expires_in :: int

section \<open>Accounts that may not be used\<close>

definition deny_blocked_account :: "user \<Rightarrow> string \<Rightarrow> ('r, unit) op" where
  "deny_blocked_account user title =
     (if can_log_in user then skip
      else if u_status user = UNDER_REVIEW \<and> u_deleted_at user = None then
        raise (ProblemError (Problem 403 ''account-under-review'' title UNDER_REVIEW_ACCOUNT))
      else raise (ProblemError (Problem 403 ''account-suspended'' title SUSPENDED_ACCOUNT)))"

definition deny_expired_temporary_password :: "'r env \<Rightarrow> user \<Rightarrow> string \<Rightarrow> ('r, unit) op" where
  "deny_expired_temporary_password E user title =
     bnd (now_utc E) (\<lambda>now.
     if temporary_password_expired user now then
       raise (ProblemError (Problem 403 ''temporary-password-expired'' title EXPIRED_TEMPORARY_PASSWORD))
     else skip)"

section \<open>The lockout of a door\<close>

record login_policy =
  lp_key_prefix :: string
  lp_max_attempts :: int
  lp_lockout_minutes :: int

definition policy_key :: "login_policy \<Rightarrow> string \<Rightarrow> string" where
  "policy_key policy identifier =
     lp_key_prefix policy @ '':failed:'' @ py_lower (py_strip identifier)"

definition window_seconds :: "login_policy \<Rightarrow> int" where
  "window_seconds policy = lp_lockout_minutes policy * 60"

definition app_login_policy :: "settings \<Rightarrow> login_policy" where
  "app_login_policy S = \<lparr> lp_key_prefix = ''login'', lp_max_attempts = login_max_attempts S,
     lp_lockout_minutes = login_lockout_minutes S \<rparr>"

definition admin_login_policy :: "settings \<Rightarrow> login_policy" where
  "admin_login_policy S = \<lparr> lp_key_prefix = ''admin-login'',
     lp_max_attempts = admin_login_max_attempts S, lp_lockout_minutes = admin_login_lockout_minutes S \<rparr>"

definition too_many_attempts :: "login_policy \<Rightarrow> problem" where
  "too_many_attempts policy =
     \<lparr> p_status = 429, p_code = ''too-many-attempts'', p_title = ''Demasiados intentos'',
       p_detail = (''La cuenta qued'' @ [CHR 0xF3] @ '' bloqueada temporalmente por '') @
         py_str_int (lp_lockout_minutes policy) @ '' minutos'',
       p_headers = [(''Retry-After'', py_str_int (window_seconds policy))] \<rparr>"

definition guard_lockout :: "'r env \<Rightarrow> string \<Rightarrow> login_policy \<Rightarrow> ('r, unit) op" where
  "guard_lockout E identifier policy =
     bnd (count_marks E (policy_key policy identifier)) (\<lambda>failures.
     if failures \<ge> lp_max_attempts policy then raise (ProblemError (too_many_attempts policy))
     else skip)"

definition register_failure :: "'r env \<Rightarrow> string \<Rightarrow> login_policy \<Rightarrow> ('r, unit) op" where
  "register_failure E identifier policy =
     bnd (hit E (policy_key policy identifier) (window_seconds policy)) (\<lambda>_. skip)"

section \<open>Registration and verification\<close>

definition issue_verification_token :: "'r env \<Rightarrow> settings \<Rightarrow> user \<Rightarrow> time \<Rightarrow> ('r, string) op" where
  "issue_verification_token E S user now =
     bnd (generate_emailed_token E) (\<lambda>raw_token.
     bnd (verification_tokens_add E
            \<lparr> evt_user_id = u_id user, evt_token_hash = hash_token E raw_token,
              evt_expires_at = now + hours (email_verification_hours S),
              evt_id = None, evt_used_at = None \<rparr>) (\<lambda>_.
     ret (public_base_url S @ API_PREFIX @ ''/auth/verify?token='' @ raw_token)))"

definition account_already_exists :: problem where
  "account_already_exists =
     Problem 409 ''account-already-exists'' ''No se pudo crear la cuenta''
       (''El email o el nombre de usuario ya est'' @ [CHR 0xE1] @ ''n en uso'')"

definition register :: "'r env \<Rightarrow> settings \<Rightarrow> string \<Rightarrow> string \<Rightarrow> string \<Rightarrow> ('r, user) op" where
  "register E S email handle password =
     (let normalised_email = py_lower (py_strip email);
          normalised_handle = py_lower (py_strip handle) in
     bnd (users_exists_with_email_or_handle normalised_email normalised_handle) (\<lambda>taken.
     if taken then raise (ProblemError account_already_exists)
     else
       bnd (now_utc E) (\<lambda>now.
       bnd (hash_password E password) (\<lambda>password_hash.
       bnd (users_add E
              ((User normalised_email normalised_handle password_hash)
                 \<lparr>u_is_email_verified := False, u_terms_accepted := True,
                  u_terms_accepted_at := Some now\<rparr>)) (\<lambda>user.
       bnd (issue_verification_token E S user now) (\<lambda>verification_url.
       bnd (user_registered E user verification_url now) (\<lambda>event.
       bnd (outbox_add event) (\<lambda>_.
       ret user))))))))"

definition verification_token_invalid :: problem where
  "verification_token_invalid =
     Problem 400 ''verification-token-invalid'' ''No se pudo validar la cuenta''
       (''El link de validaci'' @ [CHR 0xF3] @ ''n es inv'' @ [CHR 0xE1] @ ''lido o expir'' @ [CHR 0xF3] @ ''. Ped'' @ [CHR 0xED] @ '' uno nuevo desde el login'')"

definition verify_email :: "'r env \<Rightarrow> string \<Rightarrow> ('r, user) op" where
  "verify_email E raw_token =
     bnd (now_utc E) (\<lambda>now.
     bnd (verification_tokens_find_by_hash (hash_token E raw_token)) (\<lambda>token.
     let consume = (
       case token of
         None \<Rightarrow> raise (ProblemError verification_token_invalid)
       | Some t \<Rightarrow>
           if \<not> evt_is_usable t now then raise (ProblemError verification_token_invalid)
           else
             bnd (verification_tokens_mark_used (evt_id t) now) (\<lambda>_.
             bnd (users_get (evt_user_id t)) (\<lambda>found.
             bnd (not_none found) (\<lambda>user.
             let verified = user\<lparr>u_is_email_verified := True\<rparr> in
             bnd (users_save verified) (\<lambda>_. ret verified)))))
     in
       case token of
         None \<Rightarrow> consume
       | Some t \<Rightarrow>
           if evt_used_at t \<noteq> None then
             bnd (users_get (evt_user_id t)) (\<lambda>found.
             bnd (not_none found) (\<lambda>user.
             if u_is_email_verified user then ret user else consume))
           else consume))"

definition resend_verification :: "'r env \<Rightarrow> settings \<Rightarrow> string \<Rightarrow> ('r, unit) op" where
  "resend_verification E S email =
     bnd (users_find_by_email (py_lower (py_strip email))) (\<lambda>found.
     case found of
       None \<Rightarrow> skip
     | Some user \<Rightarrow>
         if u_is_email_verified user \<or> \<not> can_log_in user then skip
         else
           bnd (now_utc E) (\<lambda>now.
           bnd (issue_verification_token E S user now) (\<lambda>verification_url.
           bnd (email_verification_requested E user verification_url now) (\<lambda>event.
           outbox_add event))))"

section \<open>Opening a session\<close>

definition issue_session :: "'r env \<Rightarrow> settings \<Rightarrow> user \<Rightarrow> ('r, string \<times> int) op" where
  "issue_session E S user =
     bnd (issue_access_token E (u_id user) (role_value (u_role user)) (u_handle user)
            (visibility_value (u_profile_visibility user)) (access_token_minutes S) (jwt_issuer S) None)
       (\<lambda>token.
     ret (token, access_token_minutes S * 60))"

definition issue_refresh_token :: "'r env \<Rightarrow> settings \<Rightarrow> user \<Rightarrow> uuid \<Rightarrow> time \<Rightarrow> ('r, string) op" where
  "issue_refresh_token E S user family_id now =
     bnd (generate_refresh_token E) (\<lambda>raw_token.
     bnd (refresh_tokens_add E
            \<lparr> rt_user_id = u_id user, rt_family_id = family_id,
              rt_token_hash = hash_token E raw_token,
              rt_expires_at = now + days (refresh_token_days S),
              rt_id = None, rt_used_at = None, rt_revoked_at = None \<rparr>) (\<lambda>_.
     ret raw_token))"

definition login :: "'r env \<Rightarrow> settings \<Rightarrow> string \<Rightarrow> string \<Rightarrow> ('r, issued_session) op" where
  "login E S identifier password =
     (let policy = app_login_policy S in
     bnd (guard_lockout E identifier policy) (\<lambda>_.
     bnd (users_find_by_identifier (py_lower (py_strip identifier))) (\<lambda>found.
     if \<not> verify_password E password (map_option u_password_hash found) then
       bnd (register_failure E identifier policy) (\<lambda>_.
       raise (ProblemError invalid_credentials))
     else
       bnd (not_none found) (\<lambda>user.
       bnd (deny_blocked_account user LOGIN_FAILED_TITLE) (\<lambda>_.
       if \<not> u_is_email_verified user then
         raise (ProblemError (Problem 403 ''account-not-verified'' LOGIN_FAILED_TITLE UNVERIFIED_ACCOUNT))
       else
         bnd (deny_expired_temporary_password E user LOGIN_FAILED_TITLE) (\<lambda>_.
         bnd (reset_marks E (policy_key policy identifier)) (\<lambda>_.
         bnd (issue_session E S user) (\<lambda>(access_token, expires_in).
         bnd (uuid4 E) (\<lambda>family_id.
         bnd (now_utc E) (\<lambda>now.
         bnd (issue_refresh_token E S user family_id now) (\<lambda>refresh_token.
         ret \<lparr> is_access_token = access_token, is_refresh_token = refresh_token,
               is_expires_in = expires_in \<rparr>)))))))))))"

definition admin_login :: "'r env \<Rightarrow> settings \<Rightarrow> string \<Rightarrow> string \<Rightarrow> ('r, string \<times> int \<times> bool) op" where
  "admin_login E S email password =
     (let policy = admin_login_policy S in
     bnd (guard_lockout E email policy) (\<lambda>_.
     bnd (users_find_by_email (py_lower (py_strip email))) (\<lambda>found.
     if \<not> verify_password E password (map_option u_password_hash found) then
       bnd (register_failure E email policy) (\<lambda>_.
       raise (ProblemError invalid_credentials))
     else
       bnd (not_none found) (\<lambda>user.
       if \<not> is_administrator user then
         raise (ProblemError (Problem 403 ''not-an-administrator'' LOGIN_FAILED_TITLE NOT_AN_ADMINISTRATOR))
       else
         bnd (deny_blocked_account user LOGIN_FAILED_TITLE) (\<lambda>_.
         bnd (deny_expired_temporary_password E user LOGIN_FAILED_TITLE) (\<lambda>_.
         bnd (reset_marks E (policy_key policy email)) (\<lambda>_.
         bnd (issue_session E S user) (\<lambda>(token, expires_in).
         ret (token, expires_in, u_must_change_password user)))))))))"

section \<open>Refreshing a session\<close>

definition refuse_refresh_token :: "'r env \<Rightarrow> settings \<Rightarrow> string \<Rightarrow> time \<Rightarrow> ('r, 'a) op" where
  "refuse_refresh_token E S token_hash now =
     bnd (refresh_tokens_find_by_hash token_hash) (\<lambda>token.
     case token of
       None \<Rightarrow> raise (ProblemError invalid_refresh_token)
     | Some t \<Rightarrow>
         if rt_used_at t \<noteq> None \<and> rt_revoked_at t = None then
           bnd (refresh_tokens_revoke_all (rt_user_id t) now) (\<lambda>_.
           bnd (revoke_sessions E (rt_user_id t) now (access_token_minutes S * 60)) (\<lambda>_.
           raise (ReusedRefreshTokenError invalid_refresh_token)))
         else raise (ProblemError invalid_refresh_token))"

definition refresh :: "'r env \<Rightarrow> settings \<Rightarrow> string \<Rightarrow> ('r, issued_session) op" where
  "refresh E S raw_token =
     bnd (now_utc E) (\<lambda>now.
     let token_hash = hash_token E raw_token in
     bnd (refresh_tokens_consume token_hash now) (\<lambda>result.
     bnd (case result of None \<Rightarrow> refuse_refresh_token E S token_hash now | Some t \<Rightarrow> ret t) (\<lambda>consumed.
     bnd (users_get (rt_user_id consumed)) (\<lambda>found.
     case found of
       None \<Rightarrow> raise (ProblemError invalid_refresh_token)
     | Some user \<Rightarrow>
         bnd (deny_blocked_account user REFRESH_FAILED_TITLE) (\<lambda>_.
         bnd (deny_expired_temporary_password E user REFRESH_FAILED_TITLE) (\<lambda>_.
         bnd (issue_session E S user) (\<lambda>(access_token, expires_in).
         bnd (issue_refresh_token E S user (rt_family_id consumed) now) (\<lambda>refresh_token.
         ret \<lparr> is_access_token = access_token, is_refresh_token = refresh_token,
               is_expires_in = expires_in \<rparr>))))))))"

section \<open>Closing a session\<close>

definition revoke_refresh_family :: "'r env \<Rightarrow> string option \<Rightarrow> uuid option \<Rightarrow> ('r, unit) op" where
  "revoke_refresh_family E raw_token owner =
     (case raw_token of
        None \<Rightarrow> skip
      | Some raw \<Rightarrow>
          bnd (refresh_tokens_find_by_hash (hash_token E raw)) (\<lambda>token.
          case token of
            None \<Rightarrow> skip
          | Some t \<Rightarrow>
              if owner \<noteq> None \<and> Some (rt_user_id t) \<noteq> owner then skip
              else
                bnd (now_utc E) (\<lambda>now.
                refresh_tokens_revoke_family (rt_family_id t) now)))"

definition logout :: "'r env \<Rightarrow> settings \<Rightarrow> string \<Rightarrow> string option \<Rightarrow> ('r, unit) op" where
  "logout E S token refresh_token =
     bnd (decode_access_token E token (jwt_issuer S)) (\<lambda>decoded.
     case decoded of
       Inl ExpiredSignatureError \<Rightarrow> revoke_refresh_family E refresh_token None
     | Inl OtherInvalidTokenError \<Rightarrow>
         raise (ProblemError (Problem 401 ''invalid-token'' (''No se pudo cerrar la sesi'' @ [CHR 0xF3] @ ''n'') INVALID_TOKEN))
     | Inr claims \<Rightarrow>
         bnd (subscript (c_jti claims)) (\<lambda>jti.
         bnd (subscript (c_exp claims)) (\<lambda>exp.
         bnd (now_utc E) (\<lambda>now.
         bnd (revoke_token E jti (seconds exp) now) (\<lambda>_.
         bnd (subscript (c_sub claims)) (\<lambda>sub.
         case uuid_parse sub of
           None \<Rightarrow> raise ValueError
         | Some owner \<Rightarrow> revoke_refresh_family E refresh_token (Some owner)))))))"

end
