(* ===== verification/Access.thy ===== *)
theory Access
  imports Auth_Service
begin

text \<open>
  Who is calling: \<open>get_current_user\<close> and the guards built on it, from \<open>api/deps.py\<close>. They are the
  reading half of the revocations the services write.
\<close>

definition PATHS_ALLOWED_WHILE_PASSWORD_CHANGE_IS_DUE :: "string list" where
  "PATHS_ALLOWED_WHILE_PASSWORD_CHANGE_IS_DUE =
     [API_PREFIX @ ''/me/change-password'', API_PREFIX @ ''/auth/logout'']"

definition AUTHENTICATION_FAILED_TITLE :: string where
  "AUTHENTICATION_FAILED_TITLE = ''No se pudo autenticar la solicitud''"

definition session_revoked :: problem where
  "session_revoked = Problem 401 ''session-revoked'' (''La sesi'' @ [CHR 0xF3] @ ''n ya no es v'' @ [CHR 0xE1] @ ''lida'')
     (''Tu sesi'' @ [CHR 0xF3] @ ''n se cerr'' @ [CHR 0xF3] @ ''. Inici'' @ [CHR 0xE1] @ '' sesi'' @ [CHR 0xF3] @ ''n de nuevo'')"

definition password_change_required :: problem where
  "password_change_required = Problem 403 ''password-change-required''
     (''Ten'' @ [CHR 0xE9] @ ''s que cambiar tu contrase'' @ [CHR 0xF1] @ ''a'') (''La contrase'' @ [CHR 0xF1] @ ''a temporal solo sirve para elegir una nueva'')"

text \<open>
  \<open>is_token_revoked(jti) or (cutoff is not None and issued_at <= cutoff)\<close>: the cutoff was read
  before, so evaluating the disjunction has no effect beyond the one query.
\<close>

definition get_current_user :: "'r env \<Rightarrow> settings \<Rightarrow> string \<Rightarrow> string \<Rightarrow> ('r, user) op" where
  "get_current_user E S path credentials =
     bnd (decode_access_token E credentials (jwt_issuer S)) (\<lambda>decoded.
     case decoded of
       Inl _ \<Rightarrow> raise (ProblemError (Problem 401 ''invalid-token'' AUTHENTICATION_FAILED_TITLE INVALID_TOKEN))
     | Inr claims \<Rightarrow>
         bnd (subscript (c_sub claims)) (\<lambda>sub.
         case uuid_parse sub of
           None \<Rightarrow> raise ValueError
         | Some user_id \<Rightarrow>
             bnd (subscript (c_iat claims)) (\<lambda>iat.
             bnd (revoked_before E user_id) (\<lambda>cutoff.
             bnd (subscript (c_jti claims)) (\<lambda>jti.
             bnd (is_token_revoked E jti) (\<lambda>token_revoked.
             if token_revoked \<or> (case cutoff of None \<Rightarrow> False | Some c \<Rightarrow> seconds iat \<le> c) then
               raise (ProblemError session_revoked)
             else
               bnd (users_get user_id) (\<lambda>found.
               case found of
                 None \<Rightarrow> raise (ProblemError
                   (Problem 403 ''account-suspended'' AUTHENTICATION_FAILED_TITLE SUSPENDED_ACCOUNT))
               | Some user \<Rightarrow>
                   bnd (deny_blocked_account user AUTHENTICATION_FAILED_TITLE) (\<lambda>_.
                   if u_must_change_password user \<and>
                      path \<notin> set PATHS_ALLOWED_WHILE_PASSWORD_CHANGE_IS_DUE
                   then raise (ProblemError password_change_required)
                   else ret user))))))))"

definition superadmin_required :: problem where
  "superadmin_required = Problem 403 ''superadmin-required'' (''No se pudo completar la acci'' @ [CHR 0xF3] @ ''n'')
     ''Solo un superadministrador puede gestionar administradores''"

definition administrator_required :: problem where
  "administrator_required = Problem 403 ''administrator-required'' (''No se pudo completar la acci'' @ [CHR 0xF3] @ ''n'')
     (''Solo un administrador puede ver esta informaci'' @ [CHR 0xF3] @ ''n'')"

definition require_superadmin :: "user \<Rightarrow> ('r, user) op" where
  "require_superadmin user =
     (if u_role user \<noteq> SUPERADMIN then raise (ProblemError superadmin_required) else ret user)"

definition require_administrator :: "user \<Rightarrow> ('r, user) op" where
  "require_administrator user =
     (if \<not> is_administrator user then raise (ProblemError administrator_required) else ret user)"

definition invalid_internal_token :: problem where
  "invalid_internal_token = Problem 401 ''invalid-internal-token'' AUTHENTICATION_FAILED_TITLE
     (''Falta el token interno o no es v'' @ [CHR 0xE1] @ ''lido'')"

definition require_internal_token :: "settings \<Rightarrow> string option \<Rightarrow> ('r, unit) op" where
  "require_internal_token S token =
     (if token \<noteq> Some (internal_api_token S) then raise (ProblemError invalid_internal_token) else skip)"

end
