(* ===== verification/Password_Services.thy ===== *)
theory Password_Services
  imports Access
begin

text \<open>
  The operations around a known or forgotten password: \<open>app/services/current_password.py\<close>,
  \<open>password_change.py\<close> and \<open>password_reset.py\<close>.
\<close>

section \<open>Proving the current password\<close>

definition CURRENT_PASSWORD_INVALID :: string where
  "CURRENT_PASSWORD_INVALID = (''La contrase'' @ [CHR 0xF1] @ ''a actual no es correcta'')"

definition current_password_policy :: "settings \<Rightarrow> login_policy" where
  "current_password_policy S = \<lparr> lp_key_prefix = ''change-password'',
     lp_max_attempts = change_password_max_attempts S,
     lp_lockout_minutes = change_password_lockout_minutes S \<rparr>"

definition too_many_password_attempts :: "login_policy \<Rightarrow> problem" where
  "too_many_password_attempts policy =
     \<lparr> p_status = 429, p_code = ''too-many-password-attempts'', p_title = ''Demasiados intentos'',
       p_detail = (''Erraste la contrase'' @ [CHR 0xF1] @ ''a actual demasiadas veces. '') @
         (''Volv'' @ [CHR 0xE9] @ '' a intentarlo en '') @ py_str_int (lp_lockout_minutes policy) @ '' minutos'',
       p_headers = [(''Retry-After'', py_str_int (window_seconds policy))] \<rparr>"

definition guard_current_password :: "'r env \<Rightarrow> string \<Rightarrow> login_policy \<Rightarrow> ('r, unit) op" where
  "guard_current_password E identifier policy =
     bnd (count_marks E (policy_key policy identifier)) (\<lambda>failures.
     if failures \<ge> lp_max_attempts policy then
       raise (ProblemError (too_many_password_attempts policy))
     else skip)"

definition verify_current_password ::
  "'r env \<Rightarrow> settings \<Rightarrow> user \<Rightarrow> string \<Rightarrow> string \<Rightarrow> ('r, unit) op" where
  "verify_current_password E S user current_password title =
     (let policy = current_password_policy S;
          identifier = uuid_str (u_id user) in
     bnd (guard_current_password E identifier policy) (\<lambda>_.
     if \<not> verify_password E current_password (Some (u_password_hash user)) then
       bnd (hit E (policy_key policy identifier) (window_seconds policy)) (\<lambda>_.
       raise (ProblemError (Problem 400 ''invalid-current-password'' title CURRENT_PASSWORD_INVALID)))
     else skip))"

definition reset_current_password :: "'r env \<Rightarrow> settings \<Rightarrow> user \<Rightarrow> ('r, unit) op" where
  "reset_current_password E S user =
     reset_marks E (policy_key (current_password_policy S) (uuid_str (u_id user)))"

section \<open>Changing it\<close>

definition SAME_PASSWORD :: string where
  "SAME_PASSWORD = (''La contrase'' @ [CHR 0xF1] @ ''a nueva tiene que ser distinta de la actual'')"

definition CHANGE_FAILED_TITLE :: string where
  "CHANGE_FAILED_TITLE = (''No se pudo cambiar la contrase'' @ [CHR 0xF1] @ ''a'')"

definition password_unchanged :: problem where
  "password_unchanged = Problem 400 ''password-unchanged'' CHANGE_FAILED_TITLE SAME_PASSWORD"

definition change_password :: "'r env \<Rightarrow> settings \<Rightarrow> user \<Rightarrow> string \<Rightarrow> string \<Rightarrow> ('r, unit) op" where
  "change_password E S user current_password new_password =
     bnd (verify_current_password E S user current_password CHANGE_FAILED_TITLE) (\<lambda>_.
     if verify_password E new_password (Some (u_password_hash user)) then
       raise (ProblemError password_unchanged)
     else
       bnd (hash_password E new_password) (\<lambda>password_hash.
       let user = user\<lparr>u_password_hash := password_hash, u_must_change_password := False,
                      u_temporary_password_expires_at := None\<rparr> in
       bnd (users_save user) (\<lambda>_.
       bnd (reset_current_password E S user) (\<lambda>_.
       bnd (now_utc E) (\<lambda>now.
       bnd (revoke_sessions E (u_id user) now (access_token_minutes S * 60)) (\<lambda>_.
       bnd (refresh_tokens_revoke_all (u_id user) now) (\<lambda>_.
       bnd (password_changed E user now) (\<lambda>event.
       outbox_add event))))))))"

section \<open>Resetting it\<close>

definition RESET_LINK_INVALID :: string where
  "RESET_LINK_INVALID = (''El link de recuperaci'' @ [CHR 0xF3] @ ''n es inv'' @ [CHR 0xE1] @ ''lido o expir'' @ [CHR 0xF3] @ ''. Ped'' @ [CHR 0xED] @ '' uno nuevo'')"

definition reset_request_key :: "string \<Rightarrow> string" where
  "reset_request_key identifier = ''reset:requested:'' @ py_lower (py_strip identifier)"

definition too_many_reset_requests :: "settings \<Rightarrow> problem" where
  "too_many_reset_requests S =
     \<lparr> p_status = 429, p_code = ''too-many-reset-requests'', p_title = ''Demasiados pedidos'',
       p_detail = (''Se pidieron demasiados links de recuperaci'' @ [CHR 0xF3] @ ''n. Esper'' @ [CHR 0xE1] @ '' '') @
         py_str_int (password_reset_window_minutes S) @ '' minutos'',
       p_headers = [(''Retry-After'', py_str_int (password_reset_window_minutes S * 60))] \<rparr>"

definition guard_reset_limit :: "'r env \<Rightarrow> settings \<Rightarrow> string \<Rightarrow> ('r, unit) op" where
  "guard_reset_limit E S identifier =
     bnd (hit E (reset_request_key identifier) (password_reset_window_minutes S * 60)) (\<lambda>requests.
     if requests > password_reset_max_requests S then
       raise (ProblemError (too_many_reset_requests S))
     else skip)"

definition forgot_password :: "'r env \<Rightarrow> settings \<Rightarrow> string \<Rightarrow> ('r, unit) op" where
  "forgot_password E S identifier =
     bnd (guard_reset_limit E S identifier) (\<lambda>_.
     bnd (users_find_by_identifier (py_lower (py_strip identifier))) (\<lambda>found.
     case found of
       None \<Rightarrow> skip
     | Some user \<Rightarrow>
         if \<not> can_log_in user then skip
         else
           bnd (now_utc E) (\<lambda>now.
           bnd (generate_emailed_token E) (\<lambda>raw_token.
           bnd (reset_tokens_add E
                  \<lparr> prt_user_id = u_id user, prt_token_hash = hash_token E raw_token,
                    prt_expires_at = now + minutes (password_reset_minutes S),
                    prt_id = None, prt_used_at = None \<rparr>) (\<lambda>_.
           bnd (password_reset_requested E user raw_token now) (\<lambda>event.
           outbox_add event))))))"

definition reset_token_invalid :: problem where
  "reset_token_invalid = Problem 400 ''reset-token-invalid'' CHANGE_FAILED_TITLE RESET_LINK_INVALID"

definition reset_password :: "'r env \<Rightarrow> settings \<Rightarrow> string \<Rightarrow> string \<Rightarrow> ('r, user) op" where
  "reset_password E S raw_token new_password =
     bnd (now_utc E) (\<lambda>now.
     bnd (reset_tokens_find_by_hash (hash_token E raw_token)) (\<lambda>token.
     case token of
       None \<Rightarrow> raise (ProblemError reset_token_invalid)
     | Some t \<Rightarrow>
         if \<not> prt_is_usable t now then raise (ProblemError reset_token_invalid)
         else
           bnd (users_get (prt_user_id t)) (\<lambda>found.
           bnd (not_none found) (\<lambda>user.
           if verify_password E new_password (Some (u_password_hash user)) then
             raise (ProblemError password_unchanged)
           else
             bnd (hash_password E new_password) (\<lambda>password_hash.
             let user = user\<lparr>u_password_hash := password_hash\<rparr> in
             bnd (users_save user) (\<lambda>_.
             bnd (reset_tokens_mark_all_used (u_id user) now) (\<lambda>_.
             bnd (revoke_sessions E (u_id user) now (access_token_minutes S * 60)) (\<lambda>_.
             bnd (refresh_tokens_revoke_all (u_id user) now) (\<lambda>_.
             ret user)))))))))"

end
