(* ===== verification/Account_Services.thy ===== *)
theory Account_Services
  imports Password_Services
begin

text \<open>
  The life of an account after it exists: closing it (\<open>account_deletion.py\<close>), blocking it
  (\<open>account_block.py\<close>), putting it under review (\<open>account_review.py\<close>), and what the backoffice
  (\<open>audit.py\<close>, \<open>admins.py\<close>, \<open>admin_user_accounts.py\<close>, \<open>metrics.py\<close>) and its owner
  (\<open>profile.py\<close>, \<open>preferences.py\<close>, \<open>feedback.py\<close>) do with it.
\<close>

section \<open>Closing an account\<close>

definition DELETION_FAILED_TITLE :: string where
  "DELETION_FAILED_TITLE = ''No se pudo dar de baja la cuenta''"

definition administrator_cannot_delete_account :: problem where
  "administrator_cannot_delete_account =
     Problem 403 ''administrator-cannot-delete-account'' DELETION_FAILED_TITLE
       ''Las cuentas de administrador no se dan de baja desde la app''"

definition delete_account :: "'r env \<Rightarrow> settings \<Rightarrow> user \<Rightarrow> string \<Rightarrow> ('r, unit) op" where
  "delete_account E S user current_password =
     (if is_administrator user then raise (ProblemError administrator_cannot_delete_account)
      else
        bnd (verify_current_password E S user current_password DELETION_FAILED_TITLE) (\<lambda>_.
        bnd (now_utc E) (\<lambda>now.
        let user = user\<lparr>u_deleted_at := Some now\<rparr> in
        bnd (users_save user) (\<lambda>_.
        bnd (user_deleted E user now) (\<lambda>event.
        bnd (outbox_add event) (\<lambda>_.
        bnd (revoke_sessions E (u_id user) now (access_token_minutes S * 60)) (\<lambda>_.
        refresh_tokens_revoke_all (u_id user) now)))))))"

section \<open>The audit log\<close>

definition administrator_not_found :: problem where
  "administrator_not_found = Problem 404 ''administrator-not-found''
     (''No se encontr'' @ [CHR 0xF3] @ '' al administrador'') ''La cuenta no existe''"

definition audit_administrator :: "uuid \<Rightarrow> ('r, user) op" where
  "audit_administrator actor_id =
     bnd (users_get actor_id) (\<lambda>found.
     case found of
       None \<Rightarrow> raise (ProblemError administrator_not_found)
     | Some actor \<Rightarrow>
         if \<not> is_administrator actor \<or> u_deleted_at actor \<noteq> None then
           raise (ProblemError administrator_not_found)
         else ret actor)"

definition audit_record ::
  "'r env \<Rightarrow> uuid \<Rightarrow> string \<Rightarrow> string \<Rightarrow> uuid \<Rightarrow> (string \<times> json_value) list \<Rightarrow> ('r, unit) op" where
  "audit_record E actor_id action target_type target_id details =
     bnd (audit_administrator actor_id) (\<lambda>actor.
     bnd (uuid4 E) (\<lambda>i.
     bnd (now_utc E) (\<lambda>now.
     audit_add
       \<lparr> ae_id = i, ae_occurred_at = now, ae_actor_id = u_id actor, ae_actor_email = u_email actor,
         ae_action = action, ae_target_type = target_type, ae_target_id = target_id,
         ae_details = details \<rparr>)))"

section \<open>Blocking an account\<close>

definition USER_BLOCKED :: string where "USER_BLOCKED = ''user.blocked''"

definition BLOCK_FAILED_TITLE :: string where
  "BLOCK_FAILED_TITLE = ''No se pudo bloquear la cuenta''"

definition account_not_found :: "string \<Rightarrow> problem" where
  "account_not_found title = Problem 404 ''account-not-found'' title ''La cuenta no existe''"

definition block :: "'r env \<Rightarrow> settings \<Rightarrow> user \<Rightarrow> uuid \<Rightarrow> string \<Rightarrow> ('r, unit) op" where
  "block E S administrator user_id reason =
     bnd (users_get user_id) (\<lambda>found.
     case found of
       None \<Rightarrow> raise (ProblemError (account_not_found BLOCK_FAILED_TITLE))
     | Some user \<Rightarrow>
         if u_deleted_at user \<noteq> None then raise (ProblemError (account_not_found BLOCK_FAILED_TITLE))
         else if is_administrator user then
           raise (ProblemError (Problem 422 ''administrator-cannot-be-blocked'' BLOCK_FAILED_TITLE
             ''Las cuentas de administradores no se bloquean''))
         else if u_status user = SUSPENDED then skip
         else
           bnd (now_utc E) (\<lambda>now.
           let user = change_status SUSPENDED now (Some reason) user in
           bnd (users_save user) (\<lambda>_.
           bnd (audit_record E (u_id administrator) USER_BLOCKED ''user'' (u_id user)
                  [(''reason'', JText reason)]) (\<lambda>_.
           bnd (refresh_tokens_revoke_all (u_id user) now) (\<lambda>_.
           revoke_sessions E (u_id user) now (access_token_minutes S * 60))))))"

section \<open>Putting an account under review\<close>

definition put_under_review :: "'r env \<Rightarrow> settings \<Rightarrow> uuid \<Rightarrow> ('r, unit) op" where
  "put_under_review E S user_id =
     bnd (users_get user_id) (\<lambda>found.
     case found of
       None \<Rightarrow> raise (ProblemError (account_not_found (''No se pudo poner la cuenta en revisi'' @ [CHR 0xF3] @ ''n'')))
     | Some user \<Rightarrow>
         if u_status user \<noteq> ACTIVE then skip
         else
           bnd (now_utc E) (\<lambda>now.
           let user = change_status UNDER_REVIEW now None user in
           bnd (users_save user) (\<lambda>_.
           bnd (revoke_sessions E (u_id user) now (access_token_minutes S * 60)) (\<lambda>_.
           refresh_tokens_revoke_all (u_id user) now))))"

definition lift_review :: "'r env \<Rightarrow> uuid \<Rightarrow> ('r, unit) op" where
  "lift_review E user_id =
     bnd (users_get user_id) (\<lambda>found.
     case found of
       None \<Rightarrow> raise (ProblemError (account_not_found (''No se pudo levantar la revisi'' @ [CHR 0xF3] @ ''n'')))
     | Some user \<Rightarrow>
         if u_status user \<noteq> UNDER_REVIEW then skip
         else
           bnd (now_utc E) (\<lambda>now.
           users_save (change_status ACTIVE now None user)))"

section \<open>Administrators\<close>

definition TEMPORARY_PASSWORD_HOURS :: int where
  "TEMPORARY_PASSWORD_HOURS = 24"

definition ensure_superadmin :: "'r env \<Rightarrow> string \<Rightarrow> string \<Rightarrow> string \<Rightarrow> ('r, user option) op" where
  "ensure_superadmin E email handle password =
     (let normalised_email = py_lower (py_strip email) in
     bnd (users_find_by_email normalised_email) (\<lambda>found.
     if found \<noteq> None then ret None
     else
       bnd (now_utc E) (\<lambda>now.
       bnd (hash_password E password) (\<lambda>password_hash.
       bnd (users_add E
              ((User normalised_email (py_lower (py_strip handle)) password_hash)
                 \<lparr>u_role := SUPERADMIN, u_is_email_verified := True, u_terms_accepted := True,
                  u_terms_accepted_at := Some now\<rparr>)) (\<lambda>user.
       ret (Some user))))))"

definition authorized_domain :: "settings \<Rightarrow> string" where
  "authorized_domain S =
     py_lstrip_by (\<lambda>c. c = CHR ''@'') (py_lower (py_strip (administrator_email_domain S)))"

definition deny_email_outside_the_authorized_domain :: "settings \<Rightarrow> string \<Rightarrow> ('r, unit) op" where
  "deny_email_outside_the_authorized_domain S email =
     (let domain = authorized_domain S in
      if domain \<noteq> [] \<and> \<not> py_endswith email (''@'' @ domain) then
        raise (ProblemError (Problem 400 ''email-domain-not-allowed'' ''No se pudo crear la cuenta''
          (''El correo de un administrador tiene que ser del dominio @'' @ domain)))
      else skip)"

definition create_administrator ::
  "'r env \<Rightarrow> settings \<Rightarrow> uuid \<Rightarrow> string \<Rightarrow> string \<Rightarrow> role \<Rightarrow> ('r, user \<times> string) op" where
  "create_administrator E S actor_id email handle role =
     (let normalised_email = py_lower (py_strip email);
          normalised_handle = py_lower (py_strip handle) in
     bnd (deny_email_outside_the_authorized_domain S normalised_email) (\<lambda>_.
     bnd (users_exists_with_email_or_handle normalised_email normalised_handle) (\<lambda>taken.
     if taken then raise (ProblemError account_already_exists)
     else
       bnd (generate_temporary_password E) (\<lambda>temporary_password.
       bnd (now_utc E) (\<lambda>now.
       bnd (hash_password E temporary_password) (\<lambda>password_hash.
       bnd (users_add E
              ((User normalised_email normalised_handle password_hash)
                 \<lparr>u_role := role, u_must_change_password := True,
                  u_temporary_password_expires_at := Some (now + hours TEMPORARY_PASSWORD_HOURS),
                  u_is_email_verified := True, u_terms_accepted := True,
                  u_terms_accepted_at := Some now\<rparr>)) (\<lambda>user.
       bnd (audit_record E actor_id ''admin.created'' ''user'' (u_id user)
              [(''email'', JText (u_email user))]) (\<lambda>_.
       ret (user, temporary_password)))))))))"

definition REGENERATION_FAILED_TITLE :: string where
  "REGENERATION_FAILED_TITLE = (''No se pudo regenerar la contrase'' @ [CHR 0xF1] @ ''a'')"

definition reset_temporary_password ::
  "'r env \<Rightarrow> uuid \<Rightarrow> uuid \<Rightarrow> ('r, user \<times> string) op" where
  "reset_temporary_password E user_id actor_id =
     bnd (users_get user_id) (\<lambda>found.
     case found of
       None \<Rightarrow> raise (ProblemError (account_not_found REGENERATION_FAILED_TITLE))
     | Some user \<Rightarrow>
         if \<not> u_must_change_password user then
           raise (ProblemError (Problem 409 ''password-already-chosen'' REGENERATION_FAILED_TITLE
             (''La cuenta ya eligi'' @ [CHR 0xF3] @ '' su propia contrase'' @ [CHR 0xF1] @ ''a'')))
         else
           bnd (generate_temporary_password E) (\<lambda>temporary_password.
           bnd (hash_password E temporary_password) (\<lambda>password_hash.
           bnd (now_utc E) (\<lambda>now.
           let user = user\<lparr>u_password_hash := password_hash,
                  u_temporary_password_expires_at := Some (now + hours TEMPORARY_PASSWORD_HOURS)\<rparr> in
           bnd (users_save user) (\<lambda>_.
           bnd (audit_record E actor_id ''admin.temporary_password_reset'' ''user'' (u_id user) []) (\<lambda>_.
           ret (user, temporary_password)))))))"

definition list_administrators :: "('r, user list) op" where
  "list_administrators = users_list_administrators"

section \<open>App accounts in the backoffice\<close>

definition account_detail :: "uuid \<Rightarrow> ('r, user) op" where
  "account_detail user_id =
     bnd (users_get user_id) (\<lambda>found.
     case found of
       None \<Rightarrow> raise (ProblemError (account_not_found (''No se encontr'' @ [CHR 0xF3] @ '' la cuenta'')))
     | Some user \<Rightarrow>
         if u_deleted_at user \<noteq> None \<or> is_administrator user then
           raise (ProblemError (account_not_found (''No se encontr'' @ [CHR 0xF3] @ '' la cuenta'')))
         else ret user)"

record account_counts =
  am_active_users :: nat
  am_accounts_under_review :: nat

definition account_metrics :: "('r, account_counts) op" where
  "account_metrics =
     bnd (users_count ACTIVE) (\<lambda>active.
     bnd (users_count UNDER_REVIEW) (\<lambda>under_review.
     ret \<lparr> am_active_users = active, am_accounts_under_review = under_review \<rparr>))"

section \<open>Profile and preferences\<close>

text \<open>
  \<open>changes\<close> is a dictionary with the fields the caller sent: a field of these records is \<open>None\<close>
  when its key is absent. A biography may be sent as \<open>null\<close>.
\<close>

record profile_changes =
  pc_display_name :: "string option"
  pc_bio :: "string option option"

definition update_profile :: "user \<Rightarrow> profile_changes \<Rightarrow> ('r, user) op" where
  "update_profile user changes =
     (let user = (case pc_display_name changes of None \<Rightarrow> user
                  | Some v \<Rightarrow> user\<lparr>u_display_name := Some v\<rparr>);
          user = (case pc_bio changes of None \<Rightarrow> user | Some v \<Rightarrow> user\<lparr>u_bio := v\<rparr>) in
     bnd (users_save user) (\<lambda>_. ret user))"

definition public_profile :: "uuid \<Rightarrow> ('r, user) op" where
  "public_profile user_id =
     bnd (users_get user_id) (\<lambda>found.
     case found of
       None \<Rightarrow> raise (ProblemError (account_not_found (''No se encontr'' @ [CHR 0xF3] @ '' la cuenta'')))
     | Some user \<Rightarrow>
         if u_deleted_at user \<noteq> None then
           raise (ProblemError (account_not_found (''No se encontr'' @ [CHR 0xF3] @ '' la cuenta'')))
         else ret user)"

record preference_changes =
  pc_profile_visibility :: "profile_visibility option"
  pc_feed_language :: "feed_language option"

definition update_preferences :: "'r env \<Rightarrow> user \<Rightarrow> preference_changes \<Rightarrow> ('r, user) op" where
  "update_preferences E user changes =
     (let previous_language = u_feed_language user;
          user = (case pc_profile_visibility changes of None \<Rightarrow> user
                  | Some v \<Rightarrow> user\<lparr>u_profile_visibility := v\<rparr>);
          user = (case pc_feed_language changes of None \<Rightarrow> user
                  | Some v \<Rightarrow> user\<lparr>u_feed_language := v\<rparr>) in
     bnd (users_save user) (\<lambda>_.
     if u_feed_language user \<noteq> previous_language then
       bnd (now_utc E) (\<lambda>now.
       bnd (preferences_changed E user now) (\<lambda>event.
       bnd (outbox_add event) (\<lambda>_. ret user)))
     else ret user))"

section \<open>Feedback\<close>

definition MAX_MESSAGES :: int where "MAX_MESSAGES = 2"
definition WINDOW_MINUTES :: int where "WINDOW_MINUTES = 60"

definition feedback_limit_key :: "uuid \<Rightarrow> string" where
  "feedback_limit_key user_id = ''feedback:sent:'' @ uuid_str user_id"

definition too_many_feedback_messages :: problem where
  "too_many_feedback_messages =
     \<lparr> p_status = 429, p_code = ''too-many-feedback-messages'', p_title = ''Demasiados mensajes'',
       p_detail = ''Ya enviaste '' @ py_str_int MAX_MESSAGES @ ('' mensajes. Esper'' @ [CHR 0xE1] @ '' '') @
         py_str_int WINDOW_MINUTES @ '' minutos'',
       p_headers = [(''Retry-After'', py_str_int (WINDOW_MINUTES * 60))] \<rparr>"

definition guard_limit :: "'r env \<Rightarrow> user \<Rightarrow> ('r, unit) op" where
  "guard_limit E user =
     bnd (hit E (feedback_limit_key (u_id user)) (WINDOW_MINUTES * 60)) (\<lambda>sent.
     if sent > MAX_MESSAGES then raise (ProblemError too_many_feedback_messages) else skip)"

definition submit :: "'r env \<Rightarrow> user \<Rightarrow> string \<Rightarrow> string \<Rightarrow> string \<Rightarrow> ('r, feedback) op" where
  "submit E user message device_os app_version =
     bnd (guard_limit E user) (\<lambda>_.
     bnd (uuid4 E) (\<lambda>i.
     bnd (now_utc E) (\<lambda>now.
     let feedback = \<lparr> fb_id = i, fb_user_id = u_id user, fb_handle = u_handle user,
           fb_message = message, fb_device_os = device_os, fb_app_version = app_version,
           fb_created_at = now \<rparr> in
     bnd (feedback_add feedback) (\<lambda>_.
     bnd (feedback_submitted E feedback) (\<lambda>event.
     bnd (outbox_add event) (\<lambda>_.
     ret feedback))))))"

end
