(* ===== verification/Schemas.thy ===== *)
theory Schemas
  imports Account_Services
begin

text \<open>
  The request schemas of \<open>api/schemas/*.py\<close>: one definition per model, from the decoded fields of the
  body to the validated values, or \<open>None\<close> where pydantic refuses the request. Several fields may
  fail at once; the answer is one 422 whatever their number, so a schema is the conjunction of its
  fields' checks. \<open>EmailStr\<close> is the environment's address check.
\<close>

section \<open>Handles and passwords\<close>

definition handle_char :: "char \<Rightarrow> bool" where
  "handle_char c = (let n = (of_char c :: nat) in
     (97 \<le> n \<and> n \<le> 122) \<or> (65 \<le> n \<and> n \<le> 90) \<or> (48 \<le> n \<and> n \<le> 57) \<or> n = 95)"

definition handle_body :: "string \<Rightarrow> bool" where
  "handle_body s \<longleftrightarrow> s \<noteq> [] \<and> hd s = CHR ''@'' \<and> (\<forall>c \<in> set (tl s). handle_char c) \<and>
     4 \<le> length (tl s) \<and> length (tl s) \<le> 15"

text \<open>
  \<open>HANDLE_PATTERN.match\<close> of \<open>^@[a-zA-Z0-9_]{4,15}$\<close>: in Python \<open>$\<close> also matches before a line
  feed that ends the string.
\<close>

definition HANDLE_PATTERN_match :: "string \<Rightarrow> bool" where
  "HANDLE_PATTERN_match s \<longleftrightarrow>
     handle_body s \<or> (s \<noteq> [] \<and> last s = CHR 0x0A \<and> handle_body (butlast s))"

definition PASSWORD_MIN_LENGTH :: nat where "PASSWORD_MIN_LENGTH = 8"

definition enforce_password_policy :: "string \<Rightarrow> string option" where
  "enforce_password_policy value =
     (if \<not> (\<exists>c \<in> set value. py_isupper c) then None
      else if \<not> (\<exists>c \<in> set value. py_isdigit c) then None
      else Some value)"

definition password_field :: "string \<Rightarrow> string option" where
  "password_field value =
     (if length value < PASSWORD_MIN_LENGTH then None else enforce_password_policy value)"

text \<open>\<open>password\<close> is the validated field, absent from \<open>info.data\<close> when it broke its own rules.\<close>

definition enforce_confirmation_matches :: "string \<Rightarrow> string option \<Rightarrow> string option" where
  "enforce_confirmation_matches value password =
     (case password of Some p \<Rightarrow> if value \<noteq> p then None else Some value | None \<Rightarrow> Some value)"

definition confirmed_password :: "string \<Rightarrow> string \<Rightarrow> string option" where
  "confirmed_password password password_confirmation =
     (let validated = password_field password;
          confirmed = (if password_confirmation = [] then None
                       else enforce_confirmation_matches password_confirmation validated)
      in if confirmed = None then None else validated)"

text \<open>The current password is only required not to be empty; the new one follows the policy and its confirmation.\<close>

definition ChangePasswordRequest :: "string \<Rightarrow> string \<Rightarrow> string \<Rightarrow> (string \<times> string) option" where
  "ChangePasswordRequest current_password password password_confirmation =
     (if current_password = [] then None
      else map_option (\<lambda>p. (current_password, p)) (confirmed_password password password_confirmation))"

definition enforce_handle_format :: "string \<Rightarrow> string option" where
  "enforce_handle_format value =
     (if \<not> HANDLE_PATTERN_match value then None else Some (py_lower value))"

definition handle_field :: "string \<Rightarrow> string option" where
  "handle_field value =
     (if 5 \<le> length value \<and> length value \<le> 16 then enforce_handle_format value else None)"

section \<open>Accounts\<close>

definition RegisterRequest ::
  "'r env \<Rightarrow> string \<Rightarrow> string \<Rightarrow> string \<Rightarrow> bool \<Rightarrow> (string \<times> string \<times> string) option" where
  "RegisterRequest E email handle password terms_accepted =
     (case (e_validate_email E email, handle_field handle, password_field password) of
        (Some e, Some h, Some p) \<Rightarrow> if terms_accepted then Some (e, h, p) else None
      | _ \<Rightarrow> None)"

definition CreateAdministratorRequest ::
  "'r env \<Rightarrow> string \<Rightarrow> string \<Rightarrow> string \<Rightarrow> (string \<times> string \<times> string) option" where
  "CreateAdministratorRequest E email handle role =
     (case (e_validate_email E email, handle_field handle) of
        (Some e, Some h) \<Rightarrow>
          if role \<in> set [''moderator'', ''superadmin''] then Some (e, h, role) else None
      | _ \<Rightarrow> None)"

definition required_text :: "string \<Rightarrow> string option" where
  "required_text value = (if value = [] then None else Some value)"

definition BLOCK_REASON_MAX_LENGTH :: nat where "BLOCK_REASON_MAX_LENGTH = 500"

definition BlockAccountRequest :: "string \<Rightarrow> string option" where
  "BlockAccountRequest reason =
     (let reason = py_strip reason in
      if 1 \<le> length reason \<and> length reason \<le> BLOCK_REASON_MAX_LENGTH then Some reason else None)"

section \<open>Feedback\<close>

definition MESSAGE_MAX_LENGTH :: nat where "MESSAGE_MAX_LENGTH = 500"
definition DEVICE_OS_MAX_LENGTH :: nat where "DEVICE_OS_MAX_LENGTH = 64"
definition APP_VERSION_MAX_LENGTH :: nat where "APP_VERSION_MAX_LENGTH = 32"

text \<open>pydantic's regular expressions are Rust's, where \<open>$\<close> is the end of the text only.\<close>

definition SINGLE_LINE :: "string \<Rightarrow> bool" where
  "SINGLE_LINE s \<longleftrightarrow> s \<noteq> [] \<and> (\<forall>c \<in> set s. 31 < (of_char c :: nat) \<and> (of_char c :: nat) \<noteq> 127)"

definition SubmitFeedbackRequest ::
  "string \<Rightarrow> string \<Rightarrow> string \<Rightarrow> (string \<times> string \<times> string) option" where
  "SubmitFeedbackRequest message device_os app_version =
     (let stripped = py_strip message in
      if length message \<le> MESSAGE_MAX_LENGTH \<and> stripped \<noteq> [] \<and>
         1 \<le> length device_os \<and> length device_os \<le> DEVICE_OS_MAX_LENGTH \<and> SINGLE_LINE device_os \<and>
         1 \<le> length app_version \<and> length app_version \<le> APP_VERSION_MAX_LENGTH \<and> SINGLE_LINE app_version
      then Some (stripped, device_os, app_version) else None)"

section \<open>Profile and preferences\<close>

text \<open>
  The body of a partial update: a field is \<open>None\<close> when its key is absent and \<open>Some None\<close> when it is
  \<open>null\<close>; \<open>extra\<close> lists the keys that are not fields of the model, which \<open>extra="forbid"\<close> refuses.
\<close>

record profile_body =
  pb_display_name :: "string option option"
  pb_bio :: "string option option"
  pb_extra :: "string list"

definition DISPLAY_NAME_MAX_LENGTH :: nat where "DISPLAY_NAME_MAX_LENGTH = 50"
definition BIO_MAX_LENGTH :: nat where "BIO_MAX_LENGTH = 160"

definition sanitize_text :: "'r env \<Rightarrow> string \<Rightarrow> string" where
  "sanitize_text E value = py_strip (e_nh3_clean E value)"

text \<open>The outer \<open>None\<close> is a refusal, the inner one an absent key.\<close>

definition display_name_field :: "'r env \<Rightarrow> string option option \<Rightarrow> string option option" where
  "display_name_field E value =
     (case value of
        None \<Rightarrow> Some None
      | Some None \<Rightarrow> None
      | Some (Some v) \<Rightarrow>
          let cleaned = sanitize_text E v in
          if length v > DISPLAY_NAME_MAX_LENGTH \<or> cleaned = [] then None else Some (Some cleaned))"

definition bio_field :: "'r env \<Rightarrow> string option option \<Rightarrow> string option option option" where
  "bio_field E value =
     (case value of
        None \<Rightarrow> Some None
      | Some None \<Rightarrow> Some (Some None)
      | Some (Some v) \<Rightarrow>
          if length v > BIO_MAX_LENGTH then None else Some (Some (Some (sanitize_text E v))))"

definition UpdateProfileRequest :: "'r env \<Rightarrow> profile_body \<Rightarrow> profile_changes option" where
  "UpdateProfileRequest E body =
     (case (display_name_field E (pb_display_name body), bio_field E (pb_bio body)) of
        (Some name, Some bio) \<Rightarrow>
          if pb_extra body = [] then Some \<lparr> pc_display_name = name, pc_bio = bio \<rparr> else None
      | _ \<Rightarrow> None)"

record preferences_body =
  prb_profile_visibility :: "string option option"
  prb_feed_language :: "string option option"
  prb_extra :: "string list"

definition enum_field :: "(string \<Rightarrow> 'a option) \<Rightarrow> string option option \<Rightarrow> 'a option option" where
  "enum_field enum value =
     (case value of
        None \<Rightarrow> Some None
      | Some None \<Rightarrow> None
      | Some (Some v) \<Rightarrow> (case enum v of None \<Rightarrow> None | Some x \<Rightarrow> Some (Some x)))"

definition UpdatePreferencesRequest :: "preferences_body \<Rightarrow> preference_changes option" where
  "UpdatePreferencesRequest body =
     (case (enum_field ProfileVisibility (prb_profile_visibility body),
            enum_field FeedLanguage (prb_feed_language body)) of
        (Some visibility, Some language) \<Rightarrow>
          if prb_extra body = [] then
            Some \<lparr> pc_profile_visibility = visibility, pc_feed_language = language \<rparr>
          else None
      | _ \<Rightarrow> None)"

section \<open>What the schemas guarantee\<close>

lemma handle_char_lower:
  assumes "handle_char c"
  shows "handle_char (py_lower_char c) \<and> \<not> py_isspace c"
proof -
  have "handle_char (py_lower_char c)"
    using assms of_char_lower [of c]
    by (auto simp: handle_char_def py_isupper_def Let_def split: if_splits)
  moreover have "\<not> py_isspace c"
    using assms by (auto simp: handle_char_def py_isspace_def Let_def)
  ultimately show ?thesis by simp
qed

lemma handle_body_nospace: "handle_body s \<Longrightarrow> c \<in> set s \<Longrightarrow> \<not> py_isspace c"
  using handle_char_lower by (cases s) (auto simp: handle_body_def py_isspace_def)

lemma lower_at [simp]: "py_lower_char (CHR ''@'') = CHR ''@''"
  by (simp add: py_lower_char_def py_isupper_def)

lemma handle_body_lower: "handle_body s \<Longrightarrow> handle_body (py_lower s)"
  using handle_char_lower by (cases s) (auto simp: handle_body_def py_lower_def)

lemma strip_nospace: "\<forall>c \<in> set s. \<not> py_isspace c \<Longrightarrow> py_strip s = s"
  by (simp add: py_strip_def strip_by_nothing)

lemma strip_trailing:
  assumes "py_isspace c" and "\<forall>x \<in> set s. \<not> py_isspace x"
  shows "py_strip (s @ [c]) = s"
proof (cases s)
  case Nil
  then show ?thesis using assms by (simp add: py_strip_def py_strip_by_def)
next
  case (Cons x xs)
  then have "dropWhile py_isspace (s @ [c]) = s @ [c]" using assms(2) by simp
  moreover have "dropWhile py_isspace (rev s) = rev s"
    using assms(2) by (metis dropWhile_eq_self_iff hd_in_set set_rev)
  ultimately show ?thesis using assms(1) by (simp add: py_strip_def py_strip_by_def)
qed

lemma accepted_handle_stored:
  assumes "handle_field value = Some h"
  shows "handle_body (py_lower (py_strip h)) \<and> py_lower (py_strip h) = py_lower (py_strip value)"
proof -
  have m: "HANDLE_PATTERN_match value" and h: "h = py_lower value"
    using assms by (auto simp: handle_field_def enforce_handle_format_def split: if_splits)
  have same: "py_lower (py_strip h) = py_lower (py_strip value)"
    by (simp add: h lower_strip)
  from m consider "handle_body value" | b where "value = b @ [CHR 0x0A]" "handle_body b"
    unfolding HANDLE_PATTERN_match_def by (metis append_butlast_last_id)
  then have "handle_body (py_strip value)"
  proof cases
    case 1
    then show ?thesis using handle_body_nospace strip_nospace by (metis (no_types, lifting))
  next
    case 2
    have "py_isspace (CHR 0x0A)" by (simp add: py_isspace_def)
    with 2 show ?thesis using strip_trailing [of "CHR 0x0A" b] handle_body_nospace by auto
  qed
  with same show ?thesis using handle_body_lower by simp
qed

end
