(* ===== verification/Calendar.thy ===== *)
theory Calendar
  imports Prelude
begin

text \<open>
  Python's \<open>datetime\<close> for aware instants, as far as the cursors of the searches use it: the proleptic
  Gregorian calendar of \<open>date.fromordinal\<close> and \<open>date.toordinal\<close>, \<open>isoformat()\<close> of an instant in UTC, and
  \<open>fromisoformat\<close> of a calendar date, a separator and a time with an offset. The week dates and the
  forms without dashes and colons, which \<open>fromisoformat\<close> also reads, are not recognised here.
\<close>

section \<open>Days\<close>

definition is_leap :: "int \<Rightarrow> bool" where
  "is_leap y \<longleftrightarrow> y mod 4 = 0 \<and> (y mod 100 \<noteq> 0 \<or> y mod 400 = 0)"

definition days_before_year :: "int \<Rightarrow> int" where
  "days_before_year y = (let p = y - 1 in p * 365 + p div 4 - p div 100 + p div 400)"

definition DAYS_BEFORE_MONTH :: "int list" where
  "DAYS_BEFORE_MONTH = [0, 31, 59, 90, 120, 151, 181, 212, 243, 273, 304, 334]"

definition DAYS_IN_MONTH :: "int list" where
  "DAYS_IN_MONTH = [31, 28, 31, 30, 31, 30, 31, 31, 30, 31, 30, 31]"

definition days_before_month :: "bool \<Rightarrow> int \<Rightarrow> int" where
  "days_before_month leap m = DAYS_BEFORE_MONTH ! nat (m - 1) + (if 2 < m \<and> leap then 1 else 0)"

definition days_in_month :: "bool \<Rightarrow> int \<Rightarrow> int" where
  "days_in_month leap m = (if m = 2 \<and> leap then 29 else DAYS_IN_MONTH ! nat (m - 1))"

definition ymd2ord :: "int \<Rightarrow> int \<Rightarrow> int \<Rightarrow> int" where
  "ymd2ord y m d = days_before_year y + days_before_month (is_leap y) m + d"

text \<open>The month and day of the day number \<open>n\<close> of a year, counted from 0.\<close>

definition month_day :: "bool \<Rightarrow> int \<Rightarrow> int \<times> int" where
  "month_day leap n =
     (let month = (n + 50) div 32 in
      if days_before_month leap month > n
      then (month - 1, n - days_before_month leap (month - 1) + 1)
      else (month, n - days_before_month leap month + 1))"

definition ord2ymd :: "int \<Rightarrow> int \<times> int \<times> int" where
  "ord2ymd ordinal =
     (let n = ordinal - 1;
          n400 = n div 146097; n = n mod 146097;
          n100 = n div 36524; n = n mod 36524;
          n4 = n div 1461; n = n mod 1461;
          n1 = n div 365; n = n mod 365;
          year = n400 * 400 + 1 + n100 * 100 + n4 * 4 + n1 in
      if n1 = 4 \<or> n100 = 4 then (year - 1, 12, 31)
      else (year, month_day (n1 = 3 \<and> (n4 \<noteq> 24 \<or> n100 = 3)) n))"

definition valid_date :: "int \<Rightarrow> int \<Rightarrow> int \<Rightarrow> bool" where
  "valid_date y m d \<longleftrightarrow> 1 \<le> y \<and> y \<le> 9999 \<and> 1 \<le> m \<and> m \<le> 12 \<and> 1 \<le> d \<and> d \<le> days_in_month (is_leap y) m"

lemma month_day_table:
  "\<forall>leap \<in> set [False, True]. \<forall>n \<in> set [0..365]. n < (if leap then 366 else 365) \<longrightarrow>
     (case month_day leap n of (m, d) \<Rightarrow>
        1 \<le> m \<and> m \<le> 12 \<and> 1 \<le> d \<and> d \<le> days_in_month leap m \<and> days_before_month leap m + d = n + 1)"
  by code_simp

lemma month_day:
  assumes "0 \<le> n" and "n < (if leap then 366 else 365)"
  shows "case month_day leap n of (m, d) \<Rightarrow>
    1 \<le> m \<and> m \<le> 12 \<and> 1 \<le> d \<and> d \<le> days_in_month leap m \<and> days_before_month leap m + d = n + 1"
  using month_day_table assms by (cases leap) auto

text \<open>The years of a position in the cycles of 400, 100, 4 and 1 years.\<close>

lemma year_divs:
  fixes a b c e :: int
  assumes "0 \<le> b" "b \<le> 3" "0 \<le> c" "c \<le> 24" "0 \<le> e" "e \<le> 3"
  shows "(400 * a + 100 * b + 4 * c + e) div 4 = 100 * a + 25 * b + c"
    "(400 * a + 100 * b + 4 * c + e) div 100 = 4 * a + b"
    "(400 * a + 100 * b + 4 * c + e) div 400 = a"
  using assms by (auto intro!: int_div_pos_eq [where r = e] int_div_pos_eq [where r = "4 * c + e"]
      int_div_pos_eq [where r = "100 * b + 4 * c + e"])

lemma cycle_ends:
  fixes q r m :: int
  assumes "0 < r" "r \<le> m"
  shows "(m * q + r) mod m = 0 \<longleftrightarrow> r = m"
proof (cases "r = m")
  case True
  then show ?thesis by simp
next
  case False
  then have "(m * q + r) mod m = r" using assms by (intro int_mod_pos_eq [of _ _ q]) simp_all
  with assms False show ?thesis by simp
qed

lemma leap_cycle:
  fixes a b c e :: int
  assumes "0 \<le> b" "b \<le> 3" "0 \<le> c" "c \<le> 24" "0 \<le> e" "e \<le> 3"
  shows "is_leap (400 * a + 100 * b + 4 * c + e + 1) \<longleftrightarrow> e = 3 \<and> (c \<noteq> 24 \<or> b = 3)"
proof -
  let ?y = "400 * a + 100 * b + 4 * c + e + 1"
  have "?y mod 4 = 0 \<longleftrightarrow> e + 1 = 4"
    using cycle_ends [of "e + 1" 4 "100 * a + 25 * b + c"] assms by (simp add: algebra_simps)
  moreover have "?y mod 100 = 0 \<longleftrightarrow> 4 * c + e + 1 = 100"
    using cycle_ends [of "4 * c + e + 1" 100 "4 * a + b"] assms by (simp add: algebra_simps)
  moreover have "?y mod 400 = 0 \<longleftrightarrow> 100 * b + 4 * c + e + 1 = 400"
    using cycle_ends [of "100 * b + 4 * c + e + 1" 400 a] assms by (simp add: algebra_simps)
  ultimately show ?thesis unfolding is_leap_def using assms by auto
qed

lemma days_before_cycle:
  fixes a b c e :: int
  assumes "0 \<le> b" "b \<le> 3" "0 \<le> c" "c \<le> 24" "0 \<le> e" "e \<le> 3"
  shows "days_before_year (400 * a + 100 * b + 4 * c + e + 1) = 146097 * a + 36524 * b + 1461 * c + 365 * e"
  using year_divs [OF assms, of a] by (simp add: days_before_year_def)

lemma ord2ymd_inverse:
  assumes "ord2ymd n = (y, m, d)"
  shows "ymd2ord y m d = n \<and> 1 \<le> m \<and> m \<le> 12 \<and> 1 \<le> d \<and> d \<le> days_in_month (is_leap y) m \<and>
    (1 \<le> n \<longrightarrow> n \<le> 3652059 \<longrightarrow> 1 \<le> y \<and> y \<le> 9999)"
proof -
  define a r where "a = (n - 1) div 146097" and "r = (n - 1) mod 146097"
  define b r2 where "b = r div 36524" and "r2 = r mod 36524"
  define c r3 where "c = r2 div 1461" and "r3 = r2 mod 1461"
  define e k where "e = r3 div 365" and "k = r3 mod 365"
  have n: "n - 1 = 146097 * a + r" "0 \<le> r" "r < 146097" by (simp_all add: a_def r_def)
  have r: "r = 36524 * b + r2" "0 \<le> r2" "r2 < 36524" by (simp_all add: b_def r2_def)
  have r2: "r2 = 1461 * c + r3" "0 \<le> r3" "r3 < 1461" by (simp_all add: c_def r3_def)
  have r3: "r3 = 365 * e + k" "0 \<le> k" "k < 365" by (simp_all add: e_def k_def)
  have b: "0 \<le> b" "b \<le> 4" and c: "0 \<le> c" "c \<le> 24" and e: "0 \<le> e" "e \<le> 4"
    using n r r2 r3 by linarith+
  have o: "ord2ymd n = (let year = a * 400 + 1 + b * 100 + c * 4 + e in
      if e = 4 \<or> b = 4 then (year - 1, 12, 31) else (year, month_day (e = 3 \<and> (c \<noteq> 24 \<or> b = 3)) k))"
    by (simp add: ord2ymd_def Let_def a_def r_def b_def r2_def c_def r3_def e_def k_def)
  show ?thesis
  proof (cases "e = 4 \<or> b = 4")
    case False
    then have bounds: "0 \<le> b" "b \<le> 3" "0 \<le> c" "c \<le> 24" "0 \<le> e" "e \<le> 3" using b c e by linarith+
    have y: "y = 400 * a + 100 * b + 4 * c + e + 1" and md: "month_day (is_leap y) k = (m, d)"
      using o assms False leap_cycle [OF bounds, of a] by (auto simp: Let_def algebra_simps)
    have "k < (if is_leap y then 366 else 365)" using r3 by simp
    with month_day [of k "is_leap y"] r3(2) have
      month: "1 \<le> m \<and> m \<le> 12 \<and> 1 \<le> d \<and> d \<le> days_in_month (is_leap y) m \<and>
        days_before_month (is_leap y) m + d = k + 1"
      by (simp add: md)
    moreover have "ymd2ord y m d = n"
      using month days_before_cycle [OF bounds, of a] n(1) r(1) r2(1) r3(1) unfolding ymd2ord_def y by linarith
    moreover have "1 \<le> y" if "1 \<le> n"
    proof -
      have "0 \<le> a" using that by (simp add: a_def)
      then show ?thesis using bounds unfolding y by linarith
    qed
    moreover have "n \<le> 3652059 \<Longrightarrow> y \<le> 9999"
      using n(1) r(1) r2(1) r3(1,2) bounds unfolding y by linarith
    ultimately show ?thesis by blast
  next
    case True
    then have ymd: "y = 400 * a + 100 * b + 4 * c + e" "m = 12" "d = 31"
      using o assms by (auto simp: Let_def)
    consider "b = 4" "c = 0" "e = 0" "k = 0" | "b \<le> 3" "c \<le> 23" "e = 4" "k = 0"
      using True b c e n r r2 r3 by linarith
    then show ?thesis
    proof cases
      case 1
      then have "y = 400 * a + 100 * 3 + 4 * 24 + 3 + 1" using ymd by simp
      with days_before_cycle [of 3 24 3 a] leap_cycle [of 3 24 3 a] 1 ymd n r r2 r3 show ?thesis
        by (auto simp: ymd2ord_def days_before_month_def days_in_month_def DAYS_BEFORE_MONTH_def DAYS_IN_MONTH_def)
    next
      case 2
      then have "y = 400 * a + 100 * b + 4 * c + 3 + 1" using ymd by simp
      with days_before_cycle [of b c 3 a] leap_cycle [of b c 3 a] 2 ymd n r r2 r3 b c show ?thesis
        by (auto simp: ymd2ord_def days_before_month_def days_in_month_def DAYS_BEFORE_MONTH_def DAYS_IN_MONTH_def)
    qed
  qed
qed

lemma ord2ymd_valid:
  assumes "ord2ymd n = (y, m, d)" and "1 \<le> n" and "n \<le> 3652059"
  shows "valid_date y m d"
  using ord2ymd_inverse [OF assms(1)] assms(2,3) by (simp add: valid_date_def)

section \<open>Decimal fields\<close>

fun dec_fixed :: "nat \<Rightarrow> nat \<Rightarrow> string" where
  "dec_fixed 0 n = []"
| "dec_fixed (Suc k) n = dec_fixed k (n div 10) @ [char_of (48 + n mod 10)]"

definition dec_val :: "char \<Rightarrow> nat option" where
  "dec_val c = (let n = (of_char c :: nat) in if 48 \<le> n \<and> n \<le> 57 then Some (n - 48) else None)"

fun dec_value :: "nat \<Rightarrow> string \<Rightarrow> nat option" where
  "dec_value acc [] = Some acc"
| "dec_value acc (c # cs) = (case dec_val c of None \<Rightarrow> None | Some d \<Rightarrow> dec_value (acc * 10 + d) cs)"

definition read_fixed :: "nat \<Rightarrow> string \<Rightarrow> (nat \<times> string) option" where
  "read_fixed k s =
     (if length s < k then None else map_option (\<lambda>v. (v, drop k s)) (dec_value 0 (take k s)))"

lemma dec_val_digit [simp]: "d < 10 \<Longrightarrow> dec_val (char_of (48 + d)) = Some d"
  by (simp add: dec_val_def of_char_of)

lemma length_dec_fixed [simp]: "length (dec_fixed k n) = k"
  by (induction k arbitrary: n) auto

lemma dec_value_append: "dec_value acc (xs @ ys) = Option.bind (dec_value acc xs) (\<lambda>a. dec_value a ys)"
  by (induction xs arbitrary: acc) (auto split: option.splits)

lemma dec_value_fixed: "dec_value acc (dec_fixed k n) = Some (acc * 10 ^ k + n mod 10 ^ k)"
proof (induction k arbitrary: n)
  case 0
  then show ?case by simp
next
  case (Suc k)
  have "n mod 10 ^ Suc k = (n div 10) mod 10 ^ k * 10 + n mod 10"
    by (metis add.commute mod_mult2_eq mult.commute power_Suc)
  with Suc show ?case by (simp add: dec_value_append algebra_simps)
qed

lemma read_dec_fixed: "n < 10 ^ k \<Longrightarrow> read_fixed k (dec_fixed k n @ r) = Some (n, r)"
  using dec_value_fixed [of 0 k n] by (simp add: read_fixed_def)

lemma dec_fixed_chars: "c \<in> set (dec_fixed k n) \<Longrightarrow> \<exists>d < 10. c = char_of (48 + d :: nat)"
proof (induction k arbitrary: n)
  case (Suc k)
  then consider "c \<in> set (dec_fixed k (n div 10))" | "c = char_of (48 + n mod 10)" by auto
  then show ?case
  proof cases
    case 2
    then show ?thesis by (intro exI [of _ "n mod 10"]) simp
  qed (rule Suc.IH)
qed simp

lemma dec_fixed_absent:
  assumes "dec_val c = None"
  shows "c \<notin> set (dec_fixed k n)"
  using assms dec_fixed_chars dec_val_digit by fastforce

section \<open>Printing and reading an instant\<close>

definition EPOCH_ORDINAL :: int where "EPOCH_ORDINAL = 719163"
definition DAY :: time where "DAY = 86400000000"

text \<open>The instants a \<open>datetime\<close> can hold: the years 1 to 9999.\<close>

definition datetime_range :: "time \<Rightarrow> bool" where
  "datetime_range t \<longleftrightarrow> 1 \<le> t div DAY + EPOCH_ORDINAL \<and> t div DAY + EPOCH_ORDINAL \<le> 3652059"

definition iso_clock :: "time \<Rightarrow> string" where
  "iso_clock us =
     dec_fixed 2 (nat (us div 3600000000)) @ '':'' @ dec_fixed 2 (nat (us div 60000000 mod 60)) @ '':'' @
     dec_fixed 2 (nat (us div 1000000 mod 60)) @
     (if us mod 1000000 = 0 then [] else ''.'' @ dec_fixed 6 (nat (us mod 1000000)))"

definition isoformat :: "time \<Rightarrow> string" where
  "isoformat t =
     (case ord2ymd (t div DAY + EPOCH_ORDINAL) of (y, m, d) \<Rightarrow>
        dec_fixed 4 (nat y) @ ''-'' @ dec_fixed 2 (nat m) @ ''-'' @ dec_fixed 2 (nat d) @ ''T'' @
        iso_clock (t mod DAY) @ ''+00:00'')"

definition read_sep :: "char set \<Rightarrow> string \<Rightarrow> string option" where
  "read_sep cs s = (case s of [] \<Rightarrow> None | c # r \<Rightarrow> if c \<in> cs then Some r else None)"

definition read_fraction :: "string \<Rightarrow> int option" where
  "read_fraction s =
     (if s = [] \<or> (\<exists>c \<in> set s. dec_val c = None) then None
      else map_option (\<lambda>v. int v * 10 ^ (6 - length (take 6 s))) (dec_value 0 (take 6 s)))"

text \<open>\<open>HH[:MM[:SS[.ffffff]]]\<close>, digits after the sixth dropped.\<close>

definition read_clock :: "string \<Rightarrow> (int \<times> int \<times> int \<times> int) option" where
  "read_clock s =
     Option.bind (read_fixed 2 s) (\<lambda>(h, r).
     if r = [] then Some (int h, 0, 0, 0)
     else Option.bind (Option.bind (read_sep (set '':'') r) (read_fixed 2)) (\<lambda>(mi, r).
     if r = [] then Some (int h, int mi, 0, 0)
     else Option.bind (Option.bind (read_sep (set '':'') r) (read_fixed 2)) (\<lambda>(sec, r).
     if r = [] then Some (int h, int mi, int sec, 0)
     else Option.bind (Option.bind (read_sep (set ''.,'') r) read_fraction) (\<lambda>us.
     Some (int h, int mi, int sec, us)))))"

definition clock_micros :: "int \<times> int \<times> int \<times> int \<Rightarrow> time" where
  "clock_micros c = (case c of (h, mi, sec, us) \<Rightarrow> ((h * 60 + mi) * 60 + sec) * 1000000 + us)"

definition read_date :: "string \<Rightarrow> ((int \<times> int \<times> int) \<times> string) option" where
  "read_date s =
     Option.bind (read_fixed 4 s) (\<lambda>(y, r).
     Option.bind (Option.bind (read_sep (set ''-'') r) (read_fixed 2)) (\<lambda>(m, r).
     Option.bind (Option.bind (read_sep (set ''-'') r) (read_fixed 2)) (\<lambda>(d, r).
     if valid_date (int y) (int m) (int d) then Some ((int y, int m, int d), r) else None)))"

text \<open>The offset from UTC, if the text names one: \<open>Z\<close>, or a sign and a clock of less than a day.\<close>

definition read_offset :: "string \<Rightarrow> time option option" where
  "read_offset s =
     (case s of
        [] \<Rightarrow> Some None
      | c # r \<Rightarrow>
          if c = CHR ''Z'' then (if r = [] then Some (Some 0) else None)
          else Option.bind (read_clock r) (\<lambda>k.
            if clock_micros k < DAY then Some (Some ((if c = CHR ''-'' then - 1 else 1) * clock_micros k))
            else None))"

definition read_time :: "string \<Rightarrow> (time \<times> time option) option" where
  "read_time s =
     Option.bind (read_clock (takeWhile (\<lambda>c. c \<notin> set ''+-Z'') s)) (\<lambda>k.
     Option.bind (read_offset (dropWhile (\<lambda>c. c \<notin> set ''+-Z'') s)) (\<lambda>off.
     case k of (h, mi, sec, us) \<Rightarrow>
       if h < 24 \<and> mi < 60 \<and> sec < 60 then Some (clock_micros k, off) else None))"

text \<open>The local instant and the offset; an instant without an offset is naive.\<close>

definition fromisoformat :: "string \<Rightarrow> (time \<times> time option) option" where
  "fromisoformat s =
     Option.bind (read_date s) (\<lambda>((y, m, d), r).
     Option.bind (if length r \<le> 1 then Some (0, None) else read_time (tl r)) (\<lambda>(us, off).
     Some ((ymd2ord y m d - EPOCH_ORDINAL) * DAY + us, off)))"

subsection \<open>The round trip\<close>

lemma read_sep_Cons [simp]: "c \<in> cs \<Longrightarrow> read_sep cs (c # r) = Some r"
  by (simp add: read_sep_def)

lemma read_dec_alone: "n < 10 ^ k \<Longrightarrow> read_fixed k (dec_fixed k n) = Some (n, [])"
  using read_dec_fixed [of n k "[]"] by simp

lemma read_fraction_fixed:
  assumes "0 \<le> us" and "us < 1000000"
  shows "read_fraction (dec_fixed 6 (nat us)) = Some us"
proof -
  have "dec_val c \<noteq> None" if "c \<in> set (dec_fixed 6 (nat us))" for c
    using that dec_fixed_absent [of c 6 "nat us"] by blast
  moreover have "dec_fixed 6 (nat us) \<noteq> []" by (metis length_dec_fixed list.size(3) zero_neq_numeral)
  moreover have "nat us mod 10 ^ 6 = nat us" using assms by simp
  ultimately show ?thesis using assms dec_value_fixed [of 0 6 "nat us"] by (auto simp: read_fraction_def)
qed

lemma read_clock_fields:
  assumes "h < 100" and "mi < 100" and "sec < 100"
  shows "read_clock (dec_fixed 2 h @ '':'' @ dec_fixed 2 mi @ '':'' @ dec_fixed 2 sec) =
      Some (int h, int mi, int sec, 0)"
    and "0 \<le> us \<Longrightarrow> us < 1000000 \<Longrightarrow>
      read_clock (dec_fixed 2 h @ '':'' @ dec_fixed 2 mi @ '':'' @ dec_fixed 2 sec @ ''.'' @ dec_fixed 6 (nat us)) =
      Some (int h, int mi, int sec, us)"
  using assms by (simp_all add: read_clock_def read_dec_fixed read_dec_alone read_fraction_fixed)

lemma read_clock_iso:
  assumes "0 \<le> us" and "us < DAY"
  shows "read_clock (iso_clock us) =
    Some (us div 3600000000, us div 60000000 mod 60, us div 1000000 mod 60, us mod 1000000)"
proof -
  have h: "nat (us div 3600000000) < 100" "nat (us div 60000000 mod 60) < 100"
    "nat (us div 1000000 mod 60) < 100"
    using assms by (simp_all add: DAY_def nat_less_iff)
  have p: "int (nat (us div 3600000000)) = us div 3600000000"
    "int (nat (us div 60000000 mod 60)) = us div 60000000 mod 60"
    "int (nat (us div 1000000 mod 60)) = us div 1000000 mod 60"
    using assms by simp_all
  have us: "0 \<le> us mod 1000000" "us mod 1000000 < 1000000" by simp_all
  show ?thesis
    using read_clock_fields(1) [OF h] read_clock_fields(2) [OF h us] unfolding p iso_clock_def
    by (cases "us mod 1000000 = 0") simp_all
qed

lemma clock_micros_split:
  "clock_micros (us div 3600000000, us div 60000000 mod 60, us div 1000000 mod 60, us mod 1000000) = us"
proof -
  have "us div 3600000000 = us div 60000000 div 60" "us div 60000000 = us div 1000000 div 60"
    by (simp_all add: div_mult2_eq [symmetric] zdiv_zmult2_eq [symmetric])
  moreover have "60 * (x div 60) + x mod 60 = x" for x :: int by simp
  moreover have "seconds (us div 1000000) + us mod 1000000 = us" by simp
  ultimately show ?thesis unfolding clock_micros_def prod.case by (metis mult.commute)
qed

lemma iso_clock_chars: "c \<in> set (iso_clock us) \<Longrightarrow> c \<notin> set ''+-Z''"
  using dec_fixed_absent [of "CHR ''+''"] dec_fixed_absent [of "CHR ''-''"] dec_fixed_absent [of "CHR ''Z''"]
  by (auto simp: iso_clock_def dec_val_def split: if_splits)

lemma read_utc_offset: "read_offset ''+00:00'' = Some (Some 0)"
  by (simp add: read_offset_def read_clock_def read_fixed_def dec_val_def clock_micros_def DAY_def)

lemma read_time_iso:
  assumes "0 \<le> us" and "us < DAY"
  shows "read_time (iso_clock us @ ''+00:00'') = Some (us, Some 0)"
proof -
  have all: "\<And>c. c \<in> set (iso_clock us) \<Longrightarrow> c \<notin> set ''+-Z''" using iso_clock_chars by blast
  have t: "takeWhile (\<lambda>c. c \<notin> set ''+-Z'') (iso_clock us @ ''+00:00'') = iso_clock us"
    using all by (subst takeWhile_append2) auto
  have d: "dropWhile (\<lambda>c. c \<notin> set ''+-Z'') (iso_clock us @ ''+00:00'') = ''+00:00''"
    using all by (subst dropWhile_append2) auto
  have "us div 3600000000 < 24" using assms by (simp add: DAY_def)
  then show ?thesis
    unfolding read_time_def t d read_utc_offset read_clock_iso [OF assms]
    by (simp add: clock_micros_split)
qed

lemma read_date_iso:
  assumes "valid_date y m d"
  shows "read_date (dec_fixed 4 (nat y) @ ''-'' @ dec_fixed 2 (nat m) @ ''-'' @ dec_fixed 2 (nat d) @ r) =
    Some ((y, m, d), r)"
proof -
  have "\<forall>k < 12. DAYS_IN_MONTH ! k \<le> 31" by (simp add: DAYS_IN_MONTH_def All_less_Suc2 numeral_nat)
  then have "days_in_month (is_leap y) m \<le> 31"
    using assms by (simp add: valid_date_def days_in_month_def nat_less_iff)
  then have "d \<le> 31" using assms by (simp add: valid_date_def)
  then have "nat y < 10 ^ 4" "nat m < 10 ^ 2" "nat d < 10 ^ 2" "0 \<le> y" "0 \<le> m" "0 \<le> d"
    using assms by (simp_all add: valid_date_def nat_less_iff)
  with assms show ?thesis by (simp add: read_date_def read_dec_fixed)
qed

theorem fromisoformat_isoformat:
  assumes "datetime_range t"
  shows "fromisoformat (isoformat t) = Some (t, Some 0)"
proof -
  obtain y m d where o: "ord2ymd (t div DAY + EPOCH_ORDINAL) = (y, m, d)" by (metis prod_cases3)
  have v: "valid_date y m d" and ord: "ymd2ord y m d = t div DAY + EPOCH_ORDINAL"
    using ord2ymd_valid [OF o] ord2ymd_inverse [OF o] assms by (auto simp: datetime_range_def)
  have us: "0 \<le> t mod DAY" "t mod DAY < DAY" by (simp_all add: DAY_def)
  show ?thesis
    using read_date_iso [OF v, of "''T'' @ iso_clock (t mod DAY) @ ''+00:00''"] read_time_iso [OF us] ord
    by (simp add: fromisoformat_def isoformat_def o)
qed

end
