(* ===== verification/Cursors.thy ===== *)
theory Cursors
  imports Calendar Tables
begin

text \<open>
  The cursor of a search, from \<open>infrastructure/database/user_repository.py\<close>: the instant and the id of
  the last account of a page, printed, in URL-safe base64. Reading one back follows CPython: base64
  skips characters outside its alphabet and stops at the padding. Decoded text outside ASCII counts as
  malformed here.
\<close>

section \<open>URL-safe base64\<close>

definition b64_char :: "nat \<Rightarrow> char" where
  "b64_char n = (if n < 26 then char_of (65 + n) else if n < 52 then char_of (71 + n)
     else if n < 62 then char_of (n - 4) else if n = 62 then CHR ''-'' else CHR ''_'')"

definition b64_val :: "char \<Rightarrow> nat option" where
  "b64_val c = (let n = (of_char c :: nat) in
     if 65 \<le> n \<and> n \<le> 90 then Some (n - 65)
     else if 97 \<le> n \<and> n \<le> 122 then Some (n - 71)
     else if 48 \<le> n \<and> n \<le> 57 then Some (n + 4)
     else if c \<in> set ''-+'' then Some 62
     else if c \<in> set ''_/'' then Some 63
     else None)"

abbreviation byte :: "char \<Rightarrow> nat" where
  "byte c \<equiv> of_char c"

fun urlsafe_b64encode :: "string \<Rightarrow> string" where
  "urlsafe_b64encode [] = []"
| "urlsafe_b64encode [a] = [b64_char (byte a div 4), b64_char (byte a mod 4 * 16), CHR ''='', CHR ''='']"
| "urlsafe_b64encode [a, b] =
     [b64_char (byte a div 4), b64_char (byte a mod 4 * 16 + byte b div 16), b64_char (byte b mod 16 * 4), CHR ''='']"
| "urlsafe_b64encode (a # b # c # s) =
     b64_char (byte a div 4) # b64_char (byte a mod 4 * 16 + byte b div 16) #
     b64_char (byte b mod 16 * 4 + byte c div 64) # b64_char (byte c mod 64) # urlsafe_b64encode s"

text \<open>
  \<open>binascii.a2b_base64\<close>: the position in the group of four, the bits left over from the previous
  character, and the padding characters seen.
\<close>

fun b64_read :: "nat \<Rightarrow> nat \<Rightarrow> nat \<Rightarrow> string \<Rightarrow> string option" where
  "b64_read q left pads [] = (if q = 0 then Some [] else None)"
| "b64_read q left pads (c # s) =
     (if c = CHR ''='' then
        (if 2 \<le> q \<and> 4 \<le> q + Suc pads then Some []
         else b64_read q left (if 2 \<le> q then Suc pads else pads) s)
      else case b64_val c of
        None \<Rightarrow> b64_read q left pads s
      | Some v \<Rightarrow>
          if q = 0 then b64_read 1 v 0 s
          else if q = 1 then map_option (Cons (char_of (left * 4 + v div 16))) (b64_read 2 (v mod 16) 0 s)
          else if q = 2 then map_option (Cons (char_of (left * 16 + v div 4))) (b64_read 3 (v mod 4) 0 s)
          else map_option (Cons (char_of (left * 64 + v))) (b64_read 0 0 0 s))"

definition urlsafe_b64decode :: "string \<Rightarrow> string option" where
  "urlsafe_b64decode s = b64_read 0 0 0 s"

lemma b64_val_char [simp]:
  assumes "n < 64"
  shows "b64_val (b64_char n) = Some n"
proof -
  consider "n < 26" | "26 \<le> n" "n < 52" | "52 \<le> n" "n < 62" | "n = 62" | "n = 63" using assms by linarith
  then show ?thesis by cases (auto simp: b64_char_def b64_val_def Let_def of_char_of)
qed

lemma b64_char_no_pad [simp]: "n < 64 \<Longrightarrow> b64_char n \<noteq> CHR ''=''"
  using b64_val_char [of n] by (auto simp: b64_val_def)

lemma byte_bound [simp]: "byte c < 256"
  by (simp add: of_char_def) 

lemma b64_read_encode: "b64_read 0 0 0 (urlsafe_b64encode s) = Some s"
proof (induction s rule: urlsafe_b64encode.induct)
  case 1
  then show ?case by simp
next
  case (2 a)
  have a: "byte a div 4 < 64" "byte a mod 4 * 16 < 64"
    using byte_bound [of a] by (simp_all add: less_mult_imp_div_less)
  then show ?case by simp
next
  case (3 a b)
  have "byte a div 4 < 64" "byte a mod 4 * 16 + byte b div 16 < 64" "byte b mod 16 * 4 < 64"
    using byte_bound [of a] byte_bound [of b] by linarith+
  moreover have "(byte a mod 4 * 16 + byte b div 16) div 16 = byte a mod 4"
    "(byte a mod 4 * 16 + byte b div 16) mod 16 = byte b div 16"
    using byte_bound [of b] by (simp_all add: less_mult_imp_div_less)
  ultimately show ?case by simp
next
  case (4 a b c s)
  have "byte a div 4 < 64" "byte a mod 4 * 16 + byte b div 16 < 64"
    "byte b mod 16 * 4 + byte c div 64 < 64" "byte c mod 64 < 64"
    using byte_bound [of a] byte_bound [of b] byte_bound [of c] by linarith+
  moreover have "(byte a mod 4 * 16 + byte b div 16) div 16 = byte a mod 4"
    "(byte a mod 4 * 16 + byte b div 16) mod 16 = byte b div 16"
    "(byte b mod 16 * 4 + byte c div 64) div 4 = byte b mod 16"
    "(byte b mod 16 * 4 + byte c div 64) mod 4 = byte c div 64"
    using byte_bound [of b] byte_bound [of c] by (simp_all add: less_mult_imp_div_less)
  ultimately show ?case using 4 by simp
qed

section \<open>Cursors\<close>

text \<open>\<open>text.split("|")\<close> into exactly two parts.\<close>

definition split_bar :: "string \<Rightarrow> (string \<times> string) option" where
  "split_bar s = (case dropWhile (\<lambda>c. c \<noteq> CHR ''|'') s of
     [] \<Rightarrow> None
   | _ # r \<Rightarrow> if CHR ''|'' \<in> set r then None else Some (takeWhile (\<lambda>c. c \<noteq> CHR ''|'') s, r))"

definition encode_cursor :: "user_model \<Rightarrow> string" where
  "encode_cursor row = urlsafe_b64encode (isoformat (um_created_at row) @ ''|'' @ uuid_str (um_id row))"

definition invalid_cursor :: problem where
  "invalid_cursor = Problem 400 ''invalid-cursor'' (''Cursor inv'' @ [CHR 0xE1] @ ''lido'')
     ''El cursor no tiene un formato reconocible''"

definition read_cursor :: "string \<Rightarrow> (time \<times> uuid) option" where
  "read_cursor value =
     Option.bind (urlsafe_b64decode value) (\<lambda>text.
     if \<exists>c \<in> set text. 128 \<le> byte c then None
     else Option.bind (split_bar text) (\<lambda>(at, last_id).
       Option.bind (fromisoformat at) (\<lambda>(local, offset).
       Option.bind offset (\<lambda>off.
       if \<not> datetime_range (local - off) then None
       else map_option (Pair (local - off)) (uuid_parse last_id)))))"

definition decode_cursor :: "string \<Rightarrow> exn + time \<times> uuid" where
  "decode_cursor value =
     (case read_cursor value of None \<Rightarrow> Inl (ProblemError invalid_cursor) | Some position \<Rightarrow> Inr position)"

subsection \<open>The round trip\<close>

lemma split_bar_append: "CHR ''|'' \<notin> set a \<Longrightarrow> CHR ''|'' \<notin> set b \<Longrightarrow> split_bar (a @ ''|'' @ b) = Some (a, b)"
  by (simp add: split_bar_def dropWhile_append takeWhile_append)

lemma dec_fixed_ascii: "c \<in> set (dec_fixed k n) \<Longrightarrow> byte c < 58"
  by (auto dest!: dec_fixed_chars simp: of_char_of)

lemma isoformat_ascii: "c \<in> set (isoformat t) \<Longrightarrow> byte c < 90"
  by (auto simp: isoformat_def iso_clock_def split: prod.splits if_splits dest!: dec_fixed_ascii)

lemma uuid_str_ascii: "c \<in> set (uuid_str u) \<Longrightarrow> byte c < 103"
proof -
  assume "c \<in> set (uuid_str u)"
  then consider "c = CHR ''-''" | "c \<in> set (hex_fixed 32 (unat u))" using uuid_str_chars by blast
  then show ?thesis
  proof cases
    case 2
    then obtain d where "d < 16" "c = hex_digit d" using hex_fixed_chars by blast
    then show ?thesis by (simp add: of_char_hex_digit)
  qed simp
qed

lemma read_encode_cursor:
  assumes "datetime_range (um_created_at row)"
  shows "read_cursor (encode_cursor row) = Some (um_created_at row, um_id row)"
proof -
  let ?text = "isoformat (um_created_at row) @ ''|'' @ uuid_str (um_id row)"
  have ascii: "\<not> (\<exists>c \<in> set ?text. 128 \<le> byte c)"
    by (auto dest!: isoformat_ascii uuid_str_ascii)
  have bar: "CHR ''|'' \<notin> set (isoformat (um_created_at row))" "CHR ''|'' \<notin> set (uuid_str (um_id row))"
    using isoformat_ascii [of "CHR ''|''"] uuid_str_ascii [of "CHR ''|''"] by auto
  have "split_bar ?text = Some (isoformat (um_created_at row), uuid_str (um_id row))"
    by (rule split_bar_append [OF bar])
  then show ?thesis
    using ascii fromisoformat_isoformat [OF assms] assms
    by (simp add: read_cursor_def encode_cursor_def urlsafe_b64decode_def b64_read_encode)
qed

lemma decode_encode_cursor:
  "datetime_range (um_created_at row) \<Longrightarrow> decode_cursor (encode_cursor row) = Inr (um_created_at row, um_id row)"
  by (simp add: decode_cursor_def read_encode_cursor)

end
