(* ===== verification/Search.thy ===== *)
theory Search
  imports Repositories Cursors
begin

text \<open>
  Finding accounts: the two searches of \<open>infrastructure/database/user_repository.py\<close> with their
  patterns and cursors, the client of the social graph (\<open>infrastructure/posts_api/blocks.py\<close>), the public
  search of \<open>app/services/search.py\<close> and the backoffice one of \<open>app/services/admin_user_accounts.py\<close>.
\<close>

section \<open>Patterns\<close>

definition escape_like :: "string \<Rightarrow> string" where
  "escape_like fragment =
     py_replace ''_'' [CHR 0x5C, CHR ''_''] (py_replace ''%'' [CHR 0x5C, CHR ''%'']
       (py_replace [CHR 0x5C] [CHR 0x5C, CHR 0x5C] fragment))"

text \<open>
  \<open>text LIKE pattern ESCAPE '\'\<close>. A pattern that ends in the escape character is an error of the
  query; no pattern of the source does.
\<close>

fun like :: "string \<Rightarrow> string \<Rightarrow> bool" where
  "like [] s \<longleftrightarrow> s = []"
| "like (p # ps) s \<longleftrightarrow>
     (if p = CHR 0x5C then
        (case ps of [] \<Rightarrow> False | q # qs \<Rightarrow> (case s of [] \<Rightarrow> False | x # xs \<Rightarrow> q = x \<and> like qs xs))
      else if p = CHR ''%'' then
        like ps s \<or> (case s of [] \<Rightarrow> False | x # xs \<Rightarrow> like (p # ps) xs)
      else
        (case s of [] \<Rightarrow> False | x # xs \<Rightarrow> (p = CHR ''_'' \<or> p = x) \<and> like ps xs))"

declare like.simps [simp del]

definition ilike :: "string \<Rightarrow> string \<Rightarrow> bool" where
  "ilike text pattern = like (py_lower pattern) (py_lower text)"

section \<open>The two queries\<close>

definition position_of :: "user_model \<Rightarrow> time \<times> uuid" where
  "position_of row = (um_created_at row, um_id row)"

text \<open>\<open>ORDER BY created_at DESC, id DESC\<close>, after the rows past the cursor are left out.\<close>

definition newest_accounts :: "user_model list \<Rightarrow> user_model list" where
  "newest_accounts rows = rev (sort_key position_of rows)"

definition past_cursor :: "(time \<times> uuid) option \<Rightarrow> user_model \<Rightarrow> bool" where
  "past_cursor position row = (case position of None \<Rightarrow> True | Some p \<Rightarrow> position_of row < p)"

definition app_account :: "user_model \<Rightarrow> bool" where
  "app_account row \<longleftrightarrow> um_role row = role_value USER \<and> um_deleted_at row = None"

definition read_position :: "string option \<Rightarrow> ('r, (time \<times> uuid) option) op" where
  "read_position cursor =
     (case cursor of
        None \<Rightarrow> ret None
      | Some value \<Rightarrow> (case decode_cursor value of Inl e \<Rightarrow> raise e | Inr position \<Rightarrow> ret (Some position)))"

definition matches_user_account :: "string \<Rightarrow> user_model \<Rightarrow> bool" where
  "matches_user_account fragment row \<longleftrightarrow>
     app_account row \<and>
     (ilike (um_email row) (''%'' @ escape_like fragment @ ''%'') \<or>
      ilike (um_handle row) (''%'' @ escape_like fragment @ ''%''))"

definition search_user_accounts ::
  "string \<Rightarrow> string option \<Rightarrow> nat \<Rightarrow> ('r, user list \<times> string option) op" where
  "search_user_accounts fragment cursor limit =
     bnd (read_position cursor) (\<lambda>position.
     bnd (query (\<lambda>d. take (limit + 1) (newest_accounts
            (filter (\<lambda>row. matches_user_account fragment row \<and> past_cursor position row) (users d))))) (\<lambda>rows.
     let page = take limit rows;
         next_cursor = (if length rows > limit then Some (encode_cursor (last page)) else None) in
     bnd (loaded_all page) (\<lambda>accounts. ret (accounts, next_cursor))))"

definition SEARCH_BATCH_SIZE :: nat where "SEARCH_BATCH_SIZE = 50"

record search_candidate =
  sc_user :: user
  sc_cursor :: string

definition matches_public_account :: "string \<Rightarrow> bool \<Rightarrow> user_model \<Rightarrow> bool" where
  "matches_public_account fragment handle_only row \<longleftrightarrow>
     app_account row \<and>
     (ilike (um_handle row) (''%'' @ escape_like fragment @ ''%'') \<or>
      \<not> handle_only \<and>
        (case um_display_name row of None \<Rightarrow> False
         | Some name \<Rightarrow> ilike name (''%'' @ escape_like fragment @ ''%'')))"

definition search_public_accounts ::
  "string \<Rightarrow> bool \<Rightarrow> string option \<Rightarrow> ('r, search_candidate list) op" where
  "search_public_accounts fragment handle_only cursor =
     bnd (read_position cursor) (\<lambda>position.
     bnd (query (\<lambda>d. take SEARCH_BATCH_SIZE (newest_accounts
            (filter (\<lambda>row. matches_public_account fragment handle_only row \<and> past_cursor position row)
              (users d))))) (\<lambda>rows.
     bnd (loaded_all rows) (\<lambda>accounts.
     ret (map2 (\<lambda>user row. \<lparr> sc_user = user, sc_cursor = encode_cursor row \<rparr>) accounts rows))))"

section \<open>The social graph\<close>

text \<open>\<open>HttpBlocksClient.excluded_ids\<close>: a second attempt when the first fails.\<close>

fun excluded_ids_attempts :: "'r env \<Rightarrow> nat \<Rightarrow> uuid \<Rightarrow> uuid list \<Rightarrow> ('r, uuid set) op" where
  "excluded_ids_attempts E 0 viewer ids = raise BlocksUnavailableError"
| "excluded_ids_attempts E (Suc n) viewer ids =
     bnd (draw (\<lambda>k. e_check_blocks E k viewer ids)) (\<lambda>response.
     case response of
       Some excluded \<Rightarrow> ret (set excluded)
     | None \<Rightarrow> excluded_ids_attempts E n viewer ids)"

definition excluded_ids :: "'r env \<Rightarrow> uuid \<Rightarrow> uuid list \<Rightarrow> ('r, uuid set) op" where
  "excluded_ids E viewer ids = excluded_ids_attempts E 2 viewer ids"

section \<open>The public search\<close>

definition invalid_query :: problem where
  "invalid_query = Problem 422 ''invalid-query'' (''B'' @ [CHR 0xFA] @ ''squeda inv'' @ [CHR 0xE1] @ ''lida'')
     (''Escrib'' @ [CHR 0xED] @ '' al menos 3 caracteres sin contar el @ inicial'')"

definition search_unavailable :: problem where
  "search_unavailable = Problem 503 ''search-unavailable'' (''B'' @ [CHR 0xFA] @ ''squeda no disponible'')
     ''No se pudieron comprobar los bloqueos. Intentalo de nuevo.''"

definition excluded_or_problem :: "'r env \<Rightarrow> uuid \<Rightarrow> uuid list \<Rightarrow> ('r, uuid set) op" where
  "excluded_or_problem E viewer ids w =
     (case excluded_ids E viewer ids w of
        (Inl e, w') \<Rightarrow>
          (Inl (if e = BlocksUnavailableError then ProblemError search_unavailable else e), w')
      | (Inr excluded, w') \<Rightarrow> (Inr excluded, w'))"

text \<open>The \<open>while\<close> loop; its first argument bounds the iterations.\<close>

fun search_loop ::
  "nat \<Rightarrow> 'r env \<Rightarrow> string \<Rightarrow> bool \<Rightarrow> uuid \<Rightarrow> string option \<Rightarrow> search_candidate list \<Rightarrow>
     ('r, search_candidate list) op" where
  "search_loop 0 E fragment handle_only viewer cursor visible = raise NoReturn"
| "search_loop (Suc n) E fragment handle_only viewer cursor visible =
     (if length visible \<ge> 21 then ret visible
      else
        bnd (search_public_accounts fragment handle_only cursor) (\<lambda>candidates.
        if candidates = [] then ret visible
        else
          bnd (excluded_or_problem E viewer (map (\<lambda>c. u_id (sc_user c)) candidates)) (\<lambda>excluded.
          let visible = visible @ filter (\<lambda>c. u_id (sc_user c) \<notin> excluded) candidates in
          if length candidates < SEARCH_BATCH_SIZE then ret visible
          else search_loop n E fragment handle_only viewer (Some (sc_cursor (last candidates))) visible)))"

declare search_loop.simps [simp del]

definition search ::
  "'r env \<Rightarrow> string \<Rightarrow> uuid \<Rightarrow> string option \<Rightarrow> ('r, search_candidate list \<times> string option) op" where
  "search E q viewer cursor =
     (let fragment = py_strip q;
          handle_only = py_startswith fragment ''@'';
          fragment = (if handle_only then drop 1 fragment else fragment) in
      if CHR 0x00 \<in> set fragment \<or> length fragment < 3 then raise (ProblemError invalid_query)
      else
        bnd (query (\<lambda>d. length (users d) + 2)) (\<lambda>iterations.
        bnd (search_loop iterations E fragment handle_only viewer cursor []) (\<lambda>visible.
        ret (take 20 visible, if length visible > 20 then Some (sc_cursor (visible ! 19)) else None))))"

section \<open>The backoffice search\<close>

definition PAGE_SIZE :: nat where "PAGE_SIZE = 20"
definition MIN_QUERY_LENGTH :: nat where "MIN_QUERY_LENGTH = 3"

definition search_query_too_short :: problem where
  "search_query_too_short = Problem 422 ''search-query-too-short'' ''No se pudo buscar''
     ((''La b'' @ [CHR 0xFA] @ ''squeda necesita al menos '') @ py_str_nat MIN_QUERY_LENGTH @ '' caracteres'')"

definition search_accounts :: "string \<Rightarrow> string option \<Rightarrow> ('r, user list \<times> string option) op" where
  "search_accounts q cursor =
     (let fragment = py_strip q in
      if length fragment < MIN_QUERY_LENGTH then raise (ProblemError search_query_too_short)
      else search_user_accounts fragment cursor PAGE_SIZE)"

section \<open>They only read\<close>

lemma preserves_read_position [preserves_intro]: "preserves I (read_position cursor)"
  unfolding read_position_def by (intro preserves_intro)

lemma preserves_search_accounts [preserves_intro]:
  "preserves I (search_user_accounts fragment cursor limit)"
  "preserves I (search_public_accounts fragment handle_only cursor)"
  "preserves I (search_accounts q cursor)"
  unfolding search_accounts_def search_user_accounts_def search_public_accounts_def Let_def
  by (intro preserves_intro)+

text \<open>The public search also asks the social graph, which is a draw from the environment.\<close>

lemma preserves_search:
  fixes I :: "'r world \<Rightarrow> bool"
  assumes "\<And>f :: nat \<Rightarrow> uuid list option. preserves I (draw f)"
  shows "preserves I (search E q viewer cursor)"
proof -
  have "preserves I (excluded_ids_attempts E n viewer ids)" for n ids
    by (induction n, unfold excluded_ids_attempts.simps) (rule preserves_intro assms | assumption)+
  then have "I w \<Longrightarrow> I (after (excluded_ids E viewer ids w))" for ids w
    unfolding excluded_ids_def by (rule preservesD)
  moreover have "after (excluded_or_problem E viewer ids w) = after (excluded_ids E viewer ids w)" for ids w
    by (auto simp: excluded_or_problem_def split: prod.split sum.split)
  ultimately have blocks: "preserves I (excluded_or_problem E viewer ids)" for ids
    by (simp add: preserves_def)
  have "preserves I (search_loop n E fragment handle_only viewer cursor visible)"
    for n fragment handle_only cursor visible
    by (induction n arbitrary: cursor visible, unfold search_loop.simps Let_def)
       (rule preserves_intro blocks | assumption)+
  then show ?thesis unfolding search_def Let_def by (intro preserves_intro)
qed

end
