(* ===== verification/Routes.thy ===== *)
theory Routes
  imports Schemas Search
begin

text \<open>
  The HTTP surface: the routes of \<open>api/*.py\<close> with their dependencies, the transaction each request
  runs in, and the error handlers of \<open>api/errors.py\<close>. A request is its route with the decoded parts
  of it; \<open>serve\<close> is what the service answers and the world it leaves. FastAPI resolves the
  dependencies of a route (the bearer token, the internal token) before it validates the body, so a
  refused caller never gets a 422.

  The health probes, which run no transaction, are the theory \<open>Health\<close>.
\<close>

section \<open>Requests and answers\<close>

datatype request =
    Register string string string bool
  | Verify string
  | VerifyFromLink string
  | ResendVerification string
  | Login string string
  | Refresh string
  | Logout string "string option"
  | AdminLogin string string
  | ForgotPassword string
  | ResetPassword string string string
  | ChangePassword string string string string
  | DeleteAccount string string
  | SubmitFeedback string string string string
  | GetProfile string
  | UpdateProfile string profile_body
  | GetPreferences string
  | UpdatePreferences string preferences_body
  | CreateAdministrator string string string string
  | ResetTemporaryPassword string uuid
  | ListAdministrators string
  | AccountDetail string uuid
  | BlockAccount string uuid string
  | AccountMetrics string
  | ListAuditEntries string int int
  | PutUnderReview "string option" uuid
  | LiftReview "string option" uuid
  | GetPublicProfile "string option" uuid
  | AdministratorIdentity "string option" uuid
  | SearchUsers string string "string option"
  | SearchAccounts string string "string option"

definition me_path :: string where "me_path = API_PREFIX @ ''/me''"
definition admin_users_path :: string where "admin_users_path = API_PREFIX @ ''/admin/users''"

text \<open>\<open>request.url.path\<close>\<close>

fun request_path :: "request \<Rightarrow> string" where
  "request_path (Register _ _ _ _) = API_PREFIX @ ''/auth/register''"
| "request_path (Verify _) = API_PREFIX @ ''/auth/verify''"
| "request_path (VerifyFromLink _) = API_PREFIX @ ''/auth/verify''"
| "request_path (ResendVerification _) = API_PREFIX @ ''/auth/resend-verification''"
| "request_path (Login _ _) = API_PREFIX @ ''/auth/login''"
| "request_path (Refresh _) = API_PREFIX @ ''/auth/refresh''"
| "request_path (Logout _ _) = API_PREFIX @ ''/auth/logout''"
| "request_path (AdminLogin _ _) = API_PREFIX @ ''/admin/auth/login''"
| "request_path (ForgotPassword _) = API_PREFIX @ ''/auth/forgot-password''"
| "request_path (ResetPassword _ _ _) = API_PREFIX @ ''/auth/reset-password''"
| "request_path (ChangePassword _ _ _ _) = me_path @ ''/change-password''"
| "request_path (DeleteAccount _ _) = me_path"
| "request_path (SubmitFeedback _ _ _ _) = me_path @ ''/feedback''"
| "request_path (GetProfile _) = me_path"
| "request_path (UpdateProfile _ _) = me_path"
| "request_path (GetPreferences _) = me_path @ ''/preferences''"
| "request_path (UpdatePreferences _ _) = me_path @ ''/preferences''"
| "request_path (CreateAdministrator _ _ _ _) = admin_users_path"
| "request_path (ResetTemporaryPassword _ i) =
     admin_users_path @ ''/'' @ uuid_str i @ ''/reset-temporary-password''"
| "request_path (ListAdministrators _) = admin_users_path"
| "request_path (AccountDetail _ i) = admin_users_path @ ''/'' @ uuid_str i"
| "request_path (BlockAccount _ i _) = admin_users_path @ ''/'' @ uuid_str i @ ''/block''"
| "request_path (AccountMetrics _) = API_PREFIX @ ''/admin/metrics''"
| "request_path (ListAuditEntries _ _ _) = API_PREFIX @ ''/admin/audit''"
| "request_path (PutUnderReview _ i) = ''/internal/users/'' @ uuid_str i @ ''/review''"
| "request_path (LiftReview _ i) = ''/internal/users/'' @ uuid_str i @ ''/review''"
| "request_path (GetPublicProfile _ i) = ''/internal/users/'' @ uuid_str i @ ''/profile''"
| "request_path (AdministratorIdentity _ i) = ''/internal/administrators/'' @ uuid_str i @ ''/identity''"
| "request_path (SearchUsers _ _ _) = API_PREFIX @ ''/search/users''"
| "request_path (SearchAccounts _ _ _) = admin_users_path @ ''/search''"

record profile_response =
  pr_id :: string
  pr_email :: string
  pr_handle :: string
  pr_display_name :: "string option"
  pr_bio :: "string option"

record public_profile_response =
  ppr_id :: string
  ppr_handle :: string
  ppr_display_name :: "string option"
  ppr_bio :: "string option"
  ppr_created_at :: time
  ppr_profile_visibility :: string

record login_response =
  lr_access_token :: string
  lr_token_type :: string
  lr_expires_in :: int
  lr_refresh_token :: "string option"
  lr_must_change_password :: bool

record credential_response =
  cr_id :: string
  cr_email :: string
  cr_handle :: string
  cr_role :: string
  cr_temporary_password :: string

record administrator_response =
  ar_id :: string
  ar_email :: string
  ar_handle :: string
  ar_role :: string
  ar_temporary_password_status :: "string option"
  ar_temporary_password_expires_at :: "time option"

record user_account_response =
  uar_id :: string
  uar_email :: string
  uar_handle :: string
  uar_display_name :: "string option"
  uar_status :: string
  uar_status_reason :: "string option"
  uar_status_changed_at :: "time option"
  uar_is_email_verified :: bool
  uar_created_at :: time

record search_user_response =
  sur_id :: uuid
  sur_handle :: string
  sur_display_name :: "string option"
  sur_is_private :: bool

text \<open>\<open>AuditEntryResponse.model_validate\<close> reads the fields of an entry with its target.\<close>

record audit_entry_response =
  aer_id :: uuid
  aer_occurred_at :: time
  aer_actor_id :: uuid
  aer_actor_email :: string
  aer_action :: string
  aer_target_type :: string
  aer_target_id :: uuid
  aer_target_handle :: "string option"
  aer_details :: "(string \<times> json_value) list"

definition audit_entry_validate :: "audit_entry_with_target \<Rightarrow> audit_entry_response" where
  "audit_entry_validate e =
     \<lparr> aer_id = ae_id e, aer_occurred_at = ae_occurred_at e, aer_actor_id = ae_actor_id e,
       aer_actor_email = ae_actor_email e, aer_action = ae_action e, aer_target_type = ae_target_type e,
       aer_target_id = ae_target_id e, aer_target_handle = ae_target_handle e, aer_details = ae_details e \<rparr>"

record audit_page =
  ap_items :: "audit_entry_response list"
  ap_total :: nat

record administrator_identity =
  ai_id :: uuid
  ai_email :: string

record problem_details =
  pd_type :: string
  pd_title :: string
  pd_status :: int
  pd_detail :: string
  pd_trace_id :: string
  pd_instance :: string

datatype body =
    RegisterResponse string string string
  | StatusHandle string string
  | StatusOnly string
  | LoginResponse login_response
  | FeedbackId string
  | ProfileResponse profile_response
  | PreferencesResponse profile_visibility feed_language
  | AdministratorCredentialResponse credential_response
  | AdministratorResponses "administrator_response list"
  | UserAccountResponse user_account_response
  | AccountMetricsResponse nat nat
  | AuditPage audit_page
  | PublicProfileResponse public_profile_response
  | AdministratorIdentityResponse administrator_identity
  | SearchUserPage "search_user_response list" "string option"
  | UserAccountPage "user_account_response list" "string option"
  | NoContent
  | ProblemDetails problem_details

record response =
  r_status :: int
  r_body :: body
  r_headers :: "(string \<times> string) list"

definition answer :: "int \<Rightarrow> body \<Rightarrow> ('r, response) op" where
  "answer status body = ret \<lparr> r_status = status, r_body = body, r_headers = [] \<rparr>"

section \<open>Errors as responses\<close>

definition TYPE_BASE :: string where "TYPE_BASE = ''https://udesa-x.dev/errors''"

definition problem_response :: "'r env \<Rightarrow> string \<Rightarrow> problem \<Rightarrow> ('r, response) op" where
  "problem_response E path p =
     bnd (uuid4 E) (\<lambda>trace.
     ret \<lparr> r_status = p_status p,
           r_body = ProblemDetails
             \<lparr> pd_type = TYPE_BASE @ ''/'' @ p_code p, pd_title = p_title p, pd_status = p_status p,
               pd_detail = p_detail p, pd_trace_id = hex_fixed 32 (unat trace), pd_instance = path \<rparr>,
           r_headers = p_headers p \<rparr>)"

definition validation_failed :: problem where
  "validation_failed = Problem 422 ''validation-failed'' (''La solicitud tiene campos inv'' @ [CHR 0xE1] @ ''lidos'')
     (''Revis'' @ [CHR 0xE1] @ '' los campos indicados y volv'' @ [CHR 0xE9] @ '' a intentar.'')"

text \<open>
  \<open>problem_error_handler\<close> and \<open>validation_error_handler\<close>; the list of offending fields is left out.
  Any other exception has no handler and becomes Starlette's plain 500.
\<close>

definition error_response :: "'r env \<Rightarrow> string \<Rightarrow> exn \<Rightarrow> ('r, response) op" where
  "error_response E path e =
     (case problem_of e of
        Some p \<Rightarrow> problem_response E path p
      | None \<Rightarrow>
          if e = RequestValidationError then problem_response E path validation_failed
          else answer 500 (StatusOnly ''Internal Server Error''))"

definition validated :: "'a option \<Rightarrow> ('r, 'a) op" where
  "validated x = (case x of None \<Rightarrow> raise RequestValidationError | Some v \<Rightarrow> ret v)"

section \<open>Bodies\<close>

definition profile_to_response :: "user \<Rightarrow> body" where
  "profile_to_response user = ProfileResponse
     \<lparr> pr_id = uuid_str (u_id user), pr_email = u_email user, pr_handle = u_handle user,
       pr_display_name = u_display_name user, pr_bio = u_bio user \<rparr>"

definition preferences_to_response :: "user \<Rightarrow> body" where
  "preferences_to_response user =
     PreferencesResponse (u_profile_visibility user) (u_feed_language user)"

definition account_to_response :: "user \<Rightarrow> user_account_response" where
  "account_to_response user =
     \<lparr> uar_id = uuid_str (u_id user), uar_email = u_email user, uar_handle = u_handle user,
       uar_display_name = u_display_name user, uar_status = status_value (u_status user),
       uar_status_reason = u_status_reason user, uar_status_changed_at = u_status_changed_at user,
       uar_is_email_verified = u_is_email_verified user, uar_created_at = u_created_at user \<rparr>"

definition session_body :: "issued_session \<Rightarrow> body" where
  "session_body session = LoginResponse
     \<lparr> lr_access_token = is_access_token session, lr_token_type = ''bearer'',
       lr_expires_in = is_expires_in session, lr_refresh_token = Some (is_refresh_token session),
       lr_must_change_password = False \<rparr>"

definition credential :: "user \<Rightarrow> string \<Rightarrow> body" where
  "credential user temporary_password = AdministratorCredentialResponse
     \<lparr> cr_id = uuid_str (u_id user), cr_email = u_email user, cr_handle = u_handle user,
       cr_role = role_value (u_role user), cr_temporary_password = temporary_password \<rparr>"

definition temporary_password_status :: "user \<Rightarrow> time \<Rightarrow> string option" where
  "temporary_password_status user now =
     (if \<not> u_must_change_password user then None
      else Some (if temporary_password_expired user now then ''expired'' else ''pending''))"

definition administrator_to_response :: "time \<Rightarrow> user \<Rightarrow> administrator_response" where
  "administrator_to_response now user =
     \<lparr> ar_id = uuid_str (u_id user), ar_email = u_email user, ar_handle = u_handle user,
       ar_role = role_value (u_role user),
       ar_temporary_password_status = temporary_password_status user now,
       ar_temporary_password_expires_at = u_temporary_password_expires_at user \<rparr>"

section \<open>Handlers\<close>

definition current_user :: "'r env \<Rightarrow> settings \<Rightarrow> string \<Rightarrow> string \<Rightarrow> ('r, user) op" where
  "current_user E S path bearer = get_current_user E S path bearer"

definition current_superadmin :: "'r env \<Rightarrow> settings \<Rightarrow> string \<Rightarrow> string \<Rightarrow> ('r, user) op" where
  "current_superadmin E S path bearer = bnd (current_user E S path bearer) require_superadmin"

definition current_administrator :: "'r env \<Rightarrow> settings \<Rightarrow> string \<Rightarrow> string \<Rightarrow> ('r, user) op" where
  "current_administrator E S path bearer = bnd (current_user E S path bearer) require_administrator"

text \<open>
  \<open>POST /auth/refresh\<close>: a detected reuse is answered and not raised, so the request commits.
\<close>

definition refresh_or_answer :: "'r env \<Rightarrow> settings \<Rightarrow> string \<Rightarrow> string \<Rightarrow> ('r, response) op" where
  "refresh_or_answer E S path refresh_token w =
     (case refresh E S refresh_token w of
        (Inl (ReusedRefreshTokenError p), w') \<Rightarrow> problem_response E path p w'
      | (Inl e, w') \<Rightarrow> (Inl e, w')
      | (Inr session, w') \<Rightarrow> answer 200 (session_body session) w')"

definition register_route ::
  "'r env \<Rightarrow> settings \<Rightarrow> string \<Rightarrow> string \<Rightarrow> string \<Rightarrow> bool \<Rightarrow> ('r, response) op" where
  "register_route E S email handle password terms_accepted =
     bnd (validated (RegisterRequest E email handle password terms_accepted)) (\<lambda>(email, handle, password).
     bnd (register E S email handle password) (\<lambda>user.
     answer 201 (RegisterResponse (uuid_str (u_id user)) (u_email user) (u_handle user))))"

definition verify_route ::
  "'r env \<Rightarrow> settings \<Rightarrow> string \<Rightarrow> ('r, response) op" where
  "verify_route E S token =
     bnd (validated (required_text token)) (\<lambda>token.
     bnd (verify_email E token) (\<lambda>user. answer 200 (StatusHandle ''verified'' (u_handle user))))"

definition verify_from_link_route ::
  "'r env \<Rightarrow> settings \<Rightarrow> string \<Rightarrow> ('r, response) op" where
  "verify_from_link_route E S token =
     bnd (verify_email E token) (\<lambda>user. answer 200 (StatusHandle ''verified'' (u_handle user)))"

definition resend_verification_route ::
  "'r env \<Rightarrow> settings \<Rightarrow> string \<Rightarrow> ('r, response) op" where
  "resend_verification_route E S email =
     bnd (validated (e_validate_email E email)) (\<lambda>email.
     bnd (resend_verification E S email) (\<lambda>_. answer 202 (StatusOnly ''accepted'')))"

definition login_route ::
  "'r env \<Rightarrow> settings \<Rightarrow> string \<Rightarrow> string \<Rightarrow> ('r, response) op" where
  "login_route E S identifier password =
     bnd (validated (required_text identifier)) (\<lambda>identifier.
     bnd (validated (required_text password)) (\<lambda>password.
     bnd (login E S identifier password) (\<lambda>session. answer 200 (session_body session))))"

definition refresh_route ::
  "'r env \<Rightarrow> settings \<Rightarrow> string \<Rightarrow> string \<Rightarrow> ('r, response) op" where
  "refresh_route E S path refresh_token =
     bnd (validated (required_text refresh_token)) (\<lambda>token. refresh_or_answer E S path token)"

definition logout_route ::
  "'r env \<Rightarrow> settings \<Rightarrow> string \<Rightarrow> string option \<Rightarrow> ('r, response) op" where
  "logout_route E S bearer refresh_token =
     bnd (logout E S bearer refresh_token) (\<lambda>_. answer 204 NoContent)"

definition admin_login_route ::
  "'r env \<Rightarrow> settings \<Rightarrow> string \<Rightarrow> string \<Rightarrow> ('r, response) op" where
  "admin_login_route E S email password =
     bnd (validated (e_validate_email E email)) (\<lambda>email.
     bnd (validated (required_text password)) (\<lambda>password.
     bnd (admin_login E S email password) (\<lambda>(token, expires_in, must_change_password).
     answer 200 (LoginResponse
       \<lparr> lr_access_token = token, lr_token_type = ''bearer'', lr_expires_in = expires_in,
         lr_refresh_token = None, lr_must_change_password = must_change_password \<rparr>))))"

definition forgot_password_route ::
  "'r env \<Rightarrow> settings \<Rightarrow> string \<Rightarrow> ('r, response) op" where
  "forgot_password_route E S identifier =
     bnd (validated (required_text identifier)) (\<lambda>identifier.
     bnd (forgot_password E S identifier) (\<lambda>_. answer 202 (StatusOnly ''accepted'')))"

definition reset_password_route ::
  "'r env \<Rightarrow> settings \<Rightarrow> string \<Rightarrow> string \<Rightarrow> string \<Rightarrow> ('r, response) op" where
  "reset_password_route E S token password password_confirmation =
     bnd (validated (required_text token)) (\<lambda>token.
     bnd (validated (confirmed_password password password_confirmation)) (\<lambda>password.
     bnd (reset_password E S token password) (\<lambda>user.
     answer 200 (StatusHandle ''reset'' (u_handle user)))))"

definition change_password_route ::
  "'r env \<Rightarrow> settings \<Rightarrow> string \<Rightarrow> string \<Rightarrow> string \<Rightarrow> string \<Rightarrow> string \<Rightarrow> ('r, response) op" where
  "change_password_route E S path bearer current_password password password_confirmation =
     bnd (current_user E S path bearer) (\<lambda>user.
     bnd (validated (ChangePasswordRequest current_password password password_confirmation))
       (\<lambda>(current_password, password).
     bnd (change_password E S user current_password password) (\<lambda>_.
     answer 200 (StatusOnly ''changed''))))"

definition delete_account_route ::
  "'r env \<Rightarrow> settings \<Rightarrow> string \<Rightarrow> string \<Rightarrow> string \<Rightarrow> ('r, response) op" where
  "delete_account_route E S path bearer current_password =
     bnd (current_user E S path bearer) (\<lambda>user.
     bnd (validated (required_text current_password)) (\<lambda>current_password.
     bnd (delete_account E S user current_password) (\<lambda>_.
     answer 200 (StatusOnly ''deleted''))))"

definition submit_feedback_route ::
  "'r env \<Rightarrow> settings \<Rightarrow> string \<Rightarrow> string \<Rightarrow> string \<Rightarrow> string \<Rightarrow> string \<Rightarrow> ('r, response) op" where
  "submit_feedback_route E S path bearer message device_os app_version =
     bnd (current_user E S path bearer) (\<lambda>user.
     bnd (validated (SubmitFeedbackRequest message device_os app_version)) (\<lambda>(message, device_os, app_version).
     bnd (submit E user message device_os app_version) (\<lambda>feedback.
     answer 201 (FeedbackId (uuid_str (fb_id feedback))))))"

definition get_profile_route ::
  "'r env \<Rightarrow> settings \<Rightarrow> string \<Rightarrow> string \<Rightarrow> ('r, response) op" where
  "get_profile_route E S path bearer =
     bnd (current_user E S path bearer) (\<lambda>user. answer 200 (profile_to_response user))"

definition update_profile_route ::
  "'r env \<Rightarrow> settings \<Rightarrow> string \<Rightarrow> string \<Rightarrow> profile_body \<Rightarrow> ('r, response) op" where
  "update_profile_route E S path bearer payload =
     bnd (current_user E S path bearer) (\<lambda>user.
     bnd (validated (UpdateProfileRequest E payload)) (\<lambda>changes.
     bnd (update_profile user changes) (\<lambda>updated. answer 200 (profile_to_response updated))))"

definition get_preferences_route ::
  "'r env \<Rightarrow> settings \<Rightarrow> string \<Rightarrow> string \<Rightarrow> ('r, response) op" where
  "get_preferences_route E S path bearer =
     bnd (current_user E S path bearer) (\<lambda>user.
     answer 200 (preferences_to_response user))"

definition update_preferences_route ::
  "'r env \<Rightarrow> settings \<Rightarrow> string \<Rightarrow> string \<Rightarrow> preferences_body \<Rightarrow> ('r, response) op" where
  "update_preferences_route E S path bearer payload =
     bnd (current_user E S path bearer) (\<lambda>user.
     bnd (validated (UpdatePreferencesRequest payload)) (\<lambda>changes.
     bnd (update_preferences E user changes) (\<lambda>updated.
     answer 200 (preferences_to_response updated))))"

definition create_administrator_route ::
  "'r env \<Rightarrow> settings \<Rightarrow> string \<Rightarrow> string \<Rightarrow> string \<Rightarrow> string \<Rightarrow> string \<Rightarrow> ('r, response) op" where
  "create_administrator_route E S path bearer email handle role =
     bnd (current_superadmin E S path bearer) (\<lambda>administrator.
     bnd (validated (CreateAdministratorRequest E email handle role)) (\<lambda>(email, handle, role).
     bnd (case Role role of None \<Rightarrow> raise ValueError | Some r \<Rightarrow> ret r) (\<lambda>role.
     bnd (create_administrator E S (u_id administrator) email handle role) (\<lambda>(user, temporary_password).
     answer 201 (credential user temporary_password)))))"

definition reset_temporary_password_route ::
  "'r env \<Rightarrow> settings \<Rightarrow> string \<Rightarrow> string \<Rightarrow> uuid \<Rightarrow> ('r, response) op" where
  "reset_temporary_password_route E S path bearer user_id =
     bnd (current_superadmin E S path bearer) (\<lambda>administrator.
     bnd (reset_temporary_password E user_id (u_id administrator)) (\<lambda>(user, temporary_password).
     answer 200 (credential user temporary_password)))"

definition list_administrators_route ::
  "'r env \<Rightarrow> settings \<Rightarrow> string \<Rightarrow> string \<Rightarrow> ('r, response) op" where
  "list_administrators_route E S path bearer =
     bnd (current_superadmin E S path bearer) (\<lambda>_.
     bnd (now_utc E) (\<lambda>now.
     bnd list_administrators (\<lambda>us.
     answer 200 (AdministratorResponses (map (administrator_to_response now) us)))))"

definition account_detail_route ::
  "'r env \<Rightarrow> settings \<Rightarrow> string \<Rightarrow> string \<Rightarrow> uuid \<Rightarrow> ('r, response) op" where
  "account_detail_route E S path bearer user_id =
     bnd (current_administrator E S path bearer) (\<lambda>_.
     bnd (account_detail user_id) (\<lambda>user. answer 200 (UserAccountResponse (account_to_response user))))"

definition block_account_route ::
  "'r env \<Rightarrow> settings \<Rightarrow> string \<Rightarrow> string \<Rightarrow> uuid \<Rightarrow> string \<Rightarrow> ('r, response) op" where
  "block_account_route E S path bearer user_id reason =
     bnd (current_administrator E S path bearer) (\<lambda>administrator.
     bnd (validated (BlockAccountRequest reason)) (\<lambda>reason.
     bnd (block E S administrator user_id reason) (\<lambda>_. answer 204 NoContent)))"

definition account_metrics_route ::
  "'r env \<Rightarrow> settings \<Rightarrow> string \<Rightarrow> string \<Rightarrow> ('r, response) op" where
  "account_metrics_route E S path bearer =
     bnd (current_administrator E S path bearer) (\<lambda>_.
     bnd account_metrics (\<lambda>metrics.
     answer 200 (AccountMetricsResponse (am_active_users metrics) (am_accounts_under_review metrics))))"

definition list_audit_entries_route ::
  "'r env \<Rightarrow> settings \<Rightarrow> string \<Rightarrow> string \<Rightarrow> int \<Rightarrow> int \<Rightarrow> ('r, response) op" where
  "list_audit_entries_route E S path bearer limit offset =
     bnd (current_administrator E S path bearer) (\<lambda>_.
     bnd (validated (if 1 \<le> limit \<and> limit \<le> 100 \<and> 0 \<le> offset then Some () else None)) (\<lambda>_.
     bnd (audit_list_page (nat limit) (nat offset)) (\<lambda>(page, total).
     answer 200 (AuditPage \<lparr> ap_items = map audit_entry_validate page, ap_total = total \<rparr>))))"

definition put_under_review_route ::
  "'r env \<Rightarrow> settings \<Rightarrow> string option \<Rightarrow> uuid \<Rightarrow> ('r, response) op" where
  "put_under_review_route E S token user_id =
     bnd (require_internal_token S token) (\<lambda>_.
     bnd (put_under_review E S user_id) (\<lambda>_. answer 204 NoContent))"

definition lift_review_route ::
  "'r env \<Rightarrow> settings \<Rightarrow> string option \<Rightarrow> uuid \<Rightarrow> ('r, response) op" where
  "lift_review_route E S token user_id =
     bnd (require_internal_token S token) (\<lambda>_.
     bnd (lift_review E user_id) (\<lambda>_. answer 204 NoContent))"

definition get_public_profile_route ::
  "'r env \<Rightarrow> settings \<Rightarrow> string option \<Rightarrow> uuid \<Rightarrow> ('r, response) op" where
  "get_public_profile_route E S token user_id =
     bnd (require_internal_token S token) (\<lambda>_.
     bnd (public_profile user_id) (\<lambda>user.
     answer 200 (PublicProfileResponse
       \<lparr> ppr_id = uuid_str (u_id user), ppr_handle = u_handle user,
         ppr_display_name = u_display_name user, ppr_bio = u_bio user,
         ppr_created_at = u_created_at user,
         ppr_profile_visibility = visibility_value (u_profile_visibility user) \<rparr>)))"

definition administrator_identity_route ::
  "'r env \<Rightarrow> settings \<Rightarrow> string option \<Rightarrow> uuid \<Rightarrow> ('r, response) op" where
  "administrator_identity_route E S token actor_id =
     bnd (require_internal_token S token) (\<lambda>_.
     bnd (audit_administrator actor_id) (\<lambda>actor.
     answer 200 (AdministratorIdentityResponse \<lparr> ai_id = u_id actor, ai_email = u_email actor \<rparr>)))"

definition search_user_to_response :: "search_candidate \<Rightarrow> search_user_response" where
  "search_user_to_response row =
     \<lparr> sur_id = u_id (sc_user row), sur_handle = u_handle (sc_user row),
       sur_display_name = u_display_name (sc_user row),
       sur_is_private = (visibility_value (u_profile_visibility (sc_user row)) = ''protected'') \<rparr>"

definition search_users_route ::
  "'r env \<Rightarrow> settings \<Rightarrow> string \<Rightarrow> string \<Rightarrow> string \<Rightarrow> string option \<Rightarrow> ('r, response) op" where
  "search_users_route E S path bearer q cursor =
     bnd (current_user E S path bearer) (\<lambda>user.
     bnd (validated (if 3 \<le> length q then Some q else None)) (\<lambda>q.
     bnd (search E q (u_id user) cursor) (\<lambda>(candidates, next_cursor).
     answer 200 (SearchUserPage (map search_user_to_response candidates) next_cursor))))"

definition search_accounts_route ::
  "'r env \<Rightarrow> settings \<Rightarrow> string \<Rightarrow> string \<Rightarrow> string \<Rightarrow> string option \<Rightarrow> ('r, response) op" where
  "search_accounts_route E S path bearer q cursor =
     bnd (current_administrator E S path bearer) (\<lambda>_.
     bnd (validated (if length q \<le> 100 then Some q else None)) (\<lambda>q.
     bnd (search_accounts q cursor) (\<lambda>(users, next_cursor).
     answer 200 (UserAccountPage (map account_to_response users) next_cursor))))"

text \<open>The routers \<open>main.py\<close> includes, each route under its path.\<close>

fun route :: "'r env \<Rightarrow> settings \<Rightarrow> request \<Rightarrow> ('r, response) op" where
  "route E S (Register email handle password terms_accepted) =
     register_route E S email handle password terms_accepted"
| "route E S (Verify token) =
     verify_route E S token"
| "route E S (VerifyFromLink token) =
     verify_from_link_route E S token"
| "route E S (ResendVerification email) =
     resend_verification_route E S email"
| "route E S (Login identifier password) =
     login_route E S identifier password"
| "route E S (Refresh refresh_token) =
     refresh_route E S (request_path (Refresh refresh_token)) refresh_token"
| "route E S (Logout bearer refresh_token) =
     logout_route E S bearer refresh_token"
| "route E S (AdminLogin email password) =
     admin_login_route E S email password"
| "route E S (ForgotPassword identifier) =
     forgot_password_route E S identifier"
| "route E S (ResetPassword token password password_confirmation) =
     reset_password_route E S token password password_confirmation"
| "route E S (ChangePassword bearer current_password password password_confirmation) =
     change_password_route E S (request_path (ChangePassword bearer current_password password password_confirmation)) bearer current_password password password_confirmation"
| "route E S (DeleteAccount bearer current_password) =
     delete_account_route E S (request_path (DeleteAccount bearer current_password)) bearer current_password"
| "route E S (SubmitFeedback bearer message device_os app_version) =
     submit_feedback_route E S (request_path (SubmitFeedback bearer message device_os app_version)) bearer message device_os app_version"
| "route E S (GetProfile bearer) =
     get_profile_route E S (request_path (GetProfile bearer)) bearer"
| "route E S (UpdateProfile bearer payload) =
     update_profile_route E S (request_path (UpdateProfile bearer payload)) bearer payload"
| "route E S (GetPreferences bearer) =
     get_preferences_route E S (request_path (GetPreferences bearer)) bearer"
| "route E S (UpdatePreferences bearer payload) =
     update_preferences_route E S (request_path (UpdatePreferences bearer payload)) bearer payload"
| "route E S (CreateAdministrator bearer email handle role) =
     create_administrator_route E S (request_path (CreateAdministrator bearer email handle role)) bearer email handle role"
| "route E S (ResetTemporaryPassword bearer user_id) =
     reset_temporary_password_route E S (request_path (ResetTemporaryPassword bearer user_id)) bearer user_id"
| "route E S (ListAdministrators bearer) =
     list_administrators_route E S (request_path (ListAdministrators bearer)) bearer"
| "route E S (AccountDetail bearer user_id) =
     account_detail_route E S (request_path (AccountDetail bearer user_id)) bearer user_id"
| "route E S (BlockAccount bearer user_id reason) =
     block_account_route E S (request_path (BlockAccount bearer user_id reason)) bearer user_id reason"
| "route E S (AccountMetrics bearer) =
     account_metrics_route E S (request_path (AccountMetrics bearer)) bearer"
| "route E S (ListAuditEntries bearer limit offset) =
     list_audit_entries_route E S (request_path (ListAuditEntries bearer limit offset)) bearer limit offset"
| "route E S (PutUnderReview token user_id) =
     put_under_review_route E S token user_id"
| "route E S (LiftReview token user_id) =
     lift_review_route E S token user_id"
| "route E S (GetPublicProfile token user_id) =
     get_public_profile_route E S token user_id"
| "route E S (AdministratorIdentity token actor_id) =
     administrator_identity_route E S token actor_id"
| "route E S (SearchUsers bearer q cursor) =
     search_users_route E S (request_path (SearchUsers bearer q cursor)) bearer q cursor"
| "route E S (SearchAccounts bearer q cursor) =
     search_accounts_route E S (request_path (SearchAccounts bearer q cursor)) bearer q cursor"

declare route.simps [simp del]

section \<open>Serving a request\<close>

definition serve :: "'r env \<Rightarrow> settings \<Rightarrow> request \<Rightarrow> 'r world \<Rightarrow> response \<times> 'r world" where
  "serve E S req w =
     (case session_scope E (route E S req) w of
        (Inr r, w') \<Rightarrow> (r, w')
      | (Inl e, w') \<Rightarrow>
          (case error_response E (request_path req) e w' of
             (Inr r, w'') \<Rightarrow> (r, w'')
           | (Inl _, w'') \<Rightarrow> (\<lparr> r_status = 500, r_body = NoContent, r_headers = [] \<rparr>, w'')))"

end
