(* ===== verification/Event_Consumer.thy ===== *)
theory Event_Consumer
  imports Repositories
begin

text \<open>
  The events this service takes off the queue: the schema of \<open>app/audit_events.py\<close>, the handler of
  \<open>api/event_handlers.py\<close> and what \<open>EventConsumer._settle\<close> does with a delivery
  (\<open>infrastructure/rabbitmq/event_consumer.py\<close>). The life of the consumer is in \<open>Event_Delivery\<close>.
\<close>

section \<open>The schema\<close>

definition ADMIN_ACTION_RECORDED :: string where
  "ADMIN_ACTION_RECORDED = ''admin.action_recorded.v1''"

text \<open>A field of an object, and the validators of the fields; \<open>None\<close> is a \<open>ValidationError\<close>.\<close>

fun json_field :: "json \<Rightarrow> string \<Rightarrow> json option" where
  "json_field (JObject members) name = map_of members name"
| "json_field _ name = None"

definition json_literal :: "string list \<Rightarrow> json \<Rightarrow> string option" where
  "json_literal values j = (case j of JString s \<Rightarrow> if s \<in> set values then Some s else None | _ \<Rightarrow> None)"

definition json_email :: "'r env \<Rightarrow> json \<Rightarrow> string option" where
  "json_email E j = (case j of JString s \<Rightarrow> e_validate_email E s | _ \<Rightarrow> None)"

text \<open>\<open>Field(ge=1, strict=True)\<close>: an integer, and neither a boolean nor a text that reads as one.\<close>

definition AuditDetails :: "json \<Rightarrow> int option" where
  "AuditDetails j = Option.bind (json_field j ''reports_count'') (\<lambda>v.
     case v of JInt n \<Rightarrow> if 1 \<le> n then Some n else None | _ \<Rightarrow> None)"

record audit_data =
  ad_actor_id :: uuid
  ad_actor_email :: string
  ad_action :: string
  ad_target_type :: string
  ad_target_id :: uuid
  ad_reports_count :: int

definition AuditData :: "'r env \<Rightarrow> json \<Rightarrow> audit_data option" where
  "AuditData E j =
     Option.bind (Option.bind (json_field j ''actor_id'') (e_json_uuid E)) (\<lambda>actor_id.
     Option.bind (Option.bind (json_field j ''actor_email'') (json_email E)) (\<lambda>actor_email.
     Option.bind (Option.bind (json_field j ''action'')
       (json_literal [''report.dismissed'', ''report.resolved''])) (\<lambda>action.
     Option.bind (Option.bind (json_field j ''target_type'') (json_literal [''user''])) (\<lambda>target_type.
     Option.bind (Option.bind (json_field j ''target_id'') (e_json_uuid E)) (\<lambda>target_id.
     Option.bind (Option.bind (json_field j ''details'') AuditDetails) (\<lambda>count.
     Some \<lparr> ad_actor_id = actor_id, ad_actor_email = actor_email, ad_action = action,
            ad_target_type = target_type, ad_target_id = target_id, ad_reports_count = count \<rparr>))))))"

record audit_event =
  av_id :: uuid
  av_time :: time
  av_data :: audit_data

definition AuditEvent :: "'r env \<Rightarrow> json \<Rightarrow> audit_event option" where
  "AuditEvent E j =
     Option.bind (Option.bind (json_field j ''specversion'') (json_literal [''1.0''])) (\<lambda>_.
     Option.bind (Option.bind (json_field j ''id'') (e_json_uuid E)) (\<lambda>i.
     Option.bind (Option.bind (json_field j ''source'') (json_literal [''posts-api''])) (\<lambda>_.
     Option.bind (Option.bind (json_field j ''type'') (json_literal [ADMIN_ACTION_RECORDED])) (\<lambda>_.
     Option.bind (Option.bind (json_field j ''time'') (e_json_instant E)) (\<lambda>t.
     Option.bind (Option.bind (json_field j ''data'') (AuditData E)) (\<lambda>data.
     Some \<lparr> av_id = i, av_time = t, av_data = data \<rparr>))))))"

definition model_validate_json :: "'r env \<Rightarrow> string \<Rightarrow> audit_event option" where
  "model_validate_json E body = Option.bind (e_json_parse E body) (AuditEvent E)"

definition event_entry :: "audit_event \<Rightarrow> audit_entry" where
  "event_entry ev =
     \<lparr> ae_id = av_id ev, ae_occurred_at = av_time ev, ae_actor_id = ad_actor_id (av_data ev),
       ae_actor_email = ad_actor_email (av_data ev), ae_action = ad_action (av_data ev),
       ae_target_type = ad_target_type (av_data ev), ae_target_id = ad_target_id (av_data ev),
       ae_details = [(''reports_count'', JNumber (ad_reports_count (av_data ev)))] \<rparr>"

section \<open>Handling a delivery\<close>

datatype event_outcome = Outcome_ack | Outcome_reject

definition handle_event :: "'r env \<Rightarrow> string \<Rightarrow> ('r, event_outcome) op" where
  "handle_event E body =
     (case model_validate_json E body of
        None \<Rightarrow> ret Outcome_reject
      | Some event \<Rightarrow>
          bnd (session_scope E (audit_add (event_entry event))) (\<lambda>_. ret Outcome_ack))"

text \<open>What the broker is told: acknowledged, sent to the dead letter queue, or back in the queue.\<close>

datatype settlement = Acked | Rejected | Requeued

definition settle :: "'r env \<Rightarrow> string \<Rightarrow> 'r world \<Rightarrow> settlement \<times> 'r world" where
  "settle E body w =
     (case handle_event E body w of
        (Inl e, w') \<Rightarrow> (Requeued, w')
      | (Inr Outcome_ack, w') \<Rightarrow> (Acked, w')
      | (Inr Outcome_reject, w') \<Rightarrow> (Rejected, w'))"

section \<open>Facts\<close>

lemma literal_Some: "json_literal values j = Some s \<Longrightarrow> s \<in> set values"
  by (auto simp: json_literal_def split: json.splits if_splits)

lemma event_entry_action:
  "model_validate_json E body = Some ev \<Longrightarrow> ck_admin_audit_action (event_entry ev)"
  by (auto simp: model_validate_json_def AuditEvent_def AuditData_def ck_admin_audit_action_def
      event_entry_def bind_eq_Some_conv dest!: literal_Some)

lemma snd_settle: "snd (settle E body w) = after (handle_event E body w)"
  by (auto simp: settle_def split: prod.split sum.split event_outcome.split)

text \<open>What handling an event does to the log, and that a valid one always commits.\<close>

definition with_entry :: "audit_entry \<Rightarrow> db \<Rightarrow> db" where
  "with_entry entry d = d\<lparr>admin_audit_log :=
     if ae_id entry \<in> ae_id ` set (admin_audit_log d) then admin_audit_log d else admin_audit_log d @ [entry]\<rparr>"

lemma with_entry_twice: "with_entry entry (with_entry entry d) = with_entry entry d"
  by (simp add: with_entry_def)

lemma storable_with_entry:
  "storable d \<Longrightarrow> ck_admin_audit_action entry \<Longrightarrow> storable (with_entry entry d)"
  by (auto simp: storable_def with_entry_def constraints_def tokens_constraints_def)

lemma settle_event:
  assumes "storable (w_db w)" and "model_validate_json E body = Some ev"
  shows "settle E body w = (Acked, w\<lparr>w_tx_now := e_clock E (w_draws w), w_draws := Suc (w_draws w),
    w_db := with_entry (event_entry ev) (w_db w)\<rparr>)"
proof -
  let ?w = "w\<lparr>w_tx_now := e_clock E (w_draws w), w_draws := Suc (w_draws w)\<rparr>"
  have "audit_add (event_entry ev) ?w = (Inr (), ?w\<lparr>w_db := with_entry (event_entry ev) (w_db w)\<rparr>)"
    by (simp add: audit_add_def with_entry_def)
  from session_scope_Inr [where m = "audit_add (event_entry ev)", OF this] storable_with_entry [OF assms(1) event_entry_action [OF assms(2)]]
  have "session_scope E (audit_add (event_entry ev)) w = (Inr (), ?w\<lparr>w_db := with_entry (event_entry ev) (w_db w)\<rparr>)"
    by simp
  then show ?thesis by (simp add: settle_def handle_event_def assms(2) bnd_Inr)
qed

lemma settle_malformed: "model_validate_json E body = None \<Longrightarrow> settle E body w = (Rejected, w)"
  by (simp add: settle_def handle_event_def)

end
