(* ===== verification/Superadmin_Seed.thy ===== *)
theory Superadmin_Seed
  imports Schemas
begin

text \<open>
  \<open>seed_superadmin.py\<close>, which runs before the service starts on every deploy: the checks of the
  configuration, the one transaction, and the exit status.
\<close>

text \<open>An absent text and an empty one are both missing.\<close>

definition seed_validate :: "settings \<Rightarrow> exn + string \<times> string \<times> string" where
  "seed_validate S =
     (case (superadmin_email S, superadmin_password S) of
        (Some email, Some password) \<Rightarrow>
          if email = [] \<or> password = [] then Inl SeedConfigurationError
          else if length password < PASSWORD_MIN_LENGTH then Inl SeedConfigurationError
          else if enforce_password_policy password = None then Inl SeedConfigurationError
          else Inr (email, superadmin_handle S, password)
      | _ \<Rightarrow> Inl SeedConfigurationError)"

definition seed_run :: "'r env \<Rightarrow> settings \<Rightarrow> ('r, bool) op" where
  "seed_run E S =
     (case seed_validate S of
        Inl e \<Rightarrow> raise e
      | Inr (email, handle, password) \<Rightarrow>
          bnd (session_scope E (ensure_superadmin E email handle password)) (\<lambda>created.
          ret (created \<noteq> None)))"

text \<open>\<open>main()\<close>: 2 for a bad configuration; any other exception ends the process with 1.\<close>

definition seed_main :: "'r env \<Rightarrow> settings \<Rightarrow> 'r world \<Rightarrow> int \<times> 'r world" where
  "seed_main E S w =
     (case seed_run E S w of
        (Inr _, w') \<Rightarrow> (0, w')
      | (Inl e, w') \<Rightarrow> (if e = SeedConfigurationError then 2 else 1, w'))"

lemma snd_seed_main: "snd (seed_main E S w) = after (seed_run E S w)"
  by (auto simp: seed_main_def split: prod.split sum.split)

lemma seed_main_bad: "seed_validate S = Inl e \<Longrightarrow> e = SeedConfigurationError \<and> seed_main E S w = (2, w)"
  by (auto simp: seed_main_def seed_run_def seed_validate_def split: option.splits if_splits)

lemma find_by_email_present:
  assumes "storable (w_db w)" and "x \<in> um_email ` set (users (w_db w))"
  shows "\<exists>u. users_find_by_email x w = (Inr (Some u), w)"
proof -
  obtain r where r: "List.find (\<lambda>r. um_email r = x) (users (w_db w)) = Some r" "r \<in> set (users (w_db w))"
    using assms(2) by (metis (mono_tags, lifting) find_None_iff find_SomeD imageE not_Some_eq)
  then obtain u where "to_domain r = Some u"
    using assms(1) ck_users_total [of r] by (auto simp: storable_def constraints_def)
  with r show ?thesis by (simp add: users_find_by_email_def bnd_apply loaded_def)
qed

lemma find_by_email_absent:
  "x \<notin> um_email ` set (users (w_db w)) \<Longrightarrow> users_find_by_email x w = (Inr None, w)"
  by (auto simp: users_find_by_email_def bnd_apply loaded_def split: option.split dest!: find_SomeD)

text \<open>The account the seed adds.\<close>

definition seeded :: "string \<Rightarrow> string \<Rightarrow> string \<Rightarrow> time \<Rightarrow> account" where
  "seeded email handle password_hash at =
     (User (py_lower (py_strip email)) (py_lower (py_strip handle)) password_hash)
       \<lparr>u_role := SUPERADMIN, u_is_email_verified := True, u_terms_accepted := True,
        u_terms_accepted_at := Some at\<rparr>"

lemma ensure_superadmin_absent:
  assumes "py_lower (py_strip email) \<notin> um_email ` set (users (w_db w))"
    and "ensure_superadmin E email handle password w = (x, w')"
  shows "x = Inl DataError \<or> x = Inl IntegrityError \<or>
    (\<exists>u. x = Inr (Some u)) \<and> (\<exists>n i at t. w_db w' = (w_db w)\<lparr>users := users (w_db w) @
      [UserModel (seeded email handle (e_argon2_hash E n password) at) i t]\<rparr>)"
  using assms(2)
  by (auto simp: ensure_superadmin_def Let_def find_by_email_absent [OF assms(1)] bnd_apply users_add_def hash_password_def server_now_def
        seeded_def [symmetric] bnd_def split: prod.splits sum.splits if_splits)
     (intro exI, rule refl)

text \<open>How a run with a valid configuration ends.\<close>

lemma seed_main_run:
  assumes d: "storable (w_db w)" and S: "seed_validate S = Inr (email, handle, password)"
    and run: "seed_main E S w = (code, w')"
  defines "known \<equiv> py_lower (py_strip email) \<in> um_email ` set (users (w_db w))"
  shows "known \<Longrightarrow> code = 0 \<and> w_db w' = w_db w"
    and "\<not> known \<Longrightarrow> code = 1 \<and> w_db w' = w_db w \<or>
      code = 0 \<and> storable (w_db w') \<and> (\<exists>n i at t. w_db w' = (w_db w)\<lparr>users := users (w_db w) @
        [UserModel (seeded email handle (e_argon2_hash E n password) at) i t]\<rparr>)"
proof -
  let ?w = "w\<lparr>w_tx_now := e_clock E (w_draws w), w_draws := Suc (w_draws w)\<rparr>"
    and ?m = "ensure_superadmin E email handle password"
  show "code = 0 \<and> w_db w' = w_db w" if old: known
  proof -
    obtain u where "users_find_by_email (py_lower (py_strip email)) ?w = (Inr (Some u), ?w)"
      using find_by_email_present [of ?w] old d by (auto simp: known_def)
    then have "?m ?w = (Inr None, ?w)" by (simp add: ensure_superadmin_def Let_def bnd_Inr)
    from session_scope_Inr [where m = ?m, OF this] d have "session_scope E ?m w = (Inr None, ?w)" by simp
    with S run show ?thesis by (auto simp: seed_main_def seed_run_def bnd_Inr)
  qed
  show "code = 1 \<and> w_db w' = w_db w \<or>
      code = 0 \<and> storable (w_db w') \<and> (\<exists>n i at t. w_db w' = (w_db w)\<lparr>users := users (w_db w) @
        [UserModel (seeded email handle (e_argon2_hash E n password) at) i t]\<rparr>)" if new: "\<not> known"
  proof -
    obtain y w1 where y: "?m ?w = (y, w1)" by fastforce
    obtain z w2 where z: "session_scope E ?m w = (z, w2)" by fastforce
    have absent: "py_lower (py_strip email) \<notin> um_email ` set (users (w_db ?w))" using new by (simp add: known_def)
    note result = ensure_superadmin_absent [OF absent y]
    consider (refused) e where "z = Inl e" "e = DataError \<or> e = IntegrityError" "w_db w2 = w_db w"
      | (added) u where "z = Inr (Some u)" "y = Inr (Some u)" "w2 = w1" "storable (w_db w2)"
      using z y result by (auto simp: session_scope_def storable_def Let_def split: if_splits)
    then show ?thesis
    proof cases
      case refused
      then have "seed_main E S w = (1, w2)" using S z by (auto simp: seed_main_def seed_run_def bnd_Inl)
      with run refused show ?thesis by simp
    next
      case added
      then have "seed_main E S w = (0, w2)" using S z by (simp add: seed_main_def seed_run_def bnd_Inr)
      with run have "code = 0" "w' = w1" using added by simp_all
      with result added show ?thesis by simp
    qed
  qed
qed

end
