(* ===== verification/Sessions.thy ===== *)
theory Sessions
  imports Routes Event_Consumer Superadmin_Seed
begin

text \<open>
  Revocation over time. A world evolves by serving requests, by events taken off the queue, by passes
  of the outbox publisher, by runs of the seed and by time passing; the rules of
  \<open>Sign_Out\<close> lift through every service method and every route, so that a session that was revoked
  stays revoked whatever is served afterwards.
\<close>

section \<open>What the service may go through\<close>

text \<open>
  A pass of the publisher deletes rows of the outbox and touches nothing else of the world; which rows
  depends on the broker, so any deletion is a step here.
\<close>

abbreviation without_outbox :: "(outbox_model \<Rightarrow> bool) \<Rightarrow> db \<Rightarrow> db" where
  "without_outbox gone d \<equiv> d\<lparr>outbox := filter (\<lambda>row. \<not> gone row) (outbox d)\<rparr>"

inductive later :: "'r env \<Rightarrow> settings \<Rightarrow> 'r world \<Rightarrow> 'r world \<Rightarrow> bool" for E S w where
  start: "later E S w w"
| request: "later E S w w' \<Longrightarrow> later E S w (snd (serve E S req w'))"
| event: "later E S w w' \<Longrightarrow> later E S w (snd (settle E message w'))"
| publisher: "later E S w w' \<Longrightarrow> later E S w (w'\<lparr>w_db := without_outbox gone (w_db w')\<rparr>)"
| seed: "later E S w w' \<Longrightarrow> later E S w (snd (seed_main E S w'))"
| wait: "later E S w w' \<Longrightarrow> w_draws w' \<le> n \<Longrightarrow> later E S w (w'\<lparr>w_draws := n\<rparr>)"

inductive_cases later_cases: "later E S w w'"

text \<open>
  The tokens of account \<open>u\<close> issued up to world \<open>w\<close> are on the wrong side of its cutoff from \<open>w'\<close> on,
  until the last of them has expired.
\<close>

definition sessions_ended :: "'r env \<Rightarrow> settings \<Rightarrow> uuid \<Rightarrow> 'r world \<Rightarrow> 'r world \<Rightarrow> bool" where
  "sessions_ended E S u w w' \<longleftrightarrow>
     (\<exists>s D. whole_seconds (instant E w) \<le> s \<and> instant E w + minutes (access_token_minutes S) \<le> D \<and>
        signed_out E (access_token_minutes S * 60) u s D w')"

text \<open>A token of account \<open>u\<close> as this service issues them, at instant \<open>at\<close>.\<close>

definition issued_token :: "'r env \<Rightarrow> settings \<Rightarrow> uuid \<Rightarrow> time \<Rightarrow> string \<Rightarrow> bool" where
  "issued_token E S u at token \<longleftrightarrow>
     (\<exists>p. token = e_jwt_encode E p \<and> pl_sub p = uuid_str u \<and> pl_iat p = at \<and>
        pl_exp p = at + minutes (access_token_minutes S))"

lemma key_not_cutoff [simp]:
  "policy_key (app_login_policy S) x \<noteq> revoked_sessions_key u"
  "policy_key (admin_login_policy S) x \<noteq> revoked_sessions_key u"
  "policy_key (current_password_policy S) x \<noteq> revoked_sessions_key u"
  "reset_request_key x \<noteq> revoked_sessions_key u"
  "feedback_limit_key v \<noteq> revoked_sessions_key u"
  by (simp_all add: policy_key_def app_login_policy_def admin_login_policy_def
      current_password_policy_def reset_request_key_def feedback_limit_key_def revoked_sessions_key_def)

lemma preserves_jwt_error [preserves_intro]:
  "preserves I m \<Longrightarrow> preserves I m' \<Longrightarrow>
     preserves I (case e of ExpiredSignatureError \<Rightarrow> m | OtherInvalidTokenError \<Rightarrow> m')"
  by (cases e) auto

section \<open>Every method and route keeps it\<close>

lemmas route_defs =
  register_route_def verify_route_def verify_from_link_route_def resend_verification_route_def
  login_route_def refresh_route_def logout_route_def admin_login_route_def forgot_password_route_def
  reset_password_route_def change_password_route_def delete_account_route_def
  submit_feedback_route_def get_profile_route_def update_profile_route_def get_preferences_route_def
  update_preferences_route_def create_administrator_route_def reset_temporary_password_route_def
  list_administrators_route_def account_detail_route_def block_account_route_def
  account_metrics_route_def list_audit_entries_route_def put_under_review_route_def
  lift_review_route_def get_public_profile_route_def administrator_identity_route_def
  search_users_route_def search_accounts_route_def
  current_user_def current_superadmin_def current_administrator_def

context service_env
begin

lemma so_keys:
  "preserves (signed_out E ttl u s D) (count_marks E (policy_key (app_login_policy S) x))"
  "preserves (signed_out E ttl u s D) (count_marks E (policy_key (admin_login_policy S) x))"
  "preserves (signed_out E ttl u s D) (count_marks E (policy_key (current_password_policy S) x))"
  "preserves (signed_out E ttl u s D) (hit E (policy_key (app_login_policy S) x) n)"
  "preserves (signed_out E ttl u s D) (hit E (policy_key (admin_login_policy S) x) n)"
  "preserves (signed_out E ttl u s D) (hit E (policy_key (current_password_policy S) x) n)"
  "preserves (signed_out E ttl u s D) (hit E (reset_request_key x) n)"
  "preserves (signed_out E ttl u s D) (hit E (feedback_limit_key v) n)"
  "preserves (signed_out E ttl u s D) (reset_marks E (policy_key (app_login_policy S) x))"
  "preserves (signed_out E ttl u s D) (reset_marks E (policy_key (admin_login_policy S) x))"
  "preserves (signed_out E ttl u s D) (reset_marks E (policy_key (current_password_policy S) x))"
  by (rule so_count so_hit so_reset, simp)+

lemma so_guards:
  "preserves (signed_out E ttl u s D) (deny_blocked_account a t)"
  "preserves (signed_out E ttl u s D) (deny_expired_temporary_password E a t)"
  "preserves (signed_out E ttl u s D) (guard_lockout E x (app_login_policy S))"
  "preserves (signed_out E ttl u s D) (guard_lockout E x (admin_login_policy S))"
  "preserves (signed_out E ttl u s D) (register_failure E x (app_login_policy S))"
  "preserves (signed_out E ttl u s D) (register_failure E x (admin_login_policy S))"
  "preserves (signed_out E ttl u s D) (guard_current_password E x (current_password_policy S))"
  "preserves (signed_out E ttl u s D) (guard_reset_limit E S x)"
  "preserves (signed_out E ttl u s D) (guard_limit E a)"
  "preserves (signed_out E ttl u s D) (require_superadmin a)"
  "preserves (signed_out E ttl u s D) (require_administrator a)"
  "preserves (signed_out E ttl u s D) (require_internal_token S tok)"
  "preserves (signed_out E ttl u s D) (deny_email_outside_the_authorized_domain S x)"
  "preserves (signed_out E ttl u s D) (validated v)"
  "preserves (signed_out E ttl u s D) (answer n b)"
  unfolding deny_blocked_account_def deny_expired_temporary_password_def guard_lockout_def
    register_failure_def guard_current_password_def guard_reset_limit_def guard_limit_def
    require_superadmin_def require_administrator_def require_internal_token_def
    deny_email_outside_the_authorized_domain_def validated_def answer_def Let_def
  by (rule so_keys so_layer | assumption)+

lemma so_auth_parts:
  "preserves (signed_out E ttl u s D) (issue_verification_token E S a now)"
  "preserves (signed_out E ttl u s D) (issue_session E S a)"
  "preserves (signed_out E ttl u s D) (issue_refresh_token E S a f now)"
  "preserves (signed_out E ttl u s D) (revoke_refresh_family E raw owner)"
  unfolding issue_verification_token_def issue_session_def issue_refresh_token_def
    revoke_refresh_family_def
  by (rule so_guards so_keys so_layer | assumption)+

lemma so_refuse:
  "s \<le> whole_seconds now \<Longrightarrow>
     preserves (signed_out E (access_token_minutes S * 60) u s D) (refuse_refresh_token E S h now)"
  unfolding refuse_refresh_token_def by (rule so_layer | assumption)+

lemma so_auth:
  "preserves (signed_out E ttl u s D) (register E S e h p)"
  "preserves (signed_out E ttl u s D) (verify_email E raw)"
  "preserves (signed_out E ttl u s D) (resend_verification E S e)"
  "preserves (signed_out E ttl u s D) (login E S x p)"
  "preserves (signed_out E ttl u s D) (admin_login E S e p)"
  "preserves (signed_out E ttl u s D) (logout E S tok rt)"
  unfolding register_def verify_email_def resend_verification_def login_def admin_login_def logout_def
    Let_def
  by (rule so_auth_parts so_guards so_keys so_layer preserves_jwt_error | assumption)+

lemma so_refresh:
  "preserves (signed_out E (access_token_minutes S * 60) u s D) (refresh E S raw)"
  unfolding refresh_def Let_def
  by (rule so_refuse so_auth_parts so_guards so_layer | assumption)+

lemma so_current_user: "preserves (signed_out E ttl u s D) (get_current_user E S path tok)"
  unfolding get_current_user_def by (rule so_guards so_layer | assumption)+

lemma so_current_password:
  "preserves (signed_out E ttl u s D) (verify_current_password E S a p t)"
  "preserves (signed_out E ttl u s D) (reset_current_password E S a)"
  unfolding verify_current_password_def reset_current_password_def Let_def
  by (rule so_guards so_keys so_layer | assumption)+

lemma so_passwords:
  "preserves (signed_out E (access_token_minutes S * 60) u s D) (change_password E S a p q)"
  "preserves (signed_out E (access_token_minutes S * 60) u s D) (forgot_password E S x)"
  "preserves (signed_out E (access_token_minutes S * 60) u s D) (reset_password E S raw q)"
  unfolding change_password_def forgot_password_def reset_password_def Let_def
  by (rule so_current_password so_guards so_layer | assumption)+

lemma so_audit:
  "preserves (signed_out E ttl u s D) (audit_administrator i)"
  "preserves (signed_out E ttl u s D) (audit_record E i a t j d)"
  unfolding audit_record_def audit_administrator_def by (rule so_layer | assumption)+

lemma so_accounts:
  "preserves (signed_out E (access_token_minutes S * 60) u s D) (delete_account E S a p)"
  "preserves (signed_out E (access_token_minutes S * 60) u s D) (block E S a i r)"
  "preserves (signed_out E (access_token_minutes S * 60) u s D) (put_under_review E S i)"
  unfolding delete_account_def block_def put_under_review_def Let_def
  by (rule so_current_password so_audit so_layer | assumption)+

lemma so_backoffice:
  "preserves (signed_out E ttl u s D) (lift_review E i)"
  "preserves (signed_out E ttl u s D) (create_administrator E S i e h ro)"
  "preserves (signed_out E ttl u s D) (reset_temporary_password E i j)"
  "preserves (signed_out E ttl u s D) list_administrators"
  "preserves (signed_out E ttl u s D) (account_detail i)"
  "preserves (signed_out E ttl u s D) account_metrics"
  "preserves (signed_out E ttl u s D) (update_profile a pc)"
  "preserves (signed_out E ttl u s D) (public_profile i)"
  "preserves (signed_out E ttl u s D) (update_preferences E a prc)"
  "preserves (signed_out E ttl u s D) (submit E a m dev v)"
  unfolding lift_review_def create_administrator_def reset_temporary_password_def
    list_administrators_def account_detail_def account_metrics_def update_profile_def
    public_profile_def update_preferences_def submit_def Let_def
  by (rule so_audit so_guards so_layer | assumption)+

lemmas so_methods =
  so_auth so_refresh so_current_user so_passwords so_accounts so_backoffice so_audit so_guards

lemma so_search:
  "preserves (signed_out E ttl u s D) (search E q viewer cursor)"
  "preserves (signed_out E ttl u s D) (search_accounts q cursor)"
  by (intro preserves_search so_draw preserves_intro)+

lemma so_background:
  "preserves (signed_out E ttl u s D) (handle_event E message)"
  "preserves (signed_out E ttl u s D) (seed_run E S)"
  unfolding handle_event_def seed_run_def ensure_superadmin_def Let_def
  by (rule so_layer | assumption)+

lemma so_problem_response: "preserves (signed_out E ttl u s D) (problem_response E path p)"
  unfolding problem_response_def by (rule so_layer | assumption)+

lemma so_refresh_or_answer:
  "preserves (signed_out E (access_token_minutes S * 60) u s D) (refresh_or_answer E S path raw)"
  unfolding preserves_def
proof (intro allI impI)
  fix w assume w: "signed_out E (access_token_minutes S * 60) u s D w"
  obtain x w' where r: "refresh E S raw w = (x, w')" by fastforce
  have w': "signed_out E (access_token_minutes S * 60) u s D w'"
    using preservesD [OF so_refresh w, of raw] r by simp
  show "signed_out E (access_token_minutes S * 60) u s D (after (refresh_or_answer E S path raw w))"
    using r w' preservesD [OF so_problem_response w']
    by (auto simp: refresh_or_answer_def answer_def split: sum.split exn.split)
qed

lemma so_route:
  "preserves (signed_out E (access_token_minutes S * 60) u s D) (route E S req)"
  by (cases req; simp only: route.simps route_defs,
      (rule so_refresh_or_answer so_methods so_search so_layer | assumption)+)

lemma so_error_response: "preserves (signed_out E ttl u s D) (error_response E path e)"
  unfolding error_response_def
  by (rule so_problem_response so_guards so_layer | assumption)+

lemma so_serve:
  assumes "signed_out E (access_token_minutes S * 60) u s D w"
  shows "signed_out E (access_token_minutes S * 60) u s D (snd (serve E S req w))"
proof -
  obtain x w' where r: "session_scope E (route E S req) w = (x, w')" by fastforce
  have w': "signed_out E (access_token_minutes S * 60) u s D w'"
    using preservesD [OF so_scope [OF so_route] assms, of req] r by simp
  show ?thesis
    using r w' preservesD [OF so_error_response w']
    by (auto simp: serve_def split: sum.splits prod.splits) (metis after_pair)+
qed

lemma so_wait:
  assumes "signed_out E ttl u s D w" and "w_draws w \<le> n"
  shows "signed_out E ttl u s D (w\<lparr>w_draws := n\<rparr>)"
  using assms(1) by (rule signed_out_later) (simp_all add: clock_mono assms(2) live_cutoff_def)

lemma so_kept:
  assumes "later E S w w'"
    and "signed_out E (access_token_minutes S * 60) u s D w"
  shows "signed_out E (access_token_minutes S * 60) u s D w'"
  using assms
  by (induction rule: later.induct)
     (auto simp: snd_settle snd_seed_main intro: so_serve so_wait preservesD so_background preservesD [OF so_modify_db]) 

end

end
