(* ===== verification/Session_Revocation.thy ===== *)
theory Session_Revocation
  imports Sessions
begin

text \<open>
  The operations that end every session of an account (changing or resetting the password, closing
  the account, blocking it, putting it under review, and presenting a used refresh token) and what
  they guarantee: from then on, no access token handed out before is accepted again.
\<close>

section \<open>Operations only move forward in time\<close>

definition advances :: "('r, 'a) op \<Rightarrow> bool" where
  "advances m \<longleftrightarrow> (\<forall>n. preserves (\<lambda>w. n \<le> w_draws w) m)"

lemma advancesI: "(\<And>n. preserves (\<lambda>w. n \<le> w_draws w) m) \<Longrightarrow> advances m"
  by (simp add: advances_def)

lemma advances_run: "advances m \<Longrightarrow> m w = (x, w') \<Longrightarrow> w_draws w \<le> w_draws w'"
  unfolding advances_def preserves_def by (metis after_pair order_refl)

lemma adv_draw: "preserves (\<lambda>w. n \<le> w_draws w) (draw f)"
  by (simp add: preserves_def)

lemma adv_named:
  "preserves (\<lambda>w. n \<le> w_draws w) (now_utc E)"
  "preserves (\<lambda>w. n \<le> w_draws w) (uuid4 E)"
  "preserves (\<lambda>w. n \<le> w_draws w) (token_urlsafe E k)"
  by (simp_all add: preserves_def)

lemma adv_modify: "preserves (\<lambda>w. n \<le> w_draws w) (modify_db c)"
  by (simp add: preserves_def)

lemma adv_redis: "preserves (\<lambda>w. n \<le> w_draws w) (redis_cmd E f)"
  by (auto simp: preserves_def redis_cmd_def split: prod.splits)

lemmas adv_rules = adv_draw adv_named adv_modify adv_redis preserves_intro

lemma advances_methods:
  "advances (users_get i)"
  "advances (users_save u)"
  "advances (hash_password E p)"
  "advances (verify_current_password E S u p t)"
  "advances (reset_current_password E S u)"
  "advances (reset_tokens_find_by_hash h)"
  "advances (reset_tokens_mark_all_used i now)"
  "advances (refresh_tokens_consume h now)"
  "advances (refresh_tokens_find_by_hash h)"
  "advances (refresh_tokens_revoke_all i now)"
  "advances (user_deleted E u now)"
  "advances (password_changed E u now)"
  "advances (outbox_add ev)"
  "advances (audit_record E i a t j d)"
  "advances (not_none v)"
  unfolding users_get_def users_save_def loaded_def hash_password_def verify_current_password_def
    guard_current_password_def reset_current_password_def count_marks_def hit_def reset_marks_def
    repository_defs event_constructors build_event_def audit_record_def audit_administrator_def
    Let_def
  by (rule advancesI, (rule adv_rules | assumption)+)+

lemma users_get_Inr: "users_get i w = (Inr x, w') \<Longrightarrow> w' = w \<and> (\<forall>u. x = Some u \<longrightarrow> u_id u = i)"
  by (auto simp: users_get_def loaded_def bnd_apply dest: to_domain_id split: option.splits)

lemma users_get_then:
  "bnd (users_get i) f w = (Inr y, w') \<Longrightarrow>
     \<exists>x. f x w = (Inr y, w') \<and> (\<forall>u. x = Some u \<longrightarrow> u_id u = i)"
  by (erule bnd_InrE) (auto dest!: users_get_Inr)

lemma not_none_then: "bnd (not_none x) f w = (Inr y, w') \<Longrightarrow> \<exists>v. x = Some v \<and> f v w = (Inr y, w')"
  by (cases x) auto

section \<open>Ending the sessions of an account\<close>

definition ended_since :: "'r env \<Rightarrow> settings \<Rightarrow> uuid \<Rightarrow> nat \<Rightarrow> 'r world \<Rightarrow> bool" where
  "ended_since E S u n w' \<longleftrightarrow>
     (\<exists>s D. whole_seconds (e_clock E n) \<le> s \<and> e_clock E n + minutes (access_token_minutes S) \<le> D \<and>
        signed_out E (access_token_minutes S * 60) u s D w')"

lemma ended_since_now: "ended_since E S u (w_draws w) w' = sessions_ended E S u w w'"
  by (simp add: ended_since_def sessions_ended_def)

text \<open>
  How an operation may end: \<open>None\<close> it returned, \<open>Some e\<close> it raised \<open>e\<close>. Two endings matter here: it
  returned, or it detected the reuse of a refresh token, which the route answers and commits.
\<close>

fun raised :: "exn + 'a \<Rightarrow> exn option" where
  "raised (Inl e) = Some e"
| "raised (Inr _) = None"

definition returned :: "exn option \<Rightarrow> bool" where
  "returned x \<longleftrightarrow> x = None"

definition reuse_detected :: "exn option \<Rightarrow> bool" where
  "reuse_detected x \<longleftrightarrow> (\<exists>p. x = Some (ReusedRefreshTokenError p))"

text \<open>The operation never raises one of these.\<close>

definition never :: "(exn option \<Rightarrow> bool) \<Rightarrow> ('r, 'a) op \<Rightarrow> bool" where
  "never R m \<longleftrightarrow> (\<forall>w e w'. m w = (Inl e, w') \<longrightarrow> \<not> R (Some e))"

text \<open>
  \<open>ends n R m\<close>: run after draw \<open>n\<close>, an ending in \<open>R\<close> leaves the sessions ended. \<open>ending\<close> is the same
  with the clock reading \<open>now\<close> that the cutoff will carry already in hand.
\<close>

definition ends ::
  "'r env \<Rightarrow> settings \<Rightarrow> uuid \<Rightarrow> nat \<Rightarrow> (exn option \<Rightarrow> bool) \<Rightarrow> ('r, 'a) op \<Rightarrow> bool" where
  "ends E S u n R m \<longleftrightarrow>
     (\<forall>w x w'. n \<le> w_draws w \<longrightarrow> m w = (x, w') \<longrightarrow> R (raised x) \<longrightarrow> ended_since E S u n w')"

definition ending ::
  "'r env \<Rightarrow> settings \<Rightarrow> uuid \<Rightarrow> nat \<Rightarrow> time \<Rightarrow> (exn option \<Rightarrow> bool) \<Rightarrow> ('r, 'a) op \<Rightarrow> bool" where
  "ending E S u n now R m \<longleftrightarrow>
     (\<forall>w x w'. n \<le> w_draws w \<longrightarrow> e_clock E n \<le> now \<longrightarrow> now \<le> instant E w \<longrightarrow>
        m w = (x, w') \<longrightarrow> R (raised x) \<longrightarrow> ended_since E S u n w')"

lemma endingD:
  "ending E S u n now R m \<Longrightarrow> m w = (x, w') \<Longrightarrow> R (raised x) \<Longrightarrow> n \<le> w_draws w \<Longrightarrow>
     e_clock E n \<le> now \<Longrightarrow> now \<le> instant E w \<Longrightarrow> ended_since E S u n w'"
  unfolding ending_def by blast

lemma returned_simps [simp]: "returned None" "\<not> returned (Some e)"
  by (simp_all add: returned_def)

lemma reuse_simps [simp]: "\<not> reuse_detected None"
    "reuse_detected (Some (ReusedRefreshTokenError p))" "\<not> reuse_detected (Some (ProblemError p))"
    "\<not> reuse_detected (Some RedisError)"
  by (simp_all add: reuse_detected_def)

lemma never_raises:
  assumes "never R m" and "m w = (y, w1)" and "bnd m f w = (x, w')" and "R (raised x)"
  shows "\<exists>v. y = Inr v"
proof (cases y)
  case (Inl e)
  with assms(2,3) have "x = Inl e" by (simp add: bnd_def)
  with assms Inl show ?thesis unfolding never_def by auto
next
  case (Inr v)
  then show ?thesis by blast
qed

lemma refuse_apply:
  "refuse_refresh_token E S h now w =
     (case refresh_view (w_db w) h of
        None \<Rightarrow> (Inl (ProblemError invalid_refresh_token), w)
      | Some t \<Rightarrow>
          if rt_used_at t \<noteq> None \<and> rt_revoked_at t = None then
            bnd (refresh_tokens_revoke_all (rt_user_id t) now) (\<lambda>_.
            bnd (revoke_sessions E (rt_user_id t) now (access_token_minutes S * 60)) (\<lambda>_.
            raise (ReusedRefreshTokenError invalid_refresh_token))) w
          else (Inl (ProblemError invalid_refresh_token), w))"
  by (simp add: refuse_refresh_token_def refresh_tokens_find_by_hash_def refresh_view_def bnd_apply
      split: option.split)

lemma refuse_raises: "refuse_refresh_token E S h now w \<noteq> (Inr x, w')"
  by (auto simp: refuse_refresh_token_def refresh_tokens_find_by_hash_def
      split: option.splits if_splits elim!: bnd_InrE)

lemma never_returned: "never returned m"
  by (simp add: never_def)

lemma never_rules:
  "never R (ret v)" "never R skip" "\<not> R (Some e) \<Longrightarrow> never R (raise e)"
  "(b \<Longrightarrow> never R m) \<Longrightarrow> (\<not> b \<Longrightarrow> never R m') \<Longrightarrow> never R (if b then m else m')"
  "(o1 = None \<Longrightarrow> never R m) \<Longrightarrow> (\<And>y. o1 = Some y \<Longrightarrow> never R (g y)) \<Longrightarrow>
     never R (case o1 of None \<Rightarrow> m | Some y \<Rightarrow> g y)"
  "(\<And>y z. never R (h y z)) \<Longrightarrow> never R (case p of (y, z) \<Rightarrow> h y z)"
  "never R (draw d)" "never R (now_utc E)" "never R (uuid4 E)" "never R (token_urlsafe E k)"
  "never R (query q)" "never R (modify_db c)" "never R server_now"
  by (auto simp: never_def split: option.split prod.split)

lemma never_bnd: "never R m \<Longrightarrow> (\<And>x. never R (f x)) \<Longrightarrow> never R (bnd m f)"
  unfolding never_def by (blast elim!: bnd_InlE)

lemma never_reuse_session:
  "never reuse_detected (users_get i)"
  "never reuse_detected (deny_blocked_account u t)"
  "never reuse_detected (deny_expired_temporary_password E u t)"
  "never reuse_detected (issue_session E S u)"
  "never reuse_detected (issue_refresh_token E S u f now)"
  unfolding users_get_def loaded_def deny_blocked_account_def deny_expired_temporary_password_def
    issue_session_def issue_access_token_def issue_refresh_token_def generate_refresh_token_def
    repository_defs
  by (rule never_rules never_bnd | assumption | (simp add: reuse_detected_def; fail))+

lemma never_reuse:
  "never reuse_detected (refresh_tokens_consume h now)"
  "never reuse_detected (refresh_tokens_find_by_hash h)"
  "never reuse_detected (refresh_tokens_revoke_all i now)"
  by (simp_all add: never_def repository_defs bnd_apply)

context service_env
begin

lemma ends_raise: "\<not> R (Some e) \<Longrightarrow> ends E S u n R (raise e)" "\<not> R (Some e) \<Longrightarrow> ending E S u n now R (raise e)"
  by (simp_all add: ends_def ending_def)

lemma ends_ret: "\<not> R None \<Longrightarrow> ending E S u n now R (ret v)"
  by (simp add: ending_def)

lemma ends_if:
  "(b \<Longrightarrow> ends E S u n R m) \<Longrightarrow> (\<not> b \<Longrightarrow> ends E S u n R m') \<Longrightarrow>
     ends E S u n R (if b then m else m')"
  "(b \<Longrightarrow> ending E S u n now R m) \<Longrightarrow> (\<not> b \<Longrightarrow> ending E S u n now R m') \<Longrightarrow>
     ending E S u n now R (if b then m else m')"
  by simp_all

lemma ends_option:
  "(x = None \<Longrightarrow> ending E S u n now R m) \<Longrightarrow> (\<And>y. x = Some y \<Longrightarrow> ending E S u n now R (f y)) \<Longrightarrow>
     ending E S u n now R (case x of None \<Rightarrow> m | Some y \<Rightarrow> f y)"
  by (cases x) auto

lemma ending_bnd:
  assumes "advances m" and "never R m" and "\<And>x. ending E S u n now R (f x)"
  shows "ending E S u n now R (bnd m f)"
  unfolding ending_def
proof (intro allI impI)
  fix w x w' assume n: "n \<le> w_draws w" "e_clock E n \<le> now" "now \<le> instant E w"
    and run: "bnd m f w = (x, w')" and R: "R (raised x)"
  obtain y w1 where m: "m w = (y, w1)" by fastforce
  have "w_draws w \<le> w_draws w1" by (rule advances_run [OF assms(1) m])
  then have n1: "n \<le> w_draws w1" and now: "now \<le> instant E w1"
    using n clock_mono [of "w_draws w" "w_draws w1"] by linarith+
  obtain v where y: "y = Inr v"
    using never_raises [OF assms(2) m run R] by blast
  have "f v w1 = (x, w')" using m run y by (simp add: bnd_def)
  with assms(3) [of v] n(2) n1 now R show "ended_since E S u n w'"
    unfolding ending_def by blast
qed

lemma ends_bnd:
  assumes "advances m" and "never R m" and "\<And>x. ends E S u n R (f x)"
  shows "ends E S u n R (bnd m f)"
  unfolding ends_def
proof (intro allI impI)
  fix w x w' assume n: "n \<le> w_draws w" and run: "bnd m f w = (x, w')" and R: "R (raised x)"
  obtain y w1 where m: "m w = (y, w1)" by fastforce
  have n1: "n \<le> w_draws w1" using advances_run [OF assms(1) m] n by linarith
  obtain v where y: "y = Inr v"
    using never_raises [OF assms(2) m run R] by blast
  have "f v w1 = (x, w')" using m run y by (simp add: bnd_def)
  with assms(3) [of v] n1 R show "ended_since E S u n w'"
    unfolding ends_def by blast
qed

lemma ends_now:
  assumes "\<And>now. ending E S u n now R (f now)"
  shows "ends E S u n R (bnd (now_utc E) f)"
  unfolding ends_def
proof (intro allI impI)
  fix w x w' assume n: "n \<le> w_draws w" and run: "bnd (now_utc E) f w = (x, w')" and R: "R (raised x)"
  let ?w = "w\<lparr>w_draws := Suc (w_draws w)\<rparr>"
  have "e_clock E n \<le> instant E w" and "instant E w \<le> instant E ?w"
    using n by (simp_all add: clock_mono)
  moreover have "f (instant E w) ?w = (x, w')" using run by (simp add: bnd_apply)
  moreover have "n \<le> w_draws ?w" using n by simp
  ultimately show "ended_since E S u n w'"
    using assms [of "instant E w"] R unfolding ending_def by blast
qed

lemma ending_revoke:
  assumes "\<And>s D. s \<le> whole_seconds now \<Longrightarrow>
      preserves (signed_out E (access_token_minutes S * 60) u s D) (f ())"
    and "\<not> R (Some RedisError)"
  shows "ending E S u n now R (bnd (revoke_sessions E u now (access_token_minutes S * 60)) f)"
  unfolding ending_def
proof (intro allI impI)
  fix w x w' assume n: "n \<le> w_draws w" "e_clock E n \<le> now" "now \<le> instant E w"
    and run: "bnd (revoke_sessions E u now (access_token_minutes S * 60)) f w = (x, w')"
    and R: "R (raised x)"
  obtain y w1 where r: "revoke_sessions E u now (access_token_minutes S * 60) w = (y, w1)" by fastforce
  have y: "y = Inr ()"
  proof (rule ccontr)
    assume "y \<noteq> Inr ()"
    with r have "y = Inl RedisError"
      by (auto simp: revoke_sessions_def redis_cmd_def split: prod.splits option.splits)
    with r run R assms(2) show False by (auto simp: bnd_def)
  qed
  have "signed_out E (access_token_minutes S * 60) u (whole_seconds now)
      (instant E w + minutes (access_token_minutes S)) w1"
    using so_established [OF r [unfolded y]] whole_seconds_mono [OF n(3)] by (simp add: mult.assoc)
  moreover have "w' = after (f () w1)"
    using run r y by (simp add: bnd_def after_def)
  ultimately have "signed_out E (access_token_minutes S * 60) u (whole_seconds now)
      (instant E w + minutes (access_token_minutes S)) w'"
    using preservesD [OF assms(1)] by blast
  moreover have "whole_seconds (e_clock E n) \<le> whole_seconds now"
    using whole_seconds_mono [OF n(2)] .
  moreover have "e_clock E n + minutes (access_token_minutes S)
      \<le> instant E w + minutes (access_token_minutes S)" using n by simp
  ultimately show "ended_since E S u n w'"
    unfolding ended_since_def by blast
qed

lemma ending_revoke_last:
  "ending E S u n now returned (revoke_sessions E u now (access_token_minutes S * 60))"
  using ending_revoke [of now S u ret returned n] by (simp only: bnd_ret_right preserves_ret) simp

lemma ending_revoke_same:
  assumes "v = u" and "\<And>s D. s \<le> whole_seconds now \<Longrightarrow>
      preserves (signed_out E (access_token_minutes S * 60) u s D) (f ())"
    and "\<not> R (Some RedisError)"
  shows "ending E S u n now R (bnd (revoke_sessions E v now (access_token_minutes S * 60)) f)"
  using ending_revoke [of now S u f R n] assms by simp

lemma ending_revoke_last_same:
  "v = u \<Longrightarrow> ending E S u n now returned (revoke_sessions E v now (access_token_minutes S * 60))"
  using ending_revoke_last by simp

lemmas ends_rules =
  ends_now ending_revoke_same ending_revoke_last_same ends_raise ends_if ends_option ending_bnd ends_bnd
  advances_methods never_returned never_reuse returned_simps reuse_simps

lemma sessions_endedI:
  "ends E S u (w_draws w) R m \<Longrightarrow> m w = (x, w') \<Longrightarrow> R (raised x) \<Longrightarrow> sessions_ended E S u w w'"
  unfolding ends_def ended_since_now [symmetric] by blast

lemma ends_change_password: "ends E S (u_id a) n returned (change_password E S a p q)"
  unfolding change_password_def Let_def
  by (rule ends_rules so_layer | assumption | (simp; fail))+

lemma ends_delete_account: "ends E S (u_id a) n returned (delete_account E S a p)"
  unfolding delete_account_def Let_def
  by (rule ends_rules so_layer | assumption | (simp; fail))+

text \<open>The account is the one behind the recovery link.\<close>

lemma reset_password_ends:
  assumes "reset_password E S raw q w = (Inr a, w')"
  shows "sessions_ended E S (u_id a) w w' \<and>
    map_option prm_user_id (List.find (\<lambda>r. prm_token_hash r = hash_token E raw)
      (password_reset_tokens (w_db w))) = Some (u_id a)"
proof -
  let ?tail = "\<lambda>now user. bnd (hash_password E q) (\<lambda>h.
     bnd (users_save (user\<lparr>u_password_hash := h\<rparr>)) (\<lambda>_.
     bnd (reset_tokens_mark_all_used (u_id user) now) (\<lambda>_.
     bnd (revoke_sessions E (u_id user) now (access_token_minutes S * 60)) (\<lambda>_.
     bnd (refresh_tokens_revoke_all (u_id user) now) (\<lambda>_.
     ret (user\<lparr>u_password_hash := h\<rparr>))))))"
  let ?w = "w\<lparr>w_draws := Suc (w_draws w)\<rparr>"
  have "\<exists>user. ?tail (instant E w) user ?w = (Inr a, w') \<and>
      map_option prm_user_id (List.find (\<lambda>r. prm_token_hash r = hash_token E raw)
        (password_reset_tokens (w_db w))) = Some (u_id user)"
    using assms
    by (auto simp: reset_password_def reset_tokens_find_by_hash_def Let_def bnd_apply
        prt_of_row_def split: option.splits if_splits dest!: users_get_then not_none_then)
       (rule exI, rule conjI [rotated], erule sym, simp)
  then obtain user where run: "?tail (instant E w) user ?w = (Inr a, w')"
    and owner: "map_option prm_user_id (List.find (\<lambda>r. prm_token_hash r = hash_token E raw)
        (password_reset_tokens (w_db w))) = Some (u_id user)" by blast
  then have "u_id a = u_id user" by (auto elim!: bnd_InrE)
  moreover have "ending E S (u_id user) (w_draws w) (instant E w) returned (?tail (instant E w) user)"
    by (rule ends_rules so_layer | assumption | (simp; fail))+
  moreover have "instant E w \<le> instant E ?w" by (simp add: clock_mono)
  ultimately show ?thesis
    using owner unfolding ended_since_now [symmetric]
    by (intro conjI endingD [of E S _ "w_draws w" "instant E w" returned "?tail (instant E w) user" ?w, OF _ run]) simp_all
qed

lemma block_ends:
  assumes "block E S a i r w = (Inr v, w')" and "accounts (w_db w) i = Some b"
    and "wf_users (users (w_db w))" and "u_status b \<noteq> SUSPENDED"
  shows "sessions_ended E S i w w'"
proof -
  let ?tail = "bnd (now_utc E) (\<lambda>now.
     bnd (users_save (change_status SUSPENDED now (Some r) b)) (\<lambda>_.
     bnd (audit_record E (u_id a) USER_BLOCKED ''user'' i [(''reason'', JText r)]) (\<lambda>_.
     bnd (refresh_tokens_revoke_all i now) (\<lambda>_.
     revoke_sessions E i now (access_token_minutes S * 60)))))"
  have "u_id b = i" using assms(2) by (rule accounts_id)
  then have "?tail w = (Inr v, w')"
    using assms users_get_run [OF assms(3), of i]
    by (auto simp: block_def Let_def bnd_Inr split: if_splits)
  moreover have "ends E S i (w_draws w) returned ?tail"
    by (rule ends_rules so_layer | assumption | (simp; fail))+
  ultimately show ?thesis by (auto intro: sessions_endedI)
qed

lemma review_ends:
  assumes "put_under_review E S i w = (Inr v, w')" and "accounts (w_db w) i = Some b"
    and "wf_users (users (w_db w))" and "u_status b = ACTIVE"
  shows "sessions_ended E S i w w'"
proof -
  let ?tail = "bnd (now_utc E) (\<lambda>now.
     bnd (users_save (change_status UNDER_REVIEW now None b)) (\<lambda>_.
     bnd (revoke_sessions E i now (access_token_minutes S * 60)) (\<lambda>_.
     refresh_tokens_revoke_all i now)))"
  have "u_id b = i" using assms(2) by (rule accounts_id)
  then have "?tail w = (Inr v, w')"
    using assms users_get_run [OF assms(3), of i]
    by (auto simp: put_under_review_def Let_def bnd_Inr split: if_splits)
  moreover have "ends E S i (w_draws w) returned ?tail"
    by (rule ends_rules so_layer | assumption | (simp; fail))+
  ultimately show ?thesis by (auto intro: sessions_endedI)
qed

text \<open>The account is the one whose used token was presented.\<close>

lemma refresh_reuse_ends:
  assumes "refresh E S raw w = (Inl (ReusedRefreshTokenError p), w')"
    and "refresh_view (w_db w) (hash_token E raw) = Some t" and "wf_refresh (w_db w)"
  shows "sessions_ended E S (rt_user_id t) w w'"
proof -
  let ?now = "instant E w" and ?w = "w\<lparr>w_draws := Suc (w_draws w)\<rparr>" and ?h = "hash_token E raw"
  let ?tail = "bnd (refresh_tokens_revoke_all (rt_user_id t) ?now) (\<lambda>_.
     bnd (revoke_sessions E (rt_user_id t) ?now (access_token_minutes S * 60)) (\<lambda>_.
     (raise (ReusedRefreshTokenError invalid_refresh_token) :: ('r, refresh_token) op)))"
  obtain x w2 where c: "refresh_tokens_consume ?h ?now ?w = (x, w2)" by fastforce
  have ok: "wf_refresh (w_db ?w)" using assms(3) by simp
  have view: "refresh_view (w_db ?w) ?h = Some t" using assms(2) by simp
  from consume_refines [OF ok c] view
  consider (some) v where "x = Inr (Some v)" | (none) "x = Inr None" "refresh_view (w_db w2) = refresh_view (w_db w)"
    by (auto split: if_splits)
  then have "?tail w2 = (Inl (ReusedRefreshTokenError p), w')"
  proof cases
    case some
    have "(bnd (users_get (rt_user_id v)) (\<lambda>found.
      case found of
        None \<Rightarrow> raise (ProblemError invalid_refresh_token)
      | Some user \<Rightarrow>
          bnd (deny_blocked_account user REFRESH_FAILED_TITLE) (\<lambda>_.
          bnd (deny_expired_temporary_password E user REFRESH_FAILED_TITLE) (\<lambda>_.
          bnd (issue_session E S user) (\<lambda>(access_token, expires_in).
          bnd (issue_refresh_token E S user (rt_family_id v) ?now) (\<lambda>refresh_token.
          ret \<lparr> is_access_token = access_token, is_refresh_token = refresh_token,
                is_expires_in = expires_in \<rparr>)))))) w2 = (Inl (ReusedRefreshTokenError p), w')" (is "?rest w2 = _")
      using assms(1) c some by (simp add: refresh_def Let_def bnd_apply bnd_Inr)
    moreover have "never reuse_detected ?rest"
      by (rule never_rules never_bnd never_reuse_session | assumption | (simp; fail))+
    ultimately show ?thesis unfolding never_def by force
  next
    case none
    obtain f where "bnd (refuse_refresh_token E S ?h ?now :: ('r, refresh_token) op) f w2 =
        ((Inl (ReusedRefreshTokenError p), w') :: (exn + issued_session) \<times> 'r world)"
      using assms(1) c none by (auto simp: refresh_def Let_def bnd_apply bnd_Inr)
    then have "(refuse_refresh_token E S ?h ?now :: ('r, refresh_token) op) w2 =
        (Inl (ReusedRefreshTokenError p), w')"
      by (rule bnd_InlE) (simp_all add: refuse_raises)
    then show ?thesis using none assms(2)
      by (auto simp: refuse_apply split: if_splits)
  qed
  moreover have "ending E S (rt_user_id t) (w_draws w) ?now reuse_detected ?tail"
    by (rule ends_rules so_layer | assumption | (simp; fail))+
  moreover have "w_draws ?w \<le> w_draws w2" by (rule advances_run [OF advances_methods(8) c])
  moreover have "?now \<le> instant E w2" using calculation(3) by (simp add: clock_mono)
  ultimately have "ended_since E S (rt_user_id t) (w_draws w) w'"
    using endingD [of E S "rt_user_id t" "w_draws w" ?now reuse_detected ?tail w2
        "Inl (ReusedRefreshTokenError p)" w'] by simp
  then show ?thesis by (simp only: ended_since_now)
qed

end

section \<open>An ended session is refused for good\<close>

text \<open>The answers that refuse a token.\<close>

definition invalid_token :: problem where
  "invalid_token = Problem 401 ''invalid-token'' AUTHENTICATION_FAILED_TITLE INVALID_TOKEN"

definition refusals :: "exn set" where
  "refusals = {ProblemError invalid_token, ProblemError session_revoked, RedisError}"

text \<open>
  \<open>get_current_user\<close> reads the clock twice: PyJWT judges the token's expiry, and then the server the
  cutoff's. \<open>judged_alike\<close> says that the life of the token does not end between the two readings.
\<close>

definition judged_alike :: "'r env \<Rightarrow> settings \<Rightarrow> time \<Rightarrow> 'r world \<Rightarrow> bool" where
  "judged_alike E S at w \<longleftrightarrow>
     at + minutes (access_token_minutes S) \<le> instant E w \<or>
     e_clock E (Suc (w_draws w)) < at + minutes (access_token_minutes S)"

lemma decoded_token:
  assumes "jwt_codec E" and "issued_token E S u at token" and "0 \<le> at" and "0 \<le> access_token_minutes S"
    and "e_jwt_decode E token iss t = Inr c"
  shows "c_sub c = Some (uuid_str u) \<and> c_iat c = Some (whole_seconds at) \<and> (\<exists>j. c_jti c = Some j) \<and>
    t < at + minutes (access_token_minutes S)"
proof -
  obtain p where p: "token = e_jwt_encode E p" "pl_sub p = uuid_str u" "pl_iat p = at"
    "pl_exp p = at + minutes (access_token_minutes S)"
    using assms(2) by (auto simp: issued_token_def)
  obtain q where q: "token = e_jwt_encode E q" "c = claims_of q"
    "t < seconds (whole_seconds (pl_exp q))"
    using assms(1,5) unfolding jwt_codec_def by blast
  have "claims_of p = claims_of q"
    using assms(1) p(1) q(1) unfolding jwt_codec_def by metis
  then have c: "c = claims_of p" and e: "whole_seconds (pl_exp q) = whole_seconds (pl_exp p)"
    using q(2) by (simp_all add: claims_of_def)
  have "seconds (whole_seconds (pl_exp p)) \<le> pl_exp p"
    using assms(3,4) p(4) by (intro whole_seconds_le) simp
  with q(3) e p c show ?thesis by (simp add: claims_of_def)
qed

context service_env
begin

lemma signed_out_refused:
  assumes "jwt_codec E" and "issued_token E S u at token" and "0 \<le> at" and "0 \<le> access_token_minutes S"
    and "signed_out E (access_token_minutes S * 60) u s D w"
    and "whole_seconds at \<le> s" and "at + minutes (access_token_minutes S) \<le> D"
    and "judged_alike E S at w"
  shows "\<exists>e \<in> refusals. outcome (get_current_user E S path token w) = Inl e"
proof -
  let ?t = "instant E w" and ?w = "w\<lparr>w_draws := Suc (w_draws w)\<rparr>"
  have w: "signed_out E (access_token_minutes S * 60) u s D ?w"
    using so_wait [OF assms(5), of "Suc (w_draws w)"] by simp
  show ?thesis
  proof (cases "e_jwt_decode E token (jwt_issuer S) ?t")
    case (Inl a)
    then show ?thesis
      by (simp add: get_current_user_def bnd_decode refusals_def
          invalid_token_def)
  next
    case (Inr c)
    obtain j where c: "c_sub c = Some (uuid_str u)" "c_iat c = Some (whole_seconds at)" "c_jti c = Some j"
      and t: "?t < at + minutes (access_token_minutes S)"
      using decoded_token [OF assms(1-4) Inr] by blast
    then have "instant E ?w < D" using assms(7,8) by (auto simp: judged_alike_def)
    then obtain i where i: "s \<le> i" "live_cutoff E ?w (instant E ?w) u = Some i"
      using w by (auto simp: signed_out_def)
    have g: "\<exists>rest. get_current_user E S path token w =
        bnd (revoked_before E u) (\<lambda>cutoff.
        bnd (is_token_revoked E j) (\<lambda>token_revoked.
        if token_revoked \<or> (case cutoff of None \<Rightarrow> False | Some x \<Rightarrow> seconds (whole_seconds at) \<le> x)
        then raise (ProblemError session_revoked) else rest)) ?w"
      by (simp add: get_current_user_def bnd_decode Inr c) (rule exI, rule refl)
    obtain y w1 where b: "revoked_before E u ?w = (y, w1)" by fastforce
    show ?thesis
    proof (cases y)
      case (Inl e)
      with b have "e = RedisError"
        by (auto simp: revoked_before_def redis_cmd_def bnd_def split: prod.splits sum.splits option.splits)
      with b Inl g show ?thesis by (auto simp: bnd_def refusals_def)
    next
      case (Inr cut)
      have cut: "cut = Some (seconds i)"
        using store.before_answer [OF b [unfolded Inr]] i by simp
      obtain z w2 where z: "is_token_revoked E j w1 = (z, w2)" by fastforce
      have "z = Inl RedisError \<or> (\<exists>v. z = Inr v)"
        using z by (auto simp: is_token_revoked_def redis_cmd_def bnd_def
            split: prod.splits sum.splits option.splits)
      moreover have "whole_seconds at \<le> i" using i assms(6) by simp
      ultimately show ?thesis
        using b Inr g cut z by (auto simp: bnd_def refusals_def)
    qed
  qed
qed

text \<open>The contract every operation of this theory is used through.\<close>

lemma ended_sessions_refused:
  assumes "jwt_codec E" and "0 \<le> access_token_minutes S" and "sessions_ended E S u w w1"
    and "later E S w1 w2"
    and "issued_token E S u at token" and "0 \<le> at" and "at \<le> instant E w" and "judged_alike E S at w2"
  shows "\<exists>e \<in> refusals. outcome (get_current_user E S path token w2) = Inl e"
proof -
  obtain s D where s: "whole_seconds (instant E w) \<le> s" "instant E w + minutes (access_token_minutes S) \<le> D"
    and w1: "signed_out E (access_token_minutes S * 60) u s D w1"
    using assms(3) by (auto simp: sessions_ended_def)
  have "signed_out E (access_token_minutes S * 60) u s D w2"
    using so_kept [OF assms(4) w1] .
  moreover have "whole_seconds at \<le> s" using whole_seconds_mono [OF assms(7)] s(1) by simp
  ultimately show ?thesis
    using signed_out_refused [OF assms(1,5,6,2)] s(2) assms(7,8) by simp
qed

end

end
