(* ===== verification/Authentication.thy ===== *)
theory Authentication
  imports Session_Revocation
begin

text \<open>
  What passing \<open>get_current_user\<close> proves about a request, and the revoking operations seen from
  outside, as requests served.
\<close>

section \<open>Passing the authentication\<close>

lemma wp_revoked_before:
  assumes "\<And>c w'. w_db w' = w_db w \<Longrightarrow> Q c w'" and "\<And>w'. w_db w' = w_db w \<Longrightarrow> Z RedisError w'"
  shows "wp (revoked_before E u) Q Z w"
  unfolding revoked_before_def wp_bnd wp_ret by (rule wp_redis_cmd) (simp_all add: assms)

lemma wp_is_token_revoked:
  assumes "\<And>b w'. w_db w' = w_db w \<Longrightarrow> Q b w'" and "\<And>w'. w_db w' = w_db w \<Longrightarrow> Z RedisError w'"
  shows "wp (is_token_revoked E j) Q Z w"
  unfolding is_token_revoked_def wp_bnd wp_ret by (rule wp_redis_cmd) (simp_all add: assms)

definition authentic :: "'r env \<Rightarrow> settings \<Rightarrow> string \<Rightarrow> string \<Rightarrow> 'r world \<Rightarrow> user \<Rightarrow> bool" where
  "authentic E S path token w user \<longleftrightarrow>
     (\<exists>c sub. e_jwt_decode E token (jwt_issuer S) (instant E w) = Inr c \<and>
        c_sub c = Some sub \<and> uuid_parse sub = Some (u_id user)) \<and>
     (\<exists>r. row_by_id (u_id user) (w_db w) = Some r \<and> to_domain r = Some user) \<and>
     can_log_in user \<and>
     (u_must_change_password user \<longrightarrow> path \<in> set PATHS_ALLOWED_WHILE_PASSWORD_CHANGE_IS_DUE)"

lemma wp_deny_blocked [wp_simps]:
  "wp (deny_blocked_account user title) Q Z w =
     (if can_log_in user then Q () w
      else if u_status user = UNDER_REVIEW \<and> u_deleted_at user = None then
        Z (ProblemError (Problem 403 ''account-under-review'' title UNDER_REVIEW_ACCOUNT)) w
      else Z (ProblemError (Problem 403 ''account-suspended'' title SUSPENDED_ACCOUNT)) w)"
  by (simp add: deny_blocked_account_def wp_simps)

lemma authenticI:
  assumes "e_jwt_decode E token (jwt_issuer S) (instant E w) = Inr c" and "c_sub c = Some sub"
    and "uuid_parse sub = Some i" and "row_by_id i (w_db w) = Some r" and "to_domain r = Some user"
    and "can_log_in user"
    and "\<not> u_must_change_password user \<or> path \<in> set PATHS_ALLOWED_WHILE_PASSWORD_CHANGE_IS_DUE"
  shows "authentic E S path token w user"
  using assms to_domain_id [OF assms(4,5)] by (auto simp: authentic_def)

lemma wp_get_current_user:
  "wp (get_current_user E S path token)
     (\<lambda>user w'. authentic E S path token w user \<and> w_db w' = w_db w) (\<lambda>_ w'. w_db w' = w_db w) w"
  unfolding get_current_user_def
  by (simp add: wp_simps del: wp_users split: sum.split option.split,
      intro allI impI wp_revoked_before)
     (auto simp: wp_simps split: option.split intro!: wp_is_token_revoked intro: authenticI)

lemma current_user_Inr:
  assumes "get_current_user E S path token w = (Inr user, w')"
  shows "authentic E S path token w user" and "w_db w' = w_db w"
  using wp_Inr [OF wp_get_current_user assms] by simp_all

lemma advances_current_user: "advances (get_current_user E S path token)"
  unfolding get_current_user_def decode_access_token_def revoked_before_def is_token_revoked_def
    users_get_def loaded_def deny_blocked_account_def
  by (rule advancesI, (rule adv_rules | assumption)+)

lemma authentic_subject:
  assumes "jwt_codec E" and "0 \<le> at" and "0 \<le> access_token_minutes S"
    and "issued_token E S u at token" and "authentic E S path token w user"
  shows "u_id user = u"
  using assms(5) decoded_token [OF assms(1,4,2,3)] by (auto simp: authentic_def)

lemma authentic_stored:
  "authentic E S path token w user \<Longrightarrow> accounts (w_db w) (u_id user) = Some user"
  by (auto simp: authentic_def accounts_def)

section \<open>Served requests\<close>

lemma error_response_Inr: "\<exists>r w'. error_response E path e w = (Inr r, w')"
  by (auto simp: error_response_def problem_response_def answer_def bnd_apply split: option.split)

fun own_body :: "body \<Rightarrow> bool" where
  "own_body (ProblemDetails _) = False"
| "own_body (StatusOnly s) = (s \<noteq> ''Internal Server Error'')"
| "own_body _ = True"

text \<open>A request answered with a body of its own, and not with an error, ran to its end and committed.\<close>

lemma serve_committed:
  assumes "serve E S req w = (r, w')" and "own_body (r_body r)"
  shows "route E S req (w\<lparr>w_tx_now := instant E w, w_draws := Suc (w_draws w)\<rparr>) = (Inr r, w') \<and>
    constraints (w_db w')"
proof -
  let ?w = "w\<lparr>w_tx_now := instant E w, w_draws := Suc (w_draws w)\<rparr>"
  have no: "error_response E path e w1 \<noteq> (Inr r, w2)" for path e w1 w2
    using assms(2)
    by (auto simp: error_response_def problem_response_def answer_def bnd_apply
        split: option.splits if_splits)
  obtain x w1 where run: "session_scope E (route E S req) w = (x, w1)" by fastforce
  obtain v where "x = Inr v"
  proof (cases x)
    case (Inl e)
    obtain r' w2 where "error_response E (request_path req) e w1 = (Inr r', w2)"
      using error_response_Inr by blast
    with assms(1) run Inl no show thesis by (auto simp: serve_def)
  qed (use that in blast)
  with assms(1) run show ?thesis
    by (auto simp: serve_def session_scope_def Let_def split: prod.splits sum.splits if_splits)
qed

lemma sessions_ended_earlier:
  assumes "steady_clock E" and "w_draws w \<le> w_draws w0" and "sessions_ended E S u w0 w'"
  shows "sessions_ended E S u w w'"
proof -
  have le: "instant E w \<le> instant E w0" using assms(1,2) by (simp add: steady_clock_def)
  obtain s D where "whole_seconds (instant E w0) \<le> s"
    "instant E w0 + minutes (access_token_minutes S) \<le> D"
    "signed_out E (access_token_minutes S * 60) u s D w'"
    using assms(3) by (auto simp: sessions_ended_def)
  with le whole_seconds_mono [OF le] show ?thesis
    unfolding sessions_ended_def by (intro exI [of _ s] exI [of _ D]) linarith
qed

lemma validated_Inr: "validated x w = (Inr v, w') \<longleftrightarrow> x = Some v \<and> w' = w"
  by (auto simp: validated_def split: option.splits)

section \<open>What the revoking requests ran\<close>

abbreviation begun :: "'r env \<Rightarrow> 'r world \<Rightarrow> 'r world" where
  "begun E w \<equiv> w\<lparr>w_tx_now := instant E w, w_draws := Suc (w_draws w)\<rparr>"

lemma changed_request_run:
  assumes "serve E S (ChangePassword bearer cur new conf) w = (r, w')" and "r_body r = StatusOnly ''changed''"
  obtains user w1 cur' new' where
    "get_current_user E S (me_path @ ''/change-password'') bearer (begun E w) = (Inr user, w1)"
    "change_password E S user cur' new' w1 = (Inr (), w')"
  using serve_committed [OF assms(1)] assms(2)
  by (auto simp: route.simps change_password_route_def current_user_def validated_Inr answer_def
      elim!: bnd_InrE)

lemma deleted_request_run:
  assumes "serve E S (DeleteAccount bearer cur) w = (r, w')" and "r_body r = StatusOnly ''deleted''"
  obtains user w1 cur' where "get_current_user E S me_path bearer (begun E w) = (Inr user, w1)"
    "delete_account E S user cur' w1 = (Inr (), w')"
  using serve_committed [OF assms(1)] assms(2)
  by (auto simp: route.simps delete_account_route_def current_user_def validated_Inr answer_def
      elim!: bnd_InrE)

lemma reset_request_run:
  assumes "serve E S (ResetPassword token new conf) w = (r, w')" and "r_body r = StatusHandle ''reset'' h"
  obtains a new' where "reset_password E S token new' (begun E w) = (Inr a, w')"
  using serve_committed [OF assms(1)] assms(2)
  by (auto simp: route.simps reset_password_route_def required_text_def validated_Inr answer_def
      elim!: bnd_InrE split: if_splits)

lemma block_request_run:
  assumes "serve E S (BlockAccount bearer i reason) w = (r, w')" and "r_body r = NoContent"
  obtains admin w1 reason' where
    "get_current_user E S (request_path (BlockAccount bearer i reason)) bearer (begun E w) = (Inr admin, w1)"
    "is_administrator admin" "block E S admin i reason' w1 = (Inr (), w')" "w_db w1 = w_db w"
    "BlockAccountRequest reason = Some reason'"
proof -
  have "route E S (BlockAccount bearer i reason) (begun E w) = (Inr r, w')"
    using serve_committed [OF assms(1)] assms(2) by simp
  then obtain admin w1 reason' where
    g: "get_current_user E S (request_path (BlockAccount bearer i reason)) bearer (begun E w) = (Inr admin, w1)"
    and "is_administrator admin" "block E S admin i reason' w1 = (Inr (), w')"
      "BlockAccountRequest reason = Some reason'"
    by (auto simp: route.simps block_account_route_def current_administrator_def current_user_def
        require_administrator_def validated_Inr answer_def elim!: bnd_InrE split: if_splits)
  with current_user_Inr(2) [OF g] that show thesis by simp
qed

lemma review_request_run:
  assumes "serve E S (PutUnderReview tok i) w = (r, w')" and "r_body r = NoContent"
  shows "put_under_review E S i (begun E w) = (Inr (), w')"
  using serve_committed [OF assms(1)] assms(2)
  by (auto simp: route.simps put_under_review_route_def require_internal_token_def answer_def
      elim!: bnd_InrE split: if_splits)

context service_env
begin

lemma changed_request_ends:
  assumes codec: "jwt_codec E" "0 \<le> access_token_minutes S" "issued_token E S u at0 bearer" "0 \<le> at0"
    and run: "serve E S (ChangePassword bearer cur new conf) w = (r, w')"
    and answered: "r_body r = StatusOnly ''changed''"
  shows "sessions_ended E S u w w'"
proof -
  obtain user w1 cur' new' where
    g: "get_current_user E S (me_path @ ''/change-password'') bearer (begun E w) = (Inr user, w1)"
    and c: "change_password E S user cur' new' w1 = (Inr (), w')"
    using run answered by (rule changed_request_run)
  have "u_id user = u"
    using authentic_subject [OF codec(1,4,2,3)] current_user_Inr(1) [OF g] by blast
  then have "sessions_ended E S u w1 w'"
    using sessions_endedI [OF ends_change_password c] by simp
  moreover have "w_draws (begun E w) \<le> w_draws w1" by (rule advances_run [OF advances_current_user g])
  ultimately show ?thesis using sessions_ended_earlier [OF steady, of w w1] by simp
qed

lemma deleted_request_ends:
  assumes codec: "jwt_codec E" "0 \<le> access_token_minutes S" "issued_token E S u at0 bearer" "0 \<le> at0"
    and run: "serve E S (DeleteAccount bearer cur) w = (r, w')"
    and answered: "r_body r = StatusOnly ''deleted''"
  shows "sessions_ended E S u w w'"
proof -
  obtain user w1 cur' where g: "get_current_user E S me_path bearer (begun E w) = (Inr user, w1)"
    and c: "delete_account E S user cur' w1 = (Inr (), w')"
    using run answered by (rule deleted_request_run)
  have "u_id user = u"
    using authentic_subject [OF codec(1,4,2,3)] current_user_Inr(1) [OF g] by blast
  then have "sessions_ended E S u w1 w'"
    using sessions_endedI [OF ends_delete_account c] by simp
  moreover have "w_draws (begun E w) \<le> w_draws w1" by (rule advances_run [OF advances_current_user g])
  ultimately show ?thesis using sessions_ended_earlier [OF steady, of w w1] by simp
qed

lemma reset_request_ends:
  assumes run: "serve E S (ResetPassword token new conf) w = (r, w')"
    and answered: "r_body r = StatusHandle ''reset'' h"
    and link: "List.find (\<lambda>l. prm_token_hash l = hash_token E token) (password_reset_tokens (w_db w)) = Some link"
  shows "sessions_ended E S (prm_user_id link) w w'"
proof -
  obtain a new' where c: "reset_password E S token new' (begun E w) = (Inr a, w')"
    using run answered by (rule reset_request_run)
  from reset_password_ends [OF c] link have "sessions_ended E S (prm_user_id link) (begun E w) w'" by simp
  then show ?thesis by (rule sessions_ended_earlier [OF steady, rotated]) simp
qed

lemma block_request_ends:
  assumes wf: "wf_users (users (w_db w))"
    and run: "serve E S (BlockAccount bearer i reason) w = (r, w')"
    and answered: "r_body r = NoContent"
    and account: "accounts (w_db w) i = Some b" "u_status b \<noteq> SUSPENDED"
  shows "sessions_ended E S i w w'"
proof -
  obtain admin w1 reason' where
    g: "get_current_user E S (request_path (BlockAccount bearer i reason)) bearer (begun E w) = (Inr admin, w1)"
    and c: "block E S admin i reason' w1 = (Inr (), w')" and db: "w_db w1 = w_db w"
    using run answered by (rule block_request_run)
  have "sessions_ended E S i w1 w'"
    using block_ends [OF c] account wf by (simp add: db)
  moreover have "w_draws (begun E w) \<le> w_draws w1" by (rule advances_run [OF advances_current_user g])
  ultimately show ?thesis using sessions_ended_earlier [OF steady, of w w1] by simp
qed

lemma review_request_ends:
  assumes wf: "wf_users (users (w_db w))"
    and run: "serve E S (PutUnderReview tok i) w = (r, w')"
    and answered: "r_body r = NoContent"
    and account: "accounts (w_db w) i = Some b" "u_status b = ACTIVE"
  shows "sessions_ended E S i w w'"
proof -
  have "sessions_ended E S i (begun E w) w'"
    using review_ends [OF review_request_run [OF run answered]] account wf by simp
  then show ?thesis by (rule sessions_ended_earlier [OF steady, rotated]) simp
qed

text \<open>A refresh token presented a second time, while its family is not revoked yet.\<close>

lemma refresh_reused_run:
  assumes wf: "wf_refresh (w_db v)"
    and token: "refresh_view (w_db v) (hash_token E raw) = Some t" "rt_used_at t \<noteq> None"
      "rt_revoked_at t = None"
  shows "\<exists>x w. refresh E S raw v = (Inl x, w) \<and>
    (x = RedisError \<or>
     x = ReusedRefreshTokenError invalid_refresh_token \<and>
     (\<forall>row \<in> set (refresh_tokens (w_db w)). rtm_user_id row = rt_user_id t \<longrightarrow> rtm_revoked_at row \<noteq> None))"
proof -
  let ?v1 = "v\<lparr>w_draws := Suc (w_draws v)\<rparr>" and ?now = "instant E v"
  obtain x w2 where c: "refresh_tokens_consume (hash_token E raw) ?now ?v1 = (x, w2)" by fastforce
  have x: "x = Inr None" and view: "refresh_view (w_db w2) = refresh_view (w_db v)"
    using consume_refines [OF _ c] wf token by (auto split: if_splits)
  let ?w3 = "w2\<lparr>w_db := (w_db w2)\<lparr>refresh_tokens :=
      map (\<lambda>r. if rtm_user_id r = rt_user_id t \<and> rtm_revoked_at r = None
               then r\<lparr>rtm_revoked_at := Some ?now\<rparr> else r) (refresh_tokens (w_db w2))\<rparr>\<rparr>"
  obtain y w4 where s: "revoke_sessions E (rt_user_id t) ?now (access_token_minutes S * 60) ?w3 = (y, w4)"
    by fastforce
  have y: "y = Inr () \<or> y = Inl RedisError" and db: "w_db w4 = w_db ?w3"
    using s by (auto simp: revoke_sessions_def redis_cmd_def split: prod.splits option.splits)
  have "refresh E S raw v = (case y of Inl e \<Rightarrow> (Inl e, w4)
      | Inr _ \<Rightarrow> (Inl (ReusedRefreshTokenError invalid_refresh_token), w4))"
    using c x view token s
    by (auto simp: refresh_def Let_def bnd_apply bnd_Inr refuse_apply
        refresh_tokens_revoke_all_def bnd_def split: sum.split)
  with y db show ?thesis by auto
qed

lemma reused_request_ends:
  assumes wf: "wf_refresh (w_db w)"
    and run: "serve E S (Refresh raw) w = (r, w')"
    and answered: "r_body r \<noteq> StatusOnly ''Internal Server Error''"
    and token: "refresh_view (w_db w) (hash_token E raw) = Some t" "rt_used_at t \<noteq> None"
      "rt_revoked_at t = None" "raw \<noteq> []"
  shows "sessions_ended E S (rt_user_id t) w w' \<and> r_status r = 401 \<and>
    (\<forall>row \<in> set (refresh_tokens (w_db w')). rtm_user_id row = rt_user_id t \<longrightarrow> rtm_revoked_at row \<noteq> None)"
proof -
  let ?w = "begun E w"
  obtain x w4 where ref: "refresh E S raw ?w = (Inl x, w4)"
    and x: "x = RedisError \<or> x = ReusedRefreshTokenError invalid_refresh_token \<and>
      (\<forall>row \<in> set (refresh_tokens (w_db w4)). rtm_user_id row = rt_user_id t \<longrightarrow> rtm_revoked_at row \<noteq> None)"
    using refresh_reused_run [of ?w raw t S] wf token by auto
  show ?thesis
  proof (cases "x = RedisError")
    case True
    then have "route E S (Refresh raw) ?w = (Inl RedisError, w4)"
      using ref token(4)
      by (simp add: route.simps refresh_route_def refresh_or_answer_def required_text_def validated_def)
    with run answered show ?thesis
      by (auto simp: serve_def session_scope_def error_response_def answer_def)
  next
    case False
    let ?w5 = "w4\<lparr>w_draws := Suc (w_draws w4)\<rparr>"
    have "\<exists>d. route E S (Refresh raw) ?w =
        (Inr \<lparr> r_status = 401, r_body = ProblemDetails d, r_headers = [] \<rparr>, ?w5)"
      using ref x False token(4)
      by (simp add: route.simps refresh_route_def refresh_or_answer_def required_text_def validated_def
          problem_response_def bnd_apply invalid_refresh_token_def Problem_def)
    then have "w' = ?w5" and "r_status r = 401"
      using run answered
      by (auto simp: serve_def session_scope_def error_response_def answer_def split: if_splits)
    moreover have "sessions_ended E S (rt_user_id t) ?w w4"
      using refresh_reuse_ends [of S raw ?w] ref x False token wf by simp
    then have "sessions_ended E S (rt_user_id t) w w4"
      by (rule sessions_ended_earlier [OF steady, rotated]) simp
    then have "sessions_ended E S (rt_user_id t) w ?w5"
      unfolding sessions_ended_def using so_wait [of "access_token_minutes S * 60" "rt_user_id t" _ _ w4 "Suc (w_draws w4)"]
      by (meson le_SucI order_refl)
    ultimately show ?thesis using x False by simp
  qed
qed

end

text \<open>One whose family was revoked already is only an invalid token: nothing is revoked on its account.\<close>

lemma refresh_revoked_run:
  assumes wf: "wf_refresh (w_db v)"
    and token: "refresh_view (w_db v) (hash_token E raw) = Some t" "rt_revoked_at t \<noteq> None"
  shows "\<exists>w. refresh E S raw v = (Inl (ProblemError invalid_refresh_token), w) \<and> w_redis w = w_redis v"
proof -
  let ?v1 = "v\<lparr>w_draws := Suc (w_draws v)\<rparr>" and ?now = "instant E v"
  obtain x w2 where c: "refresh_tokens_consume (hash_token E raw) ?now ?v1 = (x, w2)" by fastforce
  have "x = Inr None" and "refresh_view (w_db w2) = refresh_view (w_db v)"
    using consume_refines [OF _ c] wf token by (auto split: if_splits)
  moreover have "w_redis w2 = w_redis v" using c by (auto simp: refresh_tokens_consume_def bnd_apply)
  ultimately show ?thesis
    using c token by (auto simp: refresh_def Let_def bnd_apply bnd_Inr refuse_apply bnd_def)
qed

lemma revoked_request_refused:
  assumes wf: "wf_refresh (w_db w)" and run: "serve E S (Refresh raw) w = (r, w')"
    and token: "refresh_view (w_db w) (hash_token E raw) = Some t" "rt_revoked_at t \<noteq> None" "raw \<noteq> []"
  shows "r_status r = 401 \<and> w_db w' = w_db w \<and> w_redis w' = w_redis w"
proof -
  obtain w1 where "refresh E S raw (begun E w) = (Inl (ProblemError invalid_refresh_token), w1)"
      and redis: "w_redis w1 = w_redis w"
    using refresh_revoked_run [of "begun E w" E raw t S] wf token by auto
  then have "route E S (Refresh raw) (begun E w) = (Inl (ProblemError invalid_refresh_token), w1)"
    using token(3) by (simp add: route.simps refresh_route_def refresh_or_answer_def required_text_def validated_def)
  then show ?thesis
    using run redis
    by (auto simp: serve_def session_scope_def error_response_def problem_response_def bnd_apply
        invalid_refresh_token_def Problem_def)
qed

end
