(* ===== verification/Example_World.thy ===== *)
theory Example_World
  imports Authentication
begin

text \<open>
  A concrete environment in which every hypothesis of the development holds: the Redis keyspace, a
  clock that advances a millisecond at every reading, and executable stand-ins for the libraries. The
  witnesses of the properties are evaluated in it, on a database with a few accounts.
\<close>

section \<open>A codec for access tokens\<close>

fun text_out :: "string \<Rightarrow> string" where
  "text_out [] = ''.''"
| "text_out (c # cs) = CHR ''x'' # c # text_out cs"

fun text_in :: "string \<Rightarrow> (string \<times> string) option" where
  "text_in (d # cs) =
     (if d = CHR ''.'' then Some ([], cs)
      else (case cs of [] \<Rightarrow> None
            | c # cs' \<Rightarrow> if d = CHR ''x'' then map_option (\<lambda>(s, r). (c # s, r)) (text_in cs') else None))"
| "text_in [] = None"

lemma text_in_out [simp]: "text_in (text_out s @ r) = Some (s, r)"
  by (induction s) auto

lemma text_in_end [simp]: "text_in (text_out s) = Some (s, [])"
  using text_in_out [of s "[]"] by simp

fun nat_out :: "nat \<Rightarrow> string" where
  "nat_out n = (if n = 0 then [] else (if even n then CHR ''0'' else CHR ''1'') # nat_out (n div 2))"

declare nat_out.simps [simp del]

fun nat_in :: "string \<Rightarrow> nat" where
  "nat_in [] = 0"
| "nat_in (c # cs) = (if c = CHR ''1'' then 1 else 0) + 2 * nat_in cs"

lemma nat_in_out [simp]: "nat_in (nat_out n) = n"
proof (induction n rule: nat_out.induct)
  case (1 n)
  show ?case
  proof (cases "n = 0")
    case True
    then show ?thesis by (simp add: nat_out.simps)
  next
    case False
    with 1 show ?thesis by (cases "even n") (simp_all add: nat_out.simps [of n])
  qed
qed

definition int_out :: "int \<Rightarrow> string" where
  "int_out i = (if i < 0 then CHR ''-'' # nat_out (nat (- i)) else CHR ''+'' # nat_out (nat i))"

definition int_in :: "string \<Rightarrow> int" where
  "int_in s = (case s of [] \<Rightarrow> 0 | c # cs \<Rightarrow> if c = CHR ''-'' then - int (nat_in cs) else int (nat_in cs))"

lemma int_in_out [simp]: "int_in (int_out i) = i"
  by (simp add: int_in_def int_out_def)

definition demo_encode :: "token_payload \<Rightarrow> string" where
  "demo_encode p = text_out (pl_iss p) @ text_out (pl_sub p) @ text_out (pl_role p) @
     text_out (pl_handle p) @ text_out (pl_profile_visibility p) @ text_out (pl_jti p) @
     text_out (int_out (whole_seconds (pl_iat p))) @ text_out (int_out (whole_seconds (pl_exp p)))"

text \<open>Reads the claims, and accepts the token only when printing them gives it back.\<close>

definition read_claims :: "string \<Rightarrow> token_payload option" where
  "read_claims tok =
     (case text_in tok of None \<Rightarrow> None | Some (iss, r1) \<Rightarrow>
      case text_in r1 of None \<Rightarrow> None | Some (sub, r2) \<Rightarrow>
      case text_in r2 of None \<Rightarrow> None | Some (role, r3) \<Rightarrow>
      case text_in r3 of None \<Rightarrow> None | Some (h, r4) \<Rightarrow>
      case text_in r4 of None \<Rightarrow> None | Some (vis, r5) \<Rightarrow>
      case text_in r5 of None \<Rightarrow> None | Some (jti, r6) \<Rightarrow>
      case text_in r6 of None \<Rightarrow> None | Some (iat, r7) \<Rightarrow>
      case text_in r7 of None \<Rightarrow> None | Some (exp, r8) \<Rightarrow>
      Some \<lparr> pl_iss = iss, pl_sub = sub, pl_role = role, pl_handle = h, pl_profile_visibility = vis,
             pl_jti = jti, pl_iat = seconds (int_in iat), pl_exp = seconds (int_in exp) \<rparr>)"

definition demo_decode :: "string \<Rightarrow> string \<Rightarrow> time \<Rightarrow> jwt_error + claims" where
  "demo_decode tok iss t =
     (case read_claims tok of
        None \<Rightarrow> Inl OtherInvalidTokenError
      | Some p \<Rightarrow>
          if demo_encode p \<noteq> tok \<or> t < pl_iat p then Inl OtherInvalidTokenError
          else if pl_exp p \<le> t then Inl ExpiredSignatureError
          else if pl_iss p \<noteq> iss then Inl OtherInvalidTokenError
          else Inr (claims_of p))"

lemma whole_seconds_seconds [simp]: "whole_seconds (seconds n) = n"
proof -
  have "(- n) * 1000000 div 1000000 = - n" by (rule nonzero_mult_div_cancel_right) simp
  then have "- seconds n div 1000000 = - n" by (simp only: mult_minus_left)
  then show ?thesis by (simp add: whole_seconds_def)
qed

definition in_seconds :: "token_payload \<Rightarrow> token_payload" where
  "in_seconds p = p\<lparr>pl_iat := seconds (whole_seconds (pl_iat p)), pl_exp := seconds (whole_seconds (pl_exp p))\<rparr>"

lemma read_encode [simp]: "read_claims (demo_encode p) = Some (in_seconds p)"
  by (simp add: read_claims_def demo_encode_def in_seconds_def)

lemma in_seconds_same [simp]:
  "demo_encode (in_seconds p) = demo_encode p" "claims_of (in_seconds p) = claims_of p"
  "pl_iss (in_seconds p) = pl_iss p" "pl_iat (in_seconds p) = seconds (whole_seconds (pl_iat p))"
  "pl_exp (in_seconds p) = seconds (whole_seconds (pl_exp p))"
  by (simp_all add: demo_encode_def in_seconds_def claims_of_def)

lemma claims_eq: "demo_encode p = demo_encode q \<Longrightarrow> claims_of p = claims_of q"
  by (metis in_seconds_same(2) option.inject read_encode)

section \<open>The environment\<close>

definition demo_env :: "keyspace env" where
  "demo_env =
     \<lparr> e_clock = (\<lambda>n. int n * 1000),
       e_uuid4 = of_nat,
       e_token_urlsafe = (\<lambda>b n. ''t'' @ py_str_nat n),
       e_argon2_hash = (\<lambda>n p. CHR ''$'' # p),
       e_argon2_verify = (\<lambda>h p. h = CHR ''$'' # p),
       e_sha256 = (\<lambda>s. s),
       e_jwt_encode = demo_encode,
       e_jwt_decode = demo_decode,
       e_validate_email = (\<lambda>s. if CHR ''@'' \<in> set s then Some s else None),
       e_nh3_clean = (\<lambda>s. s),
       e_check_blocks = (\<lambda>n viewer ids. Some []),
       e_json_parse = (\<lambda>s. None),
       e_json_uuid = (\<lambda>j. case j of JString s \<Rightarrow> uuid_parse s | _ \<Rightarrow> None),
       e_json_instant = (\<lambda>j. case j of JInt n \<Rightarrow> Some (seconds n) | _ \<Rightarrow> None),
       e_redis = keyspace_redis \<rparr>"

lemma demo_steady: "steady_clock demo_env"
  by (simp add: steady_clock_def demo_env_def)

interpretation demo: service_env demo_env
  using keyspace_server.redis_server_axioms demo_steady
  by (simp add: service_env_def service_env_axioms_def demo_env_def)

lemma demo_service_env: "service_env demo_env"
  by (rule demo.service_env_axioms)

lemma demo_argon2: "argon2_correct demo_env"
  by (auto simp: argon2_correct_def demo_env_def)

lemma demo_jwt: "jwt_codec demo_env"
proof -
  have "\<exists>p. tok = demo_encode p \<and> c = claims_of p \<and> pl_iss p = iss \<and>
      seconds (whole_seconds (pl_iat p)) \<le> t \<and> t < seconds (whole_seconds (pl_exp p))"
    if d: "demo_decode tok iss t = Inr c" for tok iss t c
  proof -
    obtain p where p: "read_claims tok = Some p" "demo_encode p = tok" "pl_iat p \<le> t" "t < pl_exp p"
      "pl_iss p = iss" "c = claims_of p"
      using d by (auto simp: demo_decode_def split: option.splits if_splits)
    then have "p = in_seconds p" by (metis option.inject read_encode)
    then have "pl_iat p = seconds (whole_seconds (pl_iat p))" "pl_exp p = seconds (whole_seconds (pl_exp p))"
      by (metis in_seconds_same(4), metis in_seconds_same(5))
    with p show ?thesis by (intro exI [of _ p]) simp
  qed
  then show ?thesis
    by (auto simp: jwt_codec_def demo_env_def demo_decode_def intro: claims_eq)
qed

section \<open>Running it\<close>

lemma demo_fields [simp]:
  "e_clock demo_env n = int n * 1000"
  "e_uuid4 demo_env n = of_nat n"
  "e_token_urlsafe demo_env b n = ''t'' @ py_str_nat n"
  "e_argon2_hash demo_env n p = CHR ''$'' # p"
  "e_argon2_verify demo_env h p \<longleftrightarrow> h = CHR ''$'' # p"
  "e_sha256 demo_env s = s"
  "e_jwt_encode demo_env pl = demo_encode pl"
  "e_jwt_decode demo_env tok iss t = demo_decode tok iss t"
  "e_validate_email demo_env s = (if CHR ''@'' \<in> set s then Some s else None)"
  "e_nh3_clean demo_env s = s"
  "e_check_blocks demo_env m viewer ids = Some []"
  "e_redis demo_env = keyspace_redis"
  by (simp_all add: demo_env_def)

lemma keyspace_fields [simp]:
  "rd_incr keyspace_redis k t r = (let e = incremented (aged t (r k)) in (Some (fst e), r(k \<mapsto> e)))"
  "rd_expire keyspace_redis k s t r =
     (Some (if aged t (r k) = None then 0 else 1),
      r(k := (if s \<le> 0 then None
              else map_option (\<lambda>e. (fst e, Some (t + seconds s))) (aged t (r k)))))"
  "rd_get keyspace_redis k t r = (Some (map_option fst (aged t (r k))), r)"
  "rd_set_ex keyspace_redis k v s t r =
     (if 0 < s then (Some (), r(k \<mapsto> (v, Some (t + seconds s)))) else (None, r))"
  "rd_delete keyspace_redis k t r = (Some (if aged t (r k) = None then 0 else 1), r(k := None))"
  "rd_exists keyspace_redis k t r = (Some (if aged t (r k) = None then 0 else 1), r)"
  by (simp_all add: keyspace_redis_def)

text \<open>What a method is made of, for running it step by step.\<close>

lemmas method_defs =
  revoked_before_def is_token_revoked_def revoke_sessions_def revoke_token_def count_marks_def
  hit_def reset_marks_def users_get_def users_find_by_identifier_def
  users_find_by_email_def users_save_def users_exists_with_email_or_handle_def loaded_def
  repository_defs event_constructors build_event_def event_id_def hash_password_def
  generate_emailed_token_def generate_refresh_token_def generate_temporary_password_def
  issue_access_token_def decode_access_token_def verify_password_def hash_token_def
  deny_blocked_account_def deny_expired_temporary_password_def guard_lockout_def
  register_failure_def issue_verification_token_def issue_session_def issue_refresh_token_def
  verify_current_password_def guard_current_password_def reset_current_password_def
  guard_reset_limit_def guard_limit_def audit_record_def audit_administrator_def
  current_user_def current_superadmin_def current_administrator_def require_superadmin_def
  require_administrator_def require_internal_token_def validated_def answer_def
  problem_response_def error_response_def current_password_policy_def app_login_policy_def
  admin_login_policy_def window_seconds_def

section \<open>Accounts\<close>

definition demo_settings :: settings where
  "demo_settings = default_settings ''internal''"

definition demo_row :: "uuid \<Rightarrow> string \<Rightarrow> string \<Rightarrow> string \<Rightarrow> role \<Rightarrow> user_model" where
  "demo_row i email handle password role =
     UserModel ((User email handle (CHR ''$'' # password))
       \<lparr>u_role := role, u_is_email_verified := True, u_terms_accepted := True,
        u_terms_accepted_at := Some 0\<rparr>) i 0"

definition demo_db :: db where
  "demo_db = empty_db\<lparr>users :=
     [demo_row 1 ''ana@x.ar'' ''@ana1'' ''Secret12'' USER,
      demo_row 2 ''root@x.ar'' ''@root'' ''Secret34'' SUPERADMIN]\<rparr>"

definition demo_world :: "keyspace world" where
  "demo_world = \<lparr> w_db = demo_db, w_redis = (\<lambda>_. None), w_draws = 5000, w_tx_now = 0 \<rparr>"

text \<open>An access token of the first account and one of the second, from the beginning of time.\<close>

definition demo_payload :: "uuid \<Rightarrow> string \<Rightarrow> string \<Rightarrow> token_payload" where
  "demo_payload u role handle =
     \<lparr> pl_iss = ''users-api'', pl_sub = uuid_str u, pl_role = role, pl_handle = handle,
       pl_profile_visibility = ''public'', pl_jti = uuid_str 9, pl_iat = 0, pl_exp = minutes 15 \<rparr>"

definition demo_token :: "uuid \<Rightarrow> string" where
  "demo_token u = demo_encode (demo_payload u ''user'' ''@ana1'')"

lemma demo_issued: "issued_token demo_env demo_settings u 0 (demo_token u)"
  unfolding issued_token_def
  by (rule exI [of _ "demo_payload u ''user'' ''@ana1''"])
     (simp add: demo_token_def demo_env_def demo_payload_def demo_settings_def default_settings_def)

lemma demo_settings_fields [simp]:
  "internal_api_token demo_settings = ''internal''" "jwt_issuer demo_settings = ''users-api''"
  "access_token_minutes demo_settings = 15" "refresh_token_days demo_settings = 7"
  "login_max_attempts demo_settings = 5" "login_lockout_minutes demo_settings = 15"
  "admin_login_max_attempts demo_settings = 3" "admin_login_lockout_minutes demo_settings = 30"
  "change_password_max_attempts demo_settings = 3" "change_password_lockout_minutes demo_settings = 15"
  "administrator_email_domain demo_settings = []" "email_verification_hours demo_settings = 24"
  "password_reset_minutes demo_settings = 10" "password_reset_max_requests demo_settings = 3"
  "password_reset_window_minutes demo_settings = 60"
  "public_base_url demo_settings = ''http://localhost:8000''"
  by (simp_all add: demo_settings_def default_settings_def)

definition ana :: user where
  "ana = account.extend ((User ''ana@x.ar'' ''@ana1'' ''$Secret12'')
     \<lparr>u_role := USER, u_is_email_verified := True, u_terms_accepted := True,
      u_terms_accepted_at := Some 0\<rparr>) \<lparr> u_id = 1, u_created_at = 0 \<rparr>"

definition root :: user where
  "root = account.extend ((User ''root@x.ar'' ''@root'' ''$Secret34'')
     \<lparr>u_role := SUPERADMIN, u_is_email_verified := True, u_terms_accepted := True,
      u_terms_accepted_at := Some 0\<rparr>) \<lparr> u_id = 2, u_created_at = 0 \<rparr>"

lemma demo_rows [simp]:
  "row_by_id 1 demo_db = Some (demo_row 1 ''ana@x.ar'' ''@ana1'' ''Secret12'' USER)"
  "row_by_id 2 demo_db = Some (demo_row 2 ''root@x.ar'' ''@root'' ''Secret34'' SUPERADMIN)"
  by (simp_all add: row_by_id_def demo_db_def demo_row_def UserModel_def)

lemma demo_row_domain [simp]:
  "to_domain (demo_row 1 ''ana@x.ar'' ''@ana1'' ''Secret12'' USER) = Some ana"
  "to_domain (demo_row 2 ''root@x.ar'' ''@root'' ''Secret34'' SUPERADMIN) = Some root"
  by (simp_all add: demo_row_def ana_def root_def)

lemma demo_users [simp]:
  "can_log_in ana" "\<not> u_must_change_password ana" "u_id ana = 1" "u_password_hash ana = ''$Secret12''"
  "u_status ana = ACTIVE" "u_deleted_at ana = None" "u_role ana = USER" "u_handle ana = ''@ana1''"
  "can_log_in root" "\<not> u_must_change_password root" "u_id root = 2" "u_role root = SUPERADMIN"
  "u_email root = ''root@x.ar''" "u_deleted_at root = None"
  by (simp_all add: ana_def root_def can_log_in_def User_def account.defs)

lemma demo_accounts [simp]: "accounts demo_db 1 = Some ana" "accounts demo_db 2 = Some root"
  by (simp_all add: accounts_def)

lemma demo_constraints: "constraints demo_db"
  by (simp add: constraints_def demo_db_def empty_db_def users_unique_def tokens_constraints_def
      demo_row_def UserModel_def User_def ck_users_def)

lemma demo_wf [simp]: "wf_users (users demo_db)"
  using demo_constraints by (rule wf_users_constraints)

lemma demo_world_fields [simp]:
  "w_db demo_world = demo_db" "w_redis demo_world = (\<lambda>_. None)" "w_draws demo_world = 5000"
  by (simp_all add: demo_world_def)

lemma demo_decodes:
  "demo_decode (demo_token u) ''users-api'' t =
     (if t < 0 then Inl OtherInvalidTokenError
      else if minutes 15 \<le> t then Inl ExpiredSignatureError
      else Inr (claims_of (demo_payload u ''user'' ''@ana1'')))"
  by (simp add: demo_decode_def demo_token_def demo_payload_def whole_seconds_def)

lemma demo_current:
  assumes "w_db w = demo_db" and "w_redis w = (\<lambda>_. None)" and "w_draws w < 900000"
  shows "get_current_user demo_env demo_settings path (demo_token 1) w =
      (Inr ana, w\<lparr>w_draws := Suc (Suc (Suc (w_draws w)))\<rparr>)"
    and "get_current_user demo_env demo_settings path (demo_token 2) w =
      (Inr root, w\<lparr>w_draws := Suc (Suc (Suc (w_draws w)))\<rparr>)"
  using assms
  by (simp_all add: get_current_user_def op_simps demo_decodes claims_of_def demo_payload_def method_defs)

text \<open>What the commit checks, and the checks of the schemas.\<close>

lemmas commit_defs =
  constraints_def demo_db_def empty_db_def users_unique_def tokens_constraints_def users_widths_def
  demo_row_def UserModel_def User_def ck_users_def write_row_def ana_def root_def account.defs
  ck_admin_audit_action_def

lemmas schema_defs =
  required_text_def validated_def ChangePasswordRequest_def confirmed_password_def password_field_def enforce_password_policy_def
  PASSWORD_MIN_LENGTH_def enforce_confirmation_matches_def py_isupper_def py_isdigit_def
  BlockAccountRequest_def BLOCK_REASON_MAX_LENGTH_def py_strip_def py_strip_by_def py_isspace_def

lemmas serve_defs = serve_def session_scope_def route.simps Let_def

end
