(* ===== verification/Example_Runs.thy ===== *)
theory Example_Runs
  imports Example_World
begin

text \<open>
  Requests served in the example environment. Each run is evaluated symbolically: the methods are
  first put into one chain of steps, which is then carried out on the example database.
\<close>

lemma demo_texts [simp]:
  "py_lower (py_strip ''bob@x.ar'') = ''bob@x.ar''" "py_lower (py_strip ''@bob12'') = ''@bob12''"
  by (simp_all add: py_lower_def py_lower_char_def py_isupper_def py_strip_def py_strip_by_def py_isspace_def)

lemmas chain_defs = bnd_assoc bnd_branches bnd_ret bnd_skip bnd_raise Let_def option.case

lemmas row_defs =
  row_by_id_def to_domain_def Role_def AccountStatus_def ProfileVisibility_def FeedLanguage_def
  is_administrator_def change_status_def

lemma demo_roles [simp]:
  "\<not> is_administrator ana" "is_administrator root"
  "require_administrator root = ret root" "require_superadmin root = ret root"
  by (simp_all add: is_administrator_def require_administrator_def require_superadmin_def)

lemma demo_change:
  "serve demo_env demo_settings (ChangePassword (demo_token 1) ''Secret12'' ''Other9876'' ''Other9876'')
      demo_world = (r, w') \<Longrightarrow>
    r_body r = StatusOnly ''changed'' \<and> w_draws w' < 6000"
  by (simp add: serve_defs change_password_route_def current_user_def bnd_Inr [OF demo_current(1)])
     (simp add: op_simps method_defs schema_defs change_password_def Let_def, auto simp: commit_defs)

lemma demo_delete:
  "serve demo_env demo_settings (DeleteAccount (demo_token 1) ''Secret12'') demo_world = (r, w') \<Longrightarrow>
    r_body r = StatusOnly ''deleted'' \<and> w_draws w' < 6000"
  by (simp add: serve_defs delete_account_route_def current_user_def bnd_Inr [OF demo_current(1)])
     (simp add: op_simps method_defs schema_defs delete_account_def Let_def, auto simp: commit_defs)

lemma demo_block:
  "serve demo_env demo_settings (BlockAccount (demo_token 2) 1 ''spam'') demo_world = (r, w') \<Longrightarrow>
    r_body r = NoContent \<and> w_draws w' < 6000"
  apply (simp add: serve_defs block_account_route_def current_user_def current_administrator_def
      bnd_Inr [OF demo_current(2)] bnd_assoc)
  apply (simp only: chain_defs method_defs block_def)
  apply (simp add: op_simps schema_defs Let_def)
  apply (auto simp: commit_defs op_simps row_defs USER_BLOCKED_def)
  done

lemma demo_review:
  "serve demo_env demo_settings (PutUnderReview (Some ''internal'') 1) demo_world = (r, w') \<Longrightarrow>
    r_body r = NoContent \<and> w_draws w' < 6000"
  by (simp add: serve_defs put_under_review_route_def)
     (simp add: op_simps method_defs put_under_review_def Let_def, auto simp: commit_defs change_status_def)

text \<open>The first account with a recovery link.\<close>

definition demo_link :: password_reset_token_model where
  "demo_link = \<lparr> prm_id = 7, prm_user_id = 1, prm_token_hash = ''link'', prm_expires_at = minutes 10,
     prm_used_at = None, prm_created_at = 0 \<rparr>"

definition demo_link_world :: "keyspace world" where
  "demo_link_world = demo_world\<lparr>w_db := demo_db\<lparr>password_reset_tokens := [demo_link]\<rparr>\<rparr>"

lemma demo_reset:
  "serve demo_env demo_settings (ResetPassword ''link'' ''Other9876'' ''Other9876'') demo_link_world =
      (r, w') \<Longrightarrow>
    r_body r = StatusHandle ''reset'' ''@ana1'' \<and> w_draws w' < 6000"
  apply (simp add: serve_defs reset_password_route_def demo_link_world_def demo_link_def)
  apply (simp only: chain_defs method_defs reset_password_def)
  apply (simp add: op_simps schema_defs row_by_id_def prt_of_row_def prt_is_usable_def)
  apply (auto simp: commit_defs op_simps row_defs)
  done

lemma demo_link_found:
  "List.find (\<lambda>l. prm_token_hash l = hash_token demo_env ''link'')
     (password_reset_tokens (w_db demo_link_world)) = Some demo_link"
  by (simp add: demo_link_world_def demo_link_def hash_token_def)

lemma demo_link_world_draws: "w_draws demo_link_world = 5000"
  by (simp add: demo_link_world_def)

text \<open>The first account with a refresh token it used, and the one it got for it.\<close>

definition demo_refresh :: "string \<Rightarrow> uuid \<Rightarrow> time option \<Rightarrow> refresh_token_model" where
  "demo_refresh h i used = \<lparr> rtm_id = i, rtm_user_id = 1, rtm_family_id = 8, rtm_token_hash = h,
     rtm_expires_at = days 7, rtm_used_at = used, rtm_revoked_at = None, rtm_created_at = 0 \<rparr>"

definition demo_used_world :: "keyspace world" where
  "demo_used_world = demo_world\<lparr>w_db := demo_db\<lparr>refresh_tokens :=
     [demo_refresh ''first'' 7 (Some 3), demo_refresh ''second'' 9 None]\<rparr>\<rparr>"

lemma demo_used_found:
  "wf_refresh (w_db demo_used_world)"
  "refresh_view (w_db demo_used_world) (hash_token demo_env ''first'') =
     Some (rt_of_row (demo_refresh ''first'' 7 (Some 3)))"
  "w_draws demo_used_world = 5000"
  by (simp_all add: wf_refresh_def demo_used_world_def demo_refresh_def refresh_view_def hash_token_def)

lemma demo_reuse:
  "serve demo_env demo_settings (Refresh ''first'') demo_used_world = (r, w') \<Longrightarrow>
    r_body r \<noteq> StatusOnly ''Internal Server Error'' \<and> w_draws w' < 6000"
  apply (simp add: serve_defs refresh_route_def demo_used_world_def demo_refresh_def required_text_def
      validated_def)
  apply (simp only: refresh_or_answer_def refresh_def chain_defs method_defs refuse_refresh_token_def)
  apply (simp add: op_simps rtm_consumable_def)
  apply (auto simp: commit_defs)
  done

text \<open>The same account with a refresh token that was used and then revoked.\<close>

definition demo_revoked_world :: "keyspace world" where
  "demo_revoked_world = demo_world\<lparr>w_db := demo_db\<lparr>refresh_tokens :=
     [(demo_refresh ''old'' 7 (Some 3))\<lparr>rtm_revoked_at := Some 4\<rparr>]\<rparr>\<rparr>"

lemma demo_revoked_found:
  "wf_refresh (w_db demo_revoked_world)"
  "refresh_view (w_db demo_revoked_world) (hash_token demo_env ''old'') =
     Some (rt_of_row ((demo_refresh ''old'' 7 (Some 3))\<lparr>rtm_revoked_at := Some 4\<rparr>))"
  "w_draws demo_revoked_world = 5000"
  by (simp_all add: wf_refresh_def demo_revoked_world_def demo_refresh_def refresh_view_def hash_token_def)

lemma demo_revoked_reuse:
  "serve demo_env demo_settings (Refresh ''old'') demo_revoked_world = (r, w') \<Longrightarrow>
    r_body r \<noteq> StatusOnly ''Internal Server Error'' \<and> w_draws w' < 6000"
  apply (simp add: serve_defs refresh_route_def demo_revoked_world_def demo_refresh_def required_text_def
      validated_def)
  apply (simp only: refresh_or_answer_def refresh_def chain_defs method_defs refuse_refresh_token_def)
  apply (simp add: op_simps rtm_consumable_def)
  apply (auto simp: commit_defs)
  done

end
