(* ===== verification/Database_Invariants.thy ===== *)
theory Database_Invariants
  imports Authentication
begin

text \<open>
  What every request keeps in the database. A predicate on the database that the elementary writes of
  the repositories keep is kept by every service method, every route and every sequence of requests:
  the locale \<open>database_invariant\<close> states the writes and proves the rest once. For a saved account the
  write is a lawful change of the stored one, and the locale's proofs show that the services save
  nothing else. \<open>lasting_invariant\<close> adds the publisher's deletes, and so every sequence of steps.
\<close>

section \<open>Lawful changes of an account\<close>

text \<open>
  The names, the identity, the role and the acceptance of the terms never change; a verified address
  stays verified, a closed account closed, and a suspended account suspended.
\<close>

definition lawful :: "user \<Rightarrow> user \<Rightarrow> bool" where
  "lawful old new \<longleftrightarrow>
     u_id new = u_id old \<and> u_email new = u_email old \<and> u_handle new = u_handle old \<and>
     u_created_at new = u_created_at old \<and> u_role new = u_role old \<and>
     u_terms_accepted new = u_terms_accepted old \<and> u_terms_accepted_at new = u_terms_accepted_at old \<and>
     (u_is_email_verified old \<longrightarrow> u_is_email_verified new) \<and>
     (u_deleted_at old \<noteq> None \<longrightarrow> u_deleted_at new = u_deleted_at old) \<and>
     (u_status old = SUSPENDED \<longrightarrow> u_status new = SUSPENDED \<and> u_status_reason new = u_status_reason old)"

lemma lawful_refl [simp]: "lawful u u"
  by (simp add: lawful_def)

lemma lawful_trans: "lawful a b \<Longrightarrow> lawful b c \<Longrightarrow> lawful a c"
  by (simp add: lawful_def)

lemma lawful_merged: "lawful old new \<Longrightarrow> merged new old = new"
  by (rule merged_self) (simp_all add: lawful_def)

definition saved :: "user \<Rightarrow> db \<Rightarrow> db" where
  "saved u d = d\<lparr>users := map (\<lambda>r. if um_id r = u_id u then write_row u r else r) (users d)\<rparr>"

lemma accounts_saved:
  assumes "wf_users (users d)" and "accounts d (u_id u) = Some old" and "lawful old u"
  shows "accounts (saved u d) = (accounts d)(u_id u \<mapsto> u)"
  using accounts_save [OF assms(1), of u] assms(2) lawful_merged [OF assms(3)]
  by (auto simp: saved_def fun_eq_iff)

lemma wf_saved: "wf_users (users d) \<Longrightarrow> wf_users (users (saved u d))"
  by (simp add: saved_def wf_users_save)

definition added :: "account \<Rightarrow> uuid \<Rightarrow> time \<Rightarrow> db \<Rightarrow> db" where
  "added a i t d = d\<lparr>users := users d @ [UserModel a i t]\<rparr>"

lemma users_add_run:
  "users_add E a w =
     (let i = e_uuid4 E (w_draws w); t = w_tx_now w; row = UserModel a i t; us = users (w_db w);
          w' = w\<lparr>w_draws := Suc (w_draws w)\<rparr> in
      if \<not> users_widths row then (Inl DataError, w')
      else if i \<in> set (map um_id us) \<or> um_email row \<in> set (map um_email us) \<or>
              um_handle row \<in> set (map um_handle us) then (Inl IntegrityError, w')
      else (Inr (account.extend a \<lparr> u_id = i, u_created_at = t \<rparr>), w'\<lparr>w_db := added a i t (w_db w)\<rparr>))"
  by (simp add: users_add_def bnd_apply Let_def added_def)

lemma accounts_added:
  assumes "i \<notin> set (map um_id (users d))"
  shows "accounts (added a i t d) =
    (accounts d)(i \<mapsto> account.extend a \<lparr> u_id = i, u_created_at = t \<rparr>)"
proof
  fix j
  have "row_by_id i d = None"
    using assms by (auto simp: row_by_id_def find_None_iff)
  moreover have "um_id (UserModel a i t) = i" by (simp add: UserModel_def)
  ultimately show "accounts (added a i t d) j =
      ((accounts d)(i \<mapsto> account.extend a \<lparr> u_id = i, u_created_at = t \<rparr>)) j"
    by (cases "row_by_id j d"; cases "j = i")
       (simp_all add: accounts_def added_def row_by_id_def find_append)
qed

lemma wf_added:
  assumes "wf_users (users d)" and "i \<notin> set (map um_id (users d))"
  shows "wf_users (users (added a i t d))"
proof -
  have "ck_users (UserModel a i t)" by (rule to_domain_ck [OF to_domain_model])
  moreover have "um_id (UserModel a i t) = i" by (simp add: UserModel_def)
  ultimately show ?thesis using assms by (auto simp: wf_users_def added_def)
qed

lemma accounts_other_tables [simp]:
  "accounts (d\<lparr>email_verification_tokens := a1\<rparr>) = accounts d"
  "accounts (d\<lparr>password_reset_tokens := a2\<rparr>) = accounts d"
  "accounts (d\<lparr>refresh_tokens := a3\<rparr>) = accounts d"
  "accounts (d\<lparr>outbox := a4\<rparr>) = accounts d"
  "accounts (d\<lparr>feedback_messages := a5\<rparr>) = accounts d"
  "accounts (d\<lparr>admin_audit_log := a6\<rparr>) = accounts d"
  by (simp_all add: accounts_def row_by_id_def fun_eq_iff)

section \<open>What a request leaves in the database\<close>

lemma error_response_db: "error_response E path e w = (x, w') \<Longrightarrow> w_db w' = w_db w"
  by (auto simp: error_response_def problem_response_def answer_def bnd_apply split: option.splits if_splits)

lemma serve_cases:
  assumes "serve E S req w = (r, w')"
  obtains (committed) "route E S req (begun E w) = (Inr r, w')" "constraints (w_db w')"
  | (failed) e w1 where "error_response E (request_path req) e w1 = (Inr r, w')" "w_db w' = w_db w"
      "w_db w1 = w_db w"
proof -
  obtain x w1 where run: "session_scope E (route E S req) w = (x, w1)" by fastforce
  show thesis
  proof (cases x)
    case (Inl e)
    then have db: "w_db w1 = w_db w"
      using run by (auto simp: session_scope_def Let_def split: prod.splits sum.splits if_splits)
    obtain r1 w2 where er: "error_response E (request_path req) e w1 = (Inr r1, w2)"
      using error_response_Inr by blast
    then have "(r1, w2) = (r, w')" using assms run Inl by (simp add: serve_def)
    with er error_response_db [OF er] db show thesis by (auto intro: failed)
  next
    case (Inr v)
    with assms run show thesis
      by (auto simp: serve_def session_scope_def Let_def intro: committed
          split: prod.splits sum.splits if_splits)
  qed
qed

lemma published_constraints: "constraints d \<Longrightarrow> constraints (without_outbox gone d)"
  by (simp add: constraints_def tokens_constraints_def distinct_map_filter)

section \<open>The elementary writes\<close>

locale database_frame =
  fixes I :: "db \<Rightarrow> bool"
  assumes evt_add_keeps: "I d \<Longrightarrow>
        I (d\<lparr>email_verification_tokens := email_verification_tokens d @ [ev]\<rparr>)"
    and evt_use_keeps: "I d \<Longrightarrow> I (d\<lparr>email_verification_tokens :=
        map (\<lambda>r. if Some (evm_id r) = ti then r\<lparr>evm_used_at := Some now\<rparr> else r)
          (email_verification_tokens d)\<rparr>)"
    and prt_add_keeps: "I d \<Longrightarrow> prm_used_at pr = None \<Longrightarrow>
        I (d\<lparr>password_reset_tokens := password_reset_tokens d @ [pr]\<rparr>)"
    and prt_use_keeps: "I d \<Longrightarrow> I (d\<lparr>password_reset_tokens :=
        map (\<lambda>r. if prm_user_id r = i \<and> prm_used_at r = None then r\<lparr>prm_used_at := Some now\<rparr> else r)
          (password_reset_tokens d)\<rparr>)"
    and rt_add_keeps: "I d \<Longrightarrow> I (d\<lparr>refresh_tokens := refresh_tokens d @ [rt]\<rparr>)"
    and rt_consume_keeps: "I d \<Longrightarrow> I (d\<lparr>refresh_tokens :=
        map (\<lambda>r. if rtm_consumable h now r then r\<lparr>rtm_used_at := Some now\<rparr> else r) (refresh_tokens d)\<rparr>)"
    and rt_family_keeps: "I d \<Longrightarrow> I (d\<lparr>refresh_tokens :=
        map (\<lambda>r. if rtm_family_id r = f \<and> rtm_revoked_at r = None
                 then r\<lparr>rtm_revoked_at := Some now\<rparr> else r) (refresh_tokens d)\<rparr>)"
    and rt_all_keeps: "I d \<Longrightarrow> I (d\<lparr>refresh_tokens :=
        map (\<lambda>r. if rtm_user_id r = i \<and> rtm_revoked_at r = None
                 then r\<lparr>rtm_revoked_at := Some now\<rparr> else r) (refresh_tokens d)\<rparr>)"
    and outbox_keeps: "I d \<Longrightarrow> I (d\<lparr>outbox := outbox d @ [om]\<rparr>)"
    and feedback_keeps: "I d \<Longrightarrow> I (d\<lparr>feedback_messages := feedback_messages d @ [fb]\<rparr>)"
    and audit_keeps: "I d \<Longrightarrow> I (d\<lparr>admin_audit_log := admin_audit_log d @ [ae]\<rparr>)"
begin

text \<open>
  While a method runs: the invariant, well-formed accounts, and the accounts \<open>X\<close> it has read are
  still stored as it read them.
\<close>

definition holding :: "user set \<Rightarrow> 'r world \<Rightarrow> bool" where
  "holding X w \<longleftrightarrow> I (w_db w) \<and> wf_users (users (w_db w)) \<and>
     (\<forall>u \<in> X. accounts (w_db w) (u_id u) = Some u)"

abbreviation stays :: "user set \<Rightarrow> ('r, 'a) op \<Rightarrow> bool" where
  "stays X m \<equiv> preserves (holding X) m"

definition keeps :: "user set \<Rightarrow> ('r, 'a) op \<Rightarrow> bool" where
  "keeps X m \<longleftrightarrow> (\<forall>w. holding X w \<longrightarrow> holding {} (after (m w)))"

lemma holding_less: "holding X w \<Longrightarrow> holding {} w"
  by (simp add: holding_def)

lemma holding_same_db: "holding X w \<Longrightarrow> w_db w' = w_db w \<Longrightarrow> holding X w'"
  by (simp add: holding_def)

section \<open>Steps that touch no account\<close>

lemma st_draws:
  "stays X (draw f)" "stays X (now_utc E)" "stays X (uuid4 E)" "stays X (token_urlsafe E n)"
  by (auto simp: preserves_def elim: holding_same_db)

lemma st_redis: "stays X (redis_cmd E c)"
  by (auto simp: preserves_def redis_cmd_def split: prod.split elim: holding_same_db)

lemmas st_basic = st_draws st_redis preserves_intro

lemma st_modify:
  assumes "\<And>d. I d \<Longrightarrow> I (f d)" and "\<And>d. users (f d) = users d" and "\<And>d. accounts (f d) = accounts d"
  shows "stays X (modify_db f)"
  using assms by (simp add: preserves_def holding_def)

lemma st_writes:
  "stays X (verification_tokens_add E vt)"
  "stays X (verification_tokens_mark_used ti now)"
  "stays X (reset_tokens_add E pt)"
  "stays X (reset_tokens_mark_all_used i now)"
  "stays X (refresh_tokens_add E rt)"
  "stays X (refresh_tokens_consume h now)"
  "stays X (refresh_tokens_revoke_family f now)"
  "stays X (refresh_tokens_revoke_all i now)"
  "stays X (outbox_add ev)"
  "stays X (feedback_add fb)"
  "stays X (audit_add ae)"
  unfolding repository_defs
  by (rule st_modify st_basic | (simp add: evt_add_keeps evt_use_keeps prt_add_keeps prt_use_keeps
      rt_add_keeps rt_consume_keeps rt_family_keeps rt_all_keeps outbox_keeps feedback_keeps
      audit_keeps; fail) | assumption)+

lemma st_reads:
  "stays X (users_get i)"
  "stays X (users_find_by_identifier x)"
  "stays X (users_find_by_email x)"
  "stays X users_list_administrators"
  "stays X (users_count s)"
  "stays X (users_exists_with_email_or_handle x y)"
  "stays X (verification_tokens_find_by_hash h)"
  "stays X (reset_tokens_find_by_hash h)"
  "stays X (refresh_tokens_find_by_hash h)"
  "stays X (audit_list_page lim off)"
  unfolding repository_defs users_get_def users_find_by_identifier_def users_find_by_email_def
    users_list_administrators_def users_count_def users_exists_with_email_or_handle_def
  by (rule st_basic | assumption)+

lemma st_stores:
  "stays X (hit E k n)" "stays X (count_marks E k)" "stays X (reset_marks E k)"
  "stays X (revoke_token E j e now)" "stays X (revoke_sessions E i now ttl)"
  "stays X (is_token_revoked E j)" "stays X (revoked_before E i)"
  unfolding hit_def count_marks_def reset_marks_def revoke_token_def revoke_sessions_def
    is_token_revoked_def revoked_before_def Let_def
  by (rule st_basic | assumption)+

lemma st_security:
  "stays X (hash_password E p)"
  "stays X (generate_emailed_token E)" "stays X (generate_refresh_token E)"
  "stays X (generate_temporary_password E)"
  "stays X (issue_access_token E sub role h vis m iss now)"
  "stays X (decode_access_token E tok iss)"
  "stays X (build_event E ty data at)"
  unfolding hash_password_def generate_emailed_token_def generate_refresh_token_def
    generate_temporary_password_def issue_access_token_def decode_access_token_def build_event_def
  by (rule st_basic | assumption)+

lemma st_events:
  "stays X (user_registered E a url now)" "stays X (email_verification_requested E a url now)"
  "stays X (password_reset_requested E a tok now)" "stays X (password_changed E a now)"
  "stays X (user_deleted E a now)" "stays X (preferences_changed E a now)"
  "stays X (feedback_submitted E f)"
  unfolding event_constructors by (rule st_security)+

lemmas st_layer = st_writes st_reads st_stores st_security st_events st_basic

lemma st_guards:
  "stays X (deny_blocked_account a t)"
  "stays X (deny_expired_temporary_password E a t)"
  "stays X (guard_lockout E x p)"
  "stays X (register_failure E x p)"
  "stays X (guard_current_password E x p)"
  "stays X (verify_current_password E S a pw t)"
  "stays X (reset_current_password E S a)"
  "stays X (guard_reset_limit E S x)"
  "stays X (guard_limit E a)"
  "stays X (require_superadmin a)"
  "stays X (require_administrator a)"
  "stays X (require_internal_token S tok)"
  "stays X (deny_email_outside_the_authorized_domain S x)"
  "stays X (validated v)"
  "stays X (answer n b)"
  unfolding deny_blocked_account_def deny_expired_temporary_password_def guard_lockout_def
    register_failure_def guard_current_password_def verify_current_password_def
    reset_current_password_def guard_reset_limit_def guard_limit_def require_superadmin_def
    require_administrator_def require_internal_token_def
    deny_email_outside_the_authorized_domain_def validated_def answer_def Let_def
  by (rule st_layer | assumption)+

lemma st_parts:
  "stays X (issue_verification_token E S a now)"
  "stays X (issue_session E S a)"
  "stays X (issue_refresh_token E S a f now)"
  "stays X (revoke_refresh_family E raw owner)"
  "stays X (refuse_refresh_token E S h now)"
  "stays X (audit_administrator i)"
  "stays X (audit_record E i ac t j det)"
  unfolding issue_verification_token_def issue_session_def issue_refresh_token_def
    revoke_refresh_family_def refuse_refresh_token_def audit_administrator_def audit_record_def
  by (rule st_guards st_layer | assumption)+

lemma st_methods:
  "stays X (resend_verification E S em)"
  "stays X (login E S x p)"
  "stays X (admin_login E S em p)"
  "stays X (refresh E S raw)"
  "stays X (logout E S tok rt)"
  "stays X (get_current_user E S path tok)"
  "stays X (forgot_password E S x)"
  "stays X list_administrators"
  "stays X (account_detail i)"
  "stays X account_metrics"
  "stays X (public_profile i)"
  "stays X (submit E a m dev v)"
  "stays X (problem_response E path prob)"
  "stays X (error_response E path e)"
  unfolding resend_verification_def login_def admin_login_def refresh_def logout_def
    get_current_user_def forgot_password_def list_administrators_def account_detail_def
    account_metrics_def public_profile_def submit_def problem_response_def error_response_def Let_def
  by (rule st_parts st_guards st_layer preserves_jwt_error | assumption)+

lemmas st_rules = st_methods st_parts st_guards st_layer

end

section \<open>Methods that read an account and save it\<close>

locale database_invariant = database_frame +
  assumes save_keeps: "I d \<Longrightarrow> wf_users (users d) \<Longrightarrow> accounts d (u_id u) = Some old \<Longrightarrow>
        lawful old u \<Longrightarrow> I (saved u d)"
    and add_keeps: "I d \<Longrightarrow> wf_users (users d) \<Longrightarrow> i \<notin> set (map um_id (users d)) \<Longrightarrow> I (added a i t d)"
begin

lemma kp_last: "stays X m \<Longrightarrow> keeps X m"
  unfolding keeps_def preserves_def using holding_less by blast

lemma kp_step:
  fixes m :: "('r, 'x) op"
  assumes "stays X m" and "\<And>x. keeps X (f x)"
  shows "keeps X (bnd m f)"
  unfolding keeps_def
proof (intro allI impI)
  fix w :: "'r world" assume w: "holding X w"
  obtain y w' where m: "m w = (y, w')" by fastforce
  have w': "holding X w'" using preservesD [OF assms(1) w] m by simp
  show "holding {} (after (bnd m f w))"
  proof (cases y)
    case (Inl e)
    with m holding_less [OF w'] show ?thesis by (simp add: bnd_def)
  next
    case (Inr x)
    with m w' assms(2) [of x] show ?thesis by (simp add: bnd_def keeps_def)
  qed
qed

lemma kp_get:
  fixes f :: "user option \<Rightarrow> ('r, 'x) op"
  assumes "keeps X (f None)" and "\<And>u. u_id u = i \<Longrightarrow> keeps (insert u X) (f (Some u))"
  shows "keeps X (bnd (users_get i) f)"
  unfolding keeps_def
proof (intro allI impI)
  fix w :: "'r world" assume w: "holding X w"
  then have run: "bnd (users_get i) f w = f (accounts (w_db w) i) w"
    by (simp add: bnd_Inr [OF users_get_run] holding_def)
  show "holding {} (after (bnd (users_get i) f w))"
  proof (cases "accounts (w_db w) i")
    case None
    with run w assms(1) show ?thesis by (simp add: keeps_def)
  next
    case (Some u)
    then have u: "u_id u = i" by (rule accounts_id)
    with w Some have "holding (insert u X) w" by (simp add: holding_def)
    with run Some assms(2) [OF u] show ?thesis by (simp add: keeps_def)
  qed
qed

lemma kp_save:
  fixes f :: "unit \<Rightarrow> ('r, 'x) op"
  assumes "u \<in> X" and "lawful u v" and "\<And>x. keeps {} (f x)"
  shows "keeps X (bnd (users_save v) f)"
  unfolding keeps_def
proof (intro allI impI)
  fix w :: "'r world" assume w: "holding X w"
  let ?w = "w\<lparr>w_db := saved v (w_db w)\<rparr>"
  have "u_id v = u_id u" using assms(2) by (simp add: lawful_def)
  then have "accounts (w_db w) (u_id v) = Some u" using w assms(1) by (simp add: holding_def)
  then have "holding {} ?w"
    using w assms(2) by (simp add: holding_def wf_saved save_keeps)
  then show "holding {} (after (bnd (users_save v) f w))"
    using assms(3) by (simp add: bnd_Inr [OF users_save_apply] saved_def keeps_def)
qed

lemma kp_save_last: "u \<in> X \<Longrightarrow> lawful u v \<Longrightarrow> keeps X (users_save v)"
  using kp_save [of u X v ret] by (simp add: bnd_ret_right kp_last preserves_ret)

lemma kp_add:
  fixes f :: "user \<Rightarrow> ('r, 'x) op"
  assumes "\<And>x. keeps {} (f x)"
  shows "keeps X (bnd (users_add E a) f)"
  unfolding keeps_def
proof (intro allI impI)
  fix w :: "'r world" assume w: "holding X w"
  let ?i = "e_uuid4 E (w_draws w)" and ?t = "w_tx_now w"
  let ?w = "w\<lparr>w_draws := Suc (w_draws w)\<rparr>"
  let ?w' = "?w\<lparr>w_db := added a ?i ?t (w_db w)\<rparr>"
  consider e where "users_add E a w = (Inl e, ?w)"
    | u where "users_add E a w = (Inr u, ?w')" "?i \<notin> set (map um_id (users (w_db w)))"
    using users_add_run [of E a w] by (auto simp: Let_def split: if_splits)
  then show "holding {} (after (bnd (users_add E a) f w))"
  proof cases
    case 1
    then show ?thesis using w by (simp add: bnd_Inl holding_def)
  next
    case 2
    then have "holding {} ?w'"
      using w wf_added [of "w_db w" ?i] add_keeps [of "w_db w" ?i] by (simp add: holding_def)
    then show ?thesis using 2 assms by (simp add: bnd_Inr keeps_def)
  qed
qed

lemma kp_current_user:
  fixes f :: "user \<Rightarrow> ('r, 'x) op"
  assumes "\<And>u. can_log_in u \<Longrightarrow> keeps (insert u X) (f u)"
  shows "keeps X (bnd (get_current_user E S path tok) f)"
  unfolding keeps_def
proof (intro allI impI)
  fix w :: "'r world" assume w: "holding X w"
  obtain y w' where g: "get_current_user E S path tok w = (y, w')" by fastforce
  have w': "holding X w'" using preservesD [OF st_methods(6) w] g by (metis after_pair)
  show "holding {} (after (bnd (get_current_user E S path tok) f w))"
  proof (cases y)
    case (Inl e)
    with g holding_less [OF w'] show ?thesis by (simp add: bnd_def)
  next
    case (Inr u)
    note a = current_user_Inr [OF g [unfolded Inr]]
    have "holding (insert u X) w'" using w' a authentic_stored [OF a(1)] by (simp add: holding_def)
    moreover have "can_log_in u" using a(1) by (simp add: authentic_def)
    ultimately show ?thesis using g Inr assms by (simp add: bnd_Inr keeps_def)
  qed
qed

lemma kp_raise: "keeps X (raise e)"
  by (rule kp_last) (rule preserves_raise)

lemma kp_branches:
  "(b \<Longrightarrow> keeps X m) \<Longrightarrow> (\<not> b \<Longrightarrow> keeps X m') \<Longrightarrow> keeps X (if b then m else m')"
  "(o1 = None \<Longrightarrow> keeps X m) \<Longrightarrow> (\<And>y. o1 = Some y \<Longrightarrow> keeps X (g y)) \<Longrightarrow>
     keeps X (case o1 of None \<Rightarrow> m | Some y \<Rightarrow> g y)"
  "(\<And>y z. keeps X (h y z)) \<Longrightarrow> keeps X (case pr of (y, z) \<Rightarrow> h y z)"
  by (auto split: option.split prod.split)

lemma kp_not_none: "(\<And>u. x = Some u \<Longrightarrow> keeps X (f u)) \<Longrightarrow> keeps X (bnd (not_none x) f)"
  by (cases x) (simp_all add: kp_raise)

lemma kp_option_ret: "(\<And>u. x = Some u \<Longrightarrow> keeps X (f u)) \<Longrightarrow>
    keeps X (bnd (case x of None \<Rightarrow> raise e | Some r \<Rightarrow> ret r) f)"
  by (cases x) (simp_all add: kp_raise)

text \<open>In the order they are to be tried; a method read as a sequence is taken apart by its own step.\<close>

lemmas kp_rules =
  kp_raise kp_get kp_save kp_save_last kp_add kp_current_user kp_not_none kp_branches kp_step

lemma kp_methods:
  "keeps {} (register E S em h p)"
  "keeps {} (verify_email E raw)"
  "keeps {} (reset_password E S raw q)"
  "keeps {} (block E S adm i rs)"
  "keeps {} (put_under_review E S i)"
  "keeps {} (lift_review E i)"
  "keeps {} (reset_temporary_password E i j)"
  "keeps {} (create_administrator E S i em h ro)"
  "can_log_in a \<Longrightarrow> keeps {a} (change_password E S a p q)"
  "can_log_in a \<Longrightarrow> keeps {a} (delete_account E S a p)"
  "can_log_in a \<Longrightarrow> keeps {a} (update_profile a pc)"
  "can_log_in a \<Longrightarrow> keeps {a} (update_preferences E a prc)"
  unfolding register_def verify_email_def reset_password_def block_def put_under_review_def
    lift_review_def reset_temporary_password_def create_administrator_def change_password_def
    delete_account_def update_profile_def update_preferences_def Let_def
  by (rule insertI1 kp_rules st_rules | assumption
      | (simp add: lawful_def can_log_in_def change_status_def split: option.split; fail) | rule kp_last)+

text \<open>A method that starts from nothing may be called while accounts are held.\<close>

lemma kp_weaken: "keeps {} m \<Longrightarrow> keeps X m"
  unfolding keeps_def using holding_less by blast

lemma kp_held: "a \<in> X \<Longrightarrow> keeps {a} m \<Longrightarrow> keeps X m"
  by (auto simp: keeps_def holding_def)

lemma kp_call:
  fixes m :: "('r, 'x) op"
  assumes "keeps X m" and "\<And>x. keeps {} (f x)"
  shows "keeps X (bnd m f)"
  unfolding keeps_def
proof (intro allI impI)
  fix w :: "'r world" assume w: "holding X w"
  obtain y w' where m: "m w = (y, w')" by fastforce
  have w': "holding {} w'" using assms(1) w m unfolding keeps_def by (metis after_pair)
  show "holding {} (after (bnd m f w))"
    using m w' assms(2) by (cases y) (simp_all add: bnd_def keeps_def)
qed

lemma kp_calls:
  "(\<And>x. keeps {} (f1 x)) \<Longrightarrow> keeps X (bnd (register E S em h p) f1)"
  "(\<And>x. keeps {} (f1 x)) \<Longrightarrow> keeps X (bnd (verify_email E raw) f1)"
  "(\<And>x. keeps {} (f1 x)) \<Longrightarrow> keeps X (bnd (reset_password E S raw q) f1)"
  "(\<And>x. keeps {} (f2 x)) \<Longrightarrow> keeps X (bnd (block E S adm i rs) f2)"
  "(\<And>x. keeps {} (f2 x)) \<Longrightarrow> keeps X (bnd (put_under_review E S i) f2)"
  "(\<And>x. keeps {} (f2 x)) \<Longrightarrow> keeps X (bnd (lift_review E i) f2)"
  "(\<And>x. keeps {} (f3 x)) \<Longrightarrow> keeps X (bnd (reset_temporary_password E i j) f3)"
  "(\<And>x. keeps {} (f3 x)) \<Longrightarrow> keeps X (bnd (create_administrator E S i em h ro) f3)"
  "can_log_in a \<Longrightarrow> (\<And>x. keeps {} (f2 x)) \<Longrightarrow> keeps (insert a X) (bnd (change_password E S a p q) f2)"
  "can_log_in a \<Longrightarrow> (\<And>x. keeps {} (f2 x)) \<Longrightarrow> keeps (insert a X) (bnd (delete_account E S a p) f2)"
  "can_log_in a \<Longrightarrow> (\<And>x. keeps {} (f1 x)) \<Longrightarrow> keeps (insert a X) (bnd (update_profile a pc) f1)"
  "can_log_in a \<Longrightarrow> (\<And>x. keeps {} (f1 x)) \<Longrightarrow> keeps (insert a X) (bnd (update_preferences E a prc) f1)"
  by ((rule kp_call, rule kp_weaken kp_held [OF insertI1], rule kp_methods; assumption))+

section \<open>Requests\<close>

lemma st_refresh_or_answer:
  fixes E :: "'r env"
  shows "stays X (refresh_or_answer E S path raw)"
  unfolding preserves_def
proof (intro allI impI)
  fix w :: "'r world" assume w: "holding X w"
  obtain x w' where r: "refresh E S raw w = (x, w')" by fastforce
  have w': "holding X w'" using preservesD [OF st_methods(4) w, of E S raw] r by simp
  show "holding X (after (refresh_or_answer E S path raw w))"
    using r w' preservesD [OF st_methods(13) w']
    by (auto simp: refresh_or_answer_def answer_def split: sum.split exn.split)
qed

lemma st_search: "stays X (search E q viewer cursor)" "stays X (search_accounts q cursor)"
  by (intro preserves_search st_draws preserves_intro)+

lemmas kp_route_rules =
  st_search kp_calls kp_current_user kp_branches kp_step kp_raise st_refresh_or_answer st_rules

lemma kp_route: "keeps {} (route E S req)"
  by (cases req; simp only: route.simps route_defs bnd_assoc,
      (rule kp_route_rules | assumption | rule kp_last)+)

lemma scope_keeps:
  fixes E :: "'r env"
  assumes "session_scope E m w = (x, w')" and "keeps {} m" and "I (w_db w)" and "constraints (w_db w)"
  shows "I (w_db w') \<and> constraints (w_db w')"
proof -
  have "holding {} (begun E w)"
    using assms(3,4) by (simp add: holding_def wf_users_constraints)
  then have "holding {} (after (m (begun E w)))" using assms(2) unfolding keeps_def by blast
  with assms show ?thesis
    by (auto simp: session_scope_def Let_def holding_def split: prod.splits sum.splits if_splits)
qed

lemma serve_keeps:
  fixes E :: "'r env"
  assumes "serve E S req w = (r, w')" and "I (w_db w)" and "constraints (w_db w)"
  shows "I (w_db w') \<and> constraints (w_db w')"
proof -
  obtain x w1 where run: "session_scope E (route E S req) w = (x, w1)" by fastforce
  note scope_keeps [OF run kp_route assms(2,3)]
  moreover have "w_db w' = w_db w1"
    using assms(1) run by (auto simp: serve_def split: sum.splits prod.splits dest!: error_response_db)
  ultimately show ?thesis by simp
qed

lemma kp_background: "keeps {} (audit_add ae)" "keeps {} (ensure_superadmin E em h p)"
  unfolding ensure_superadmin_def Let_def
  by (rule kp_rules st_rules | assumption | rule kp_last)+

lemma background_keeps:
  fixes E :: "'r env"
  assumes "I (w_db w)" and "constraints (w_db w)"
  shows "I (w_db (snd (settle E message w))) \<and> constraints (w_db (snd (settle E message w)))"
    and "I (w_db (snd (seed_main E S w))) \<and> constraints (w_db (snd (seed_main E S w)))"
  using assms scope_keeps [OF _ kp_background(1) assms] scope_keeps [OF _ kp_background(2) assms]
  unfolding snd_settle snd_seed_main handle_event_def seed_run_def
  by (auto simp: bnd_def split: option.split sum.split prod.split)

end

text \<open>One that also holds when the publisher has deleted rows of the outbox holds from then on.\<close>

locale lasting_invariant = database_invariant +
  assumes published_keeps: "I d \<Longrightarrow> I (without_outbox gone d)"
begin

lemma later_keeps:
  assumes "later E S w w'" and "I (w_db w)" and "constraints (w_db w)"
  shows "I (w_db w') \<and> constraints (w_db w')"
  using assms
proof (induction rule: later.induct)
  case (request w1 req)
  then show ?case
    using serve_keeps [of E S req w1 "fst (serve E S req w1)" "snd (serve E S req w1)"] by simp
next
  case (publisher w1 gone)
  then show ?case by (simp add: published_keeps published_constraints)
qed (simp_all add: background_keeps)

end

section \<open>Instances\<close>

text \<open>A refresh token that was used or revoked stays so.\<close>

definition dead_refresh :: "string \<Rightarrow> db \<Rightarrow> bool" where
  "dead_refresh h d \<longleftrightarrow>
     (\<exists>t. refresh_view d h = Some t \<and> (rt_used_at t \<noteq> None \<or> rt_revoked_at t \<noteq> None))"

lemma refresh_view_append:
  "refresh_view d h = Some t \<Longrightarrow> refresh_view (d\<lparr>refresh_tokens := refresh_tokens d @ [r]\<rparr>) h = Some t"
  by (auto simp: refresh_view_def find_append)

lemma dead_refresh_map:
  assumes "dead_refresh h d" and "\<And>r. rtm_token_hash (g r) = rtm_token_hash r"
    and "\<And>r. rtm_used_at r \<noteq> None \<Longrightarrow> rtm_used_at (g r) \<noteq> None"
    and "\<And>r. rtm_revoked_at r \<noteq> None \<Longrightarrow> rtm_revoked_at (g r) \<noteq> None"
  shows "dead_refresh h (d\<lparr>refresh_tokens := map g (refresh_tokens d)\<rparr>)"
  using assms find_map_same [of rtm_token_hash g h "refresh_tokens d", OF assms(2)]
  by (auto simp: dead_refresh_def refresh_view_def)

interpretation dead: lasting_invariant "dead_refresh h" for h
  by unfold_locales
     (fastforce simp: saved_def added_def dead_refresh_def refresh_view_def find_append
        intro: dead_refresh_map)+

text \<open>A recovery link that was used stays so.\<close>

definition spent_link :: "string \<Rightarrow> db \<Rightarrow> bool" where
  "spent_link h d \<longleftrightarrow>
     (\<exists>r. List.find (\<lambda>r. prm_token_hash r = h) (password_reset_tokens d) = Some r \<and> prm_used_at r \<noteq> None)"

lemma spent_link_use:
  assumes "spent_link h d"
  shows "spent_link h (d\<lparr>password_reset_tokens :=
    map (\<lambda>r. if prm_user_id r = i \<and> prm_used_at r = None then r\<lparr>prm_used_at := Some now\<rparr> else r)
      (password_reset_tokens d)\<rparr>)"
proof -
  let ?g = "\<lambda>r. if prm_user_id r = i \<and> prm_used_at r = None then r\<lparr>prm_used_at := Some now\<rparr> else r"
  obtain r where r: "List.find (\<lambda>r. prm_token_hash r = h) (password_reset_tokens d) = Some r"
    and used: "prm_used_at r \<noteq> None" using assms by (auto simp: spent_link_def)
  have "prm_token_hash (?g r) = prm_token_hash r" for r by simp
  from find_map_same [of prm_token_hash ?g, OF this, of h "password_reset_tokens d"] r
  have "List.find (\<lambda>r. prm_token_hash r = h) (map ?g (password_reset_tokens d)) = Some (?g r)" by simp
  with used show ?thesis by (simp add: spent_link_def)
qed

interpretation spent: lasting_invariant "spent_link h" for h
  by unfold_locales
     (auto simp: saved_def added_def find_append intro: spent_link_use, auto simp: spent_link_def find_append)

text \<open>Every account of \<open>d0\<close> is still there, as lawful changes left it.\<close>

definition evolved :: "db \<Rightarrow> db \<Rightarrow> bool" where
  "evolved d0 d \<longleftrightarrow>
     (\<forall>i u. accounts d0 i = Some u \<longrightarrow> (\<exists>u'. accounts d i = Some u' \<and> lawful u u'))"

lemma evolved_saved:
  assumes "evolved d0 d" and "wf_users (users d)" and "accounts d (u_id u) = Some old" and "lawful old u"
  shows "evolved d0 (saved u d)"
  using assms accounts_saved [OF assms(2-4)] lawful_trans by (fastforce simp: evolved_def)

lemma accounts_ids: "accounts d i = Some u \<Longrightarrow> i \<in> set (map um_id (users d))"
  by (auto simp: accounts_def bind_eq_Some_conv dest: row_by_idD)

lemma evolved_added:
  assumes "evolved d0 d" and "i \<notin> set (map um_id (users d))"
  shows "evolved d0 (added a i t d)"
  using assms accounts_added [OF assms(2)] accounts_ids by (fastforce simp: evolved_def)

interpretation history: lasting_invariant "evolved d0" for d0
  by unfold_locales
     (auto intro: evolved_saved evolved_added, auto simp: evolved_def)

text \<open>The audit log only grows.\<close>

definition logged :: "audit_entry list \<Rightarrow> db \<Rightarrow> bool" where
  "logged entries d \<longleftrightarrow> prefix entries (admin_audit_log d)"

interpretation audit: lasting_invariant "logged entries" for entries
  by unfold_locales (auto simp: logged_def saved_def added_def prefix_append)

text \<open>Only the publisher takes rows out of the outbox.\<close>

definition outbox_grown :: "outbox_model list \<Rightarrow> db \<Rightarrow> bool" where
  "outbox_grown table d \<longleftrightarrow> prefix table (outbox d)"

interpretation outbox_rows: database_invariant "outbox_grown table" for table
  by unfold_locales (auto simp: outbox_grown_def saved_def added_def prefix_append)

end
