(* ===== verification/Token_Lifecycle.thy ===== *)
theory Token_Lifecycle
  imports Database_Invariants
begin

text \<open>
  The life of the stored tokens: a refresh token is consumed at most once, the operations that end
  the sessions of an account revoke its refresh tokens, and a recovery link works once. What happens
  afterwards rests on the invariants of \<open>Database_Invariants\<close>.
\<close>

section \<open>Refresh tokens\<close>

lemma refuse_outcome:
  assumes "refuse_refresh_token E S h now w = (x, w')"
  shows "x \<in> {Inl (ProblemError invalid_refresh_token), Inl (ReusedRefreshTokenError invalid_refresh_token),
    Inl RedisError}"
  using assms
  by (auto simp: refuse_apply refresh_tokens_revoke_all_def revoke_sessions_def bnd_apply bnd_redis
      split: option.splits if_splits prod.splits)

lemma dead_not_consumed:
  assumes "dead_refresh h (w_db w)" and "wf_refresh (w_db w)" and "refresh_tokens_consume h now w = (x, w')"
  shows "x = Inr None"
  using consume_refines [OF assms(2,3)] assms(1) by (auto simp: dead_refresh_def split: if_splits)

lemma dead_refresh_refused:
  assumes "dead_refresh (hash_token E raw) (w_db w)" and "wf_refresh (w_db w)"
    and "refresh E S raw w = (x, w')"
  shows "x \<in> {Inl (ProblemError invalid_refresh_token), Inl (ReusedRefreshTokenError invalid_refresh_token),
    Inl RedisError}"
proof -
  let ?w = "w\<lparr>w_draws := Suc (w_draws w)\<rparr>" and ?h = "hash_token E raw" and ?now = "instant E w"
  obtain y w1 where c: "refresh_tokens_consume ?h ?now ?w = (y, w1)" by fastforce
  have y: "y = Inr None" by (rule dead_not_consumed [OF _ _ c]) (simp_all add: assms)
  obtain z w2 where z: "(refuse_refresh_token E S ?h ?now :: ('a, refresh_token) op) w1 = (z, w2)" by fastforce
  note out = refuse_outcome [OF z]
  have "z = Inl e \<Longrightarrow> x = Inl e" for e
    using assms(3) c y z by (auto simp: refresh_def Let_def bnd_apply bnd_Inr bnd_Inl)
  with out show ?thesis by (auto split: sum.splits)
qed

text \<open>An access token opened by a refresh leaves the refresh token behind it dead.\<close>

lemma refresh_kills:
  assumes "refresh E S raw w = (Inr s, w')" and "constraints (w_db w)"
  shows "dead_refresh (hash_token E raw) (w_db w')"
proof -
  let ?w = "w\<lparr>w_draws := Suc (w_draws w)\<rparr>" and ?h = "hash_token E raw" and ?now = "instant E w"
  obtain y w1 where c: "refresh_tokens_consume ?h ?now ?w = (y, w1)" by fastforce
  have wf: "wf_refresh (w_db ?w)" using assms(2) by (simp add: wf_refresh_constraints)
  obtain t where t: "y = Inr (Some t)" and dead: "dead_refresh ?h (w_db w1)"
  proof -
    from consume_refines [OF wf c] consider t where "y = Inr (Some t)" "dead_refresh ?h (w_db w1)"
      | "y = Inr None"
      by (auto simp: dead_refresh_def split: option.splits if_splits)
    then show thesis
    proof cases
      case 1
      then show thesis by (rule that)
    next
      case 2
      then show thesis
        using assms(1) c by (auto simp: refresh_def Let_def bnd_apply bnd_Inr refuse_raises elim!: bnd_InrE)
    qed
  qed
  have users: "users (w_db w1) = users (w_db w)" using c by (auto simp: consume_db)
  have hold: "dead.holding ?h {} w1"
    using dead users assms(2) by (simp add: dead.holding_def wf_users_constraints)
  let ?rest = "bnd (users_get (rt_user_id t)) (\<lambda>found.
     case found of
       None \<Rightarrow> raise (ProblemError invalid_refresh_token)
     | Some user \<Rightarrow>
         bnd (deny_blocked_account user REFRESH_FAILED_TITLE) (\<lambda>_.
         bnd (deny_expired_temporary_password E user REFRESH_FAILED_TITLE) (\<lambda>_.
         bnd (issue_session E S user) (\<lambda>(access_token, expires_in).
         bnd (issue_refresh_token E S user (rt_family_id t) ?now) (\<lambda>refresh_token.
         ret \<lparr> is_access_token = access_token, is_refresh_token = refresh_token,
               is_expires_in = expires_in \<rparr>)))))"
  have run: "?rest w1 = (Inr s, w')"
    using assms(1) c t by (simp add: refresh_def Let_def bnd_apply bnd_Inr)
  have "dead.stays ?h {} ?rest"
    by (rule dead.st_rules | assumption)+
  from preservesD [OF this hold] run show ?thesis by (simp add: dead.holding_def)
qed

lemma refresh_served:
  assumes "serve E S (Refresh raw) w = (r, w')" and "r_body r = LoginResponse b"
  shows "\<exists>s w1. refresh E S raw (begun E w) = (Inr s, w1) \<and> w_db w' = w_db w1"
proof -
  have "route E S (Refresh raw) (begun E w) = (Inr r, w')"
    using serve_committed [OF assms(1)] assms(2) by simp
  then show ?thesis
    using assms(2)
    by (auto simp: route.simps refresh_route_def refresh_or_answer_def required_text_def validated_def
        answer_def problem_response_def bnd_apply split: prod.splits sum.splits exn.splits if_splits)
qed

lemma dead_refresh_answer:
  assumes "dead_refresh (hash_token E raw) (w_db w)" and "wf_refresh (w_db w)"
    and "serve E S (Refresh raw) w = (r, w')"
  shows "r_status r \<in> {401, 422, 500}"
proof -
  obtain x w1 where x: "refresh E S raw (begun E w) = (x, w1)" by fastforce
  have "x \<in> {Inl (ProblemError invalid_refresh_token), Inl (ReusedRefreshTokenError invalid_refresh_token),
    Inl RedisError}"
    by (rule dead_refresh_refused [OF _ _ x]) (simp_all add: assms)
  with x assms(3) show ?thesis
    by (auto simp: serve_def session_scope_def Let_def route.simps refresh_route_def refresh_or_answer_def
        required_text_def validated_def error_response_def problem_response_def answer_def bnd_apply
        invalid_refresh_token_def validation_failed_def Problem_def
        split: if_splits)
qed

text \<open>No refresh token of the account is left alive.\<close>

definition none_live :: "uuid \<Rightarrow> db \<Rightarrow> bool" where
  "none_live u d \<longleftrightarrow> (\<forall>row \<in> set (refresh_tokens d). rtm_user_id row = u \<longrightarrow> rtm_revoked_at row \<noteq> None)"

lemma none_live_dead:
  assumes "none_live u d" and "refresh_view d h = Some t" and "rt_user_id t = u"
  shows "dead_refresh h d"
  using assms by (auto simp: none_live_def dead_refresh_def refresh_view_def dest: find_SomeD)

lemma none_live_refused:
  assumes "none_live u (w_db w1)" and "constraints (w_db w1)" and "later E S w1 w2"
    and "refresh_view (w_db w1) (hash_token E raw) = Some t" and "rt_user_id t = u"
    and "serve E S (Refresh raw) w2 = (r, w3)"
  shows "r_status r \<in> {401, 422, 500}"
proof -
  have "dead_refresh (hash_token E raw) (w_db w1)" by (rule none_live_dead [OF assms(1,4,5)])
  from dead.later_keeps [OF assms(3) this assms(2)] assms(6) show ?thesis
    using dead_refresh_answer wf_refresh_constraints by blast
qed

lemma none_live_tables [simp]:
  "none_live u (d\<lparr>users := a1\<rparr>) = none_live u d"
  "none_live u (d\<lparr>password_reset_tokens := a2\<rparr>) = none_live u d"
  "none_live u (d\<lparr>outbox := a3\<rparr>) = none_live u d"
  "none_live u (d\<lparr>admin_audit_log := a4\<rparr>) = none_live u d"
  by (simp_all add: none_live_def)

lemma none_live_revoked:
  "none_live u (d\<lparr>refresh_tokens := map (\<lambda>r. if rtm_user_id r = u \<and> rtm_revoked_at r = None
     then r\<lparr>rtm_revoked_at := Some t\<rparr> else r) (refresh_tokens d)\<rparr>)"
  (is "none_live u (d\<lparr>refresh_tokens := map ?g (refresh_tokens d)\<rparr>)")
  unfolding none_live_def
proof (intro ballI impI)
  fix row assume "row \<in> set (refresh_tokens (d\<lparr>refresh_tokens := map ?g (refresh_tokens d)\<rparr>))"
    and u: "rtm_user_id row = u"
  then have "row \<in> ?g ` set (refresh_tokens d)" by (simp del: if_image_distrib)
  then obtain r where "row = ?g r" by (rule imageE)
  with u show "rtm_revoked_at row \<noteq> None" by (simp split: if_splits)
qed

text \<open>The operations that end the sessions of an account revoke its refresh tokens too.\<close>

abbreviation revoked :: "uuid \<Rightarrow> 'r world \<Rightarrow> bool" where
  "revoked u w \<equiv> none_live u (w_db w)"

definition revokes :: "uuid \<Rightarrow> ('r, 'a) op \<Rightarrow> bool" where
  "revokes u m \<longleftrightarrow> (\<forall>w x w'. m w = (Inr x, w') \<longrightarrow> revoked u w')"

lemma revokesD: "revokes u m \<Longrightarrow> m w = (Inr x, w') \<Longrightarrow> none_live u (w_db w')"
  by (simp add: revokes_def)

lemma rv_last: "v = u \<Longrightarrow> revokes u (refresh_tokens_revoke_all v now)"
  by (simp add: revokes_def refresh_tokens_revoke_all_def none_live_revoked)

lemma rv_now:
  assumes "v = u" and "\<And>x. preserves (revoked u) (f x)"
  shows "revokes u (bnd (refresh_tokens_revoke_all v now) f)"
  unfolding revokes_def
proof (intro allI impI)
  fix w x w' assume "bnd (refresh_tokens_revoke_all v now) f w = (Inr x, w')"
  then obtain w1 where "refresh_tokens_revoke_all v now w = (Inr (), w1)" and f: "f () w1 = (Inr x, w')"
    by (auto elim!: bnd_InrE)
  then have "revoked u w1" using rv_last [OF assms(1)] unfolding revokes_def by blast
  with preservesD [OF assms(2) [of "()"] this] f show "revoked u w'" by simp
qed

lemma rv_step: "(\<And>x. revokes u (f x)) \<Longrightarrow> revokes u (bnd m f)"
  unfolding revokes_def by (blast elim!: bnd_InrE)

lemma rv_branches:
  "revokes u (raise e)"
  "revokes u m \<Longrightarrow> revokes u m' \<Longrightarrow> revokes u (if b then m else m')"
  by (simp_all add: revokes_def)

lemma rv_kept:
  "preserves (revoked u) (draw g)" "preserves (revoked u) (now_utc E)" "preserves (revoked u) (uuid4 E)"
  "preserves (revoked u) (redis_cmd E c)"
  "preserves (revoked u) (outbox_add ev)"
  by (auto simp: preserves_def redis_cmd_def outbox_add_def bnd_apply split: prod.split option.split)

lemmas rv_rules = rv_last rv_now rv_branches rv_step rv_kept preserves_intro

lemma revoking_methods:
  "revokes (u_id a) (change_password E S a p q)"
  "revokes (u_id a) (delete_account E S a p)"
  unfolding change_password_def delete_account_def Let_def password_changed_def build_event_def
  by (rule rv_rules | (simp; fail))+

definition revokes_owner :: "('r, user) op \<Rightarrow> bool" where
  "revokes_owner m \<longleftrightarrow> (\<forall>w a w'. m w = (Inr a, w') \<longrightarrow> none_live (u_id a) (w_db w'))"

lemma rvo_rules:
  "revokes_owner (raise e)"
  "(\<And>x. revokes_owner (f x)) \<Longrightarrow> revokes_owner (bnd m f)"
  "revokes_owner n \<Longrightarrow> revokes_owner n' \<Longrightarrow> revokes_owner (if b then n else n')"
  "revokes_owner n \<Longrightarrow> (\<And>y. revokes_owner (g y)) \<Longrightarrow> revokes_owner (case x of None \<Rightarrow> n | Some y \<Rightarrow> g y)"
  by (auto simp: revokes_owner_def split: option.split elim!: bnd_InrE)

lemma rvo_last:
  assumes "u_id v = u"
  shows "revokes_owner (bnd (refresh_tokens_revoke_all u now) (\<lambda>_. ret v))"
  using rv_last [OF refl] assms by (fastforce simp: revokes_def revokes_owner_def elim!: bnd_InrE)

lemma reset_password_revokes: "revokes_owner (reset_password E S raw q)"
  unfolding reset_password_def Let_def by (rule rvo_last rvo_rules | (simp; fail))+

lemma block_revokes:
  assumes "block E S adm i rs w = (Inr v, w')" and "accounts (w_db w) i = Some b"
    and "wf_users (users (w_db w))" and "u_status b \<noteq> SUSPENDED"
  shows "none_live i (w_db w')"
proof -
  have "revokes i (bnd (now_utc E) (\<lambda>now.
     bnd (users_save (change_status SUSPENDED now (Some rs) b)) (\<lambda>_.
     bnd (audit_record E (u_id adm) USER_BLOCKED ''user'' i [(''reason'', JText rs)]) (\<lambda>_.
     bnd (refresh_tokens_revoke_all i now) (\<lambda>_.
     revoke_sessions E i now (access_token_minutes S * 60))))))" (is "revokes i ?tail")
    unfolding revoke_sessions_def by (rule rv_rules | (simp; fail))+
  moreover have "?tail w = (Inr v, w')"
    using assms users_get_run [OF assms(3), of i] accounts_id [OF assms(2)]
    by (auto simp: block_def Let_def bnd_Inr split: if_splits)
  ultimately show ?thesis by (rule revokesD)
qed

lemma review_revokes:
  assumes "put_under_review E S i w = (Inr v, w')" and "accounts (w_db w) i = Some b"
    and "wf_users (users (w_db w))" and "u_status b = ACTIVE"
  shows "none_live i (w_db w')"
proof -
  have "revokes i (bnd (now_utc E) (\<lambda>now.
     bnd (users_save (change_status UNDER_REVIEW now None b)) (\<lambda>_.
     bnd (revoke_sessions E i now (access_token_minutes S * 60)) (\<lambda>_.
     refresh_tokens_revoke_all i now))))" (is "revokes i ?tail")
    by (rule rv_rules | (simp; fail))+
  moreover have "?tail w = (Inr v, w')"
    using assms users_get_run [OF assms(3), of i] accounts_id [OF assms(2)]
    by (auto simp: put_under_review_def Let_def bnd_Inr split: if_splits)
  ultimately show ?thesis by (rule revokesD)
qed

section \<open>The revoking requests\<close>

lemma changed_request_revokes:
  assumes "jwt_codec E" and "0 \<le> access_token_minutes S" and "issued_token E S u at0 bearer" and "0 \<le> at0"
    and "serve E S (ChangePassword bearer cur new conf) w = (r, w')" and "r_body r = StatusOnly ''changed''"
  shows "none_live u (w_db w')"
proof -
  obtain user w1 cur' new' where
    g: "get_current_user E S (me_path @ ''/change-password'') bearer (begun E w) = (Inr user, w1)"
    and c: "change_password E S user cur' new' w1 = (Inr (), w')"
    using assms(5,6) by (rule changed_request_run)
  have "u_id user = u"
    using authentic_subject [OF assms(1,4,2,3)] current_user_Inr(1) [OF g] by blast
  with revokesD [OF revoking_methods(1) c] show ?thesis by simp
qed

lemma deleted_request_revokes:
  assumes "jwt_codec E" and "0 \<le> access_token_minutes S" and "issued_token E S u at0 bearer" and "0 \<le> at0"
    and "serve E S (DeleteAccount bearer cur) w = (r, w')" and "r_body r = StatusOnly ''deleted''"
  shows "none_live u (w_db w')"
proof -
  obtain user w1 cur' where g: "get_current_user E S me_path bearer (begun E w) = (Inr user, w1)"
    and c: "delete_account E S user cur' w1 = (Inr (), w')"
    using assms(5,6) by (rule deleted_request_run)
  have "u_id user = u"
    using authentic_subject [OF assms(1,4,2,3)] current_user_Inr(1) [OF g] by blast
  with revokesD [OF revoking_methods(2) c] show ?thesis by simp
qed

lemma reset_request_revokes:
  assumes "service_env E"
    and "serve E S (ResetPassword token new conf) w = (r, w')" and "r_body r = StatusHandle ''reset'' h"
    and "List.find (\<lambda>l. prm_token_hash l = hash_token E token) (password_reset_tokens (w_db w)) = Some link"
  shows "none_live (prm_user_id link) (w_db w')"
proof -
  obtain a new' where c: "reset_password E S token new' (begun E w) = (Inr a, w')"
    using assms(2,3) by (rule reset_request_run)
  have "u_id a = prm_user_id link"
    using service_env.reset_password_ends [OF assms(1) c] assms(4) by simp
  with c reset_password_revokes show ?thesis unfolding revokes_owner_def by metis
qed

lemma block_request_revokes:
  assumes "wf_users (users (w_db w))"
    and "serve E S (BlockAccount bearer i reason) w = (r, w')" and "r_body r = NoContent"
    and "accounts (w_db w) i = Some b" and "u_status b \<noteq> SUSPENDED"
  shows "none_live i (w_db w')"
proof -
  obtain admin w1 reason' where "block E S admin i reason' w1 = (Inr (), w')" and "w_db w1 = w_db w"
    using assms(2,3) by (rule block_request_run)
  with block_revokes assms(1,4,5) show ?thesis by metis
qed

lemma review_request_revokes:
  assumes "wf_users (users (w_db w))"
    and "serve E S (PutUnderReview tok i) w = (r, w')" and "r_body r = NoContent"
    and "accounts (w_db w) i = Some b" and "u_status b = ACTIVE"
  shows "none_live i (w_db w')"
  using review_revokes [OF review_request_run [OF assms(2,3)]] assms(1,4,5) by simp

text \<open>
  What a revoking request promises about refresh tokens: none the account held then opens a session
  again.
\<close>

definition refresh_tokens_ended :: "'r env \<Rightarrow> settings \<Rightarrow> uuid \<Rightarrow> 'r world \<Rightarrow> 'r world \<Rightarrow> bool" where
  "refresh_tokens_ended E S u w1 w2 \<longleftrightarrow>
     (\<forall>raw t r w3. refresh_view (w_db w1) (hash_token E raw) = Some t \<longrightarrow> rt_user_id t = u \<longrightarrow>
        serve E S (Refresh raw) w2 = (r, w3) \<longrightarrow> r_status r \<in> {401, 422, 500})"

lemma refresh_tokens_endedI:
  assumes "none_live u (w_db w1)" and "constraints (w_db w1)" and "later E S w1 w2"
  shows "refresh_tokens_ended E S u w1 w2"
  using none_live_refused [OF assms] unfolding refresh_tokens_ended_def by blast

lemma committed_constraints:
  "serve E S req w = (r, w') \<Longrightarrow> own_body (r_body r) \<Longrightarrow> constraints (w_db w')"
  using serve_committed by blast

section \<open>Recovery links\<close>

lemma redis_cmd_db: "redis_cmd E f w = (x, w') \<Longrightarrow> w_db w' = w_db w"
  by (auto simp: redis_cmd_def split: prod.splits)

lemma reset_password_links:
  assumes "reset_password E S raw q w = (Inr a, w')"
  shows "\<exists>l. List.find (\<lambda>r. prm_token_hash r = hash_token E raw) (password_reset_tokens (w_db w)) = Some l \<and>
    prt_is_usable (prt_of_row l) (instant E w) \<and>
    password_reset_tokens (w_db w') =
      map (\<lambda>r. if prm_user_id r = prm_user_id l \<and> prm_used_at r = None
                then r\<lparr>prm_used_at := Some (instant E w)\<rparr> else r) (password_reset_tokens (w_db w))"
proof -
  have owner: "prt_user_id (prt_of_row l) = prm_user_id l" for l by (simp add: prt_of_row_def)
  show ?thesis
    using assms
    by (auto simp: reset_password_def reset_tokens_find_by_hash_def Let_def bnd_apply owner
        hash_password_def reset_tokens_mark_all_used_def refresh_tokens_revoke_all_def
        revoke_sessions_def bnd_redis bnd_Inr [OF users_save_apply]
        split: option.splits if_splits prod.splits dest!: users_get_then not_none_then)
qed

lemma reset_password_spends:
  assumes "reset_password E S raw q w = (Inr a, w')"
  shows "spent_link (hash_token E raw) (w_db w')"
proof -
  obtain l where l: "List.find (\<lambda>r. prm_token_hash r = hash_token E raw) (password_reset_tokens (w_db w)) = Some l"
    and after: "password_reset_tokens (w_db w') =
      map (\<lambda>r. if prm_user_id r = prm_user_id l \<and> prm_used_at r = None
                then r\<lparr>prm_used_at := Some (instant E w)\<rparr> else r) (password_reset_tokens (w_db w))"
      (is "_ = map ?g _")
    using reset_password_links [OF assms] by blast
  have "prm_token_hash (?g r) = prm_token_hash r" for r by simp
  from find_map_same [of prm_token_hash ?g, OF this, of "hash_token E raw"] l after show ?thesis
    by (simp add: spent_link_def)
qed

lemma spent_link_refused:
  assumes "spent_link (hash_token E raw) (w_db w)"
  shows "reset_password E S raw q w =
    (Inl (ProblemError reset_token_invalid), w\<lparr>w_draws := Suc (w_draws w)\<rparr>)"
  using assms
  by (auto simp: spent_link_def reset_password_def reset_tokens_find_by_hash_def bnd_apply
      prt_is_usable_def prt_of_row_def)

lemma spent_link_answer:
  assumes "spent_link (hash_token E raw) (w_db w)" and "serve E S (ResetPassword raw new conf) w = (r, w')"
  shows "r_status r \<in> {400, 422}"
proof -
  have "spent_link (hash_token E raw) (w_db (begun E w))" using assms(1) by simp
  then have refused: "bnd (reset_password E S raw q) f (begun E w) =
      (Inl (ProblemError reset_token_invalid), (begun E w)\<lparr>w_draws := Suc (w_draws (begun E w))\<rparr>)" for q f
    by (simp add: bnd_def spent_link_refused)
  show ?thesis
    using assms(2)
    by (auto simp: serve_def session_scope_def Let_def route.simps reset_password_route_def validated_def
        required_text_def refused [simplified] error_response_def problem_response_def bnd_apply
        reset_token_invalid_def validation_failed_def Problem_def
        split: option.splits if_splits)
qed

end
