(* ===== verification/Session_Properties.thy ===== *)
theory Session_Properties
  imports Example_Runs Token_Lifecycle
begin

text \<open>
  The properties of the revocation of sessions and of the authentication, over the requests the
  service is served, each with an example of it.
\<close>

lemma demo_alike: "w_draws w < 800000 \<Longrightarrow> judged_alike demo_env demo_settings 0 w"
  by (simp add: judged_alike_def)

text \<open>
  C1. A password change ends every open session. Once \<open>POST /me/change-password\<close> answered
  \<open>changed\<close> to the owner of account \<open>u\<close>, no access token issued to that account up to the moment
  the request arrived is accepted again, whatever requests are served in between and however much
  time passes: \<open>get_current_user\<close> answers 401, or fails because Redis does not answer. Nor does any refresh token
  the account held then open a session again.
\<close>

theorem change_password_ends_sessions:
  assumes "service_env E" and "jwt_codec E" and "0 \<le> access_token_minutes S"
    and "issued_token E S u at0 bearer" and "0 \<le> at0"
    and "serve E S (ChangePassword bearer cur new conf) w = (r, w1)" and "r_body r = StatusOnly ''changed''"
    and "later E S w1 w2"
    and "issued_token E S u at token" and "0 \<le> at" and "at \<le> instant E w" and "judged_alike E S at w2"
  shows "(\<exists>e \<in> refusals. outcome (get_current_user E S path token w2) = Inl e) \<and>
    refresh_tokens_ended E S u w1 w2"
  using service_env.ended_sessions_refused [OF assms(1-3)
      service_env.changed_request_ends [OF assms(1-7)] assms(8-12)]
    refresh_tokens_endedI [OF changed_request_revokes [OF assms(2-7)] committed_constraints [OF assms(6)] assms(8)]
    assms(7) by simp

theorem change_password_ends_sessions_witness:
  "\<exists>e \<in> refusals. outcome (get_current_user demo_env demo_settings me_path (demo_token 1)
     (snd (serve demo_env demo_settings
        (ChangePassword (demo_token 1) ''Secret12'' ''Other9876'' ''Other9876'') demo_world))) = Inl e"
proof -
  let ?s = "serve demo_env demo_settings
    (ChangePassword (demo_token 1) ''Secret12'' ''Other9876'' ''Other9876'') demo_world"
  note run = demo_change [OF prod.collapse [of ?s, symmetric]]
  show ?thesis
    by (rule change_password_ends_sessions [OF demo_service_env demo_jwt _ demo_issued _
          prod.collapse [of ?s, symmetric] _ later.start demo_issued, THEN conjunct1])
       (use run in \<open>simp_all add: demo_alike\<close>)
qed

text \<open>
  C2. A password reset through a recovery link ends every open session of the account the link
  belongs to, access tokens and refresh tokens alike, in the same sense.
\<close>

theorem reset_password_ends_sessions:
  assumes "service_env E" and "jwt_codec E" and "0 \<le> access_token_minutes S"
    and "serve E S (ResetPassword raw new conf) w = (r, w1)" and "r_body r = StatusHandle ''reset'' h"
    and "List.find (\<lambda>l. prm_token_hash l = hash_token E raw) (password_reset_tokens (w_db w)) = Some link"
    and "later E S w1 w2"
    and "issued_token E S (prm_user_id link) at token" and "0 \<le> at" and "at \<le> instant E w"
    and "judged_alike E S at w2"
  shows "(\<exists>e \<in> refusals. outcome (get_current_user E S path token w2) = Inl e) \<and>
    refresh_tokens_ended E S (prm_user_id link) w1 w2"
  using service_env.ended_sessions_refused [OF assms(1-3)
      service_env.reset_request_ends [OF assms(1,4-6)] assms(7-11)]
    refresh_tokens_endedI [OF reset_request_revokes [OF assms(1,4-6)] committed_constraints [OF assms(4)] assms(7)]
    assms(5) by simp

theorem reset_password_ends_sessions_witness:
  "\<exists>e \<in> refusals. outcome (get_current_user demo_env demo_settings me_path (demo_token 1)
     (snd (serve demo_env demo_settings (ResetPassword ''link'' ''Other9876'' ''Other9876'')
        demo_link_world))) = Inl e"
proof -
  let ?s = "serve demo_env demo_settings (ResetPassword ''link'' ''Other9876'' ''Other9876'') demo_link_world"
  note run = demo_reset [OF prod.collapse [of ?s, symmetric]]
  show ?thesis
    by (rule reset_password_ends_sessions [OF demo_service_env demo_jwt _
          prod.collapse [of ?s, symmetric] _ demo_link_found later.start, of "''@ana1''" 0, THEN conjunct1])
       (use run demo_issued [of 1] in \<open>simp_all add: demo_alike demo_link_world_draws demo_link_def\<close>)
qed

text \<open>
  Closing an account ends every open session of it, access tokens and refresh tokens alike.
\<close>

lemma delete_account_ends_sessions:
  assumes "service_env E" and "jwt_codec E" and "0 \<le> access_token_minutes S"
    and "issued_token E S u at0 bearer" and "0 \<le> at0"
    and "serve E S (DeleteAccount bearer cur) w = (r, w1)" and "r_body r = StatusOnly ''deleted''"
    and "later E S w1 w2"
    and "issued_token E S u at token" and "0 \<le> at" and "at \<le> instant E w" and "judged_alike E S at w2"
  shows "(\<exists>e \<in> refusals. outcome (get_current_user E S path token w2) = Inl e) \<and>
    refresh_tokens_ended E S u w1 w2"
  using service_env.ended_sessions_refused [OF assms(1-3)
      service_env.deleted_request_ends [OF assms(1-7)] assms(8-12)]
    refresh_tokens_endedI [OF deleted_request_revokes [OF assms(2-7)] committed_constraints [OF assms(6)] assms(8)]
    assms(7) by simp

text \<open>
  Blocking an account that is not blocked yet ends every open session of it, access tokens and
  refresh tokens alike.
\<close>

lemma block_ends_sessions:
  assumes "service_env E" and "jwt_codec E" and "0 \<le> access_token_minutes S"
    and "wf_users (users (w_db w))"
    and "serve E S (BlockAccount bearer u reason) w = (r, w1)" and "r_body r = NoContent"
    and "accounts (w_db w) u = Some b" and "u_status b \<noteq> SUSPENDED"
    and "later E S w1 w2"
    and "issued_token E S u at token" and "0 \<le> at" and "at \<le> instant E w" and "judged_alike E S at w2"
  shows "(\<exists>e \<in> refusals. outcome (get_current_user E S path token w2) = Inl e) \<and>
    refresh_tokens_ended E S u w1 w2"
  using service_env.ended_sessions_refused [OF assms(1-3)
      service_env.block_request_ends [OF assms(1,4-8)] assms(9-13)]
    refresh_tokens_endedI [OF block_request_revokes [OF assms(4-8)] committed_constraints [OF assms(5)] assms(9)]
    assms(6) by simp

text \<open>
  C33. Putting an active account under review ends every open session of it, access tokens and
  refresh tokens alike.
\<close>

theorem review_ends_sessions:
  assumes "service_env E" and "jwt_codec E" and "0 \<le> access_token_minutes S"
    and "wf_users (users (w_db w))"
    and "serve E S (PutUnderReview internal u) w = (r, w1)" and "r_body r = NoContent"
    and "accounts (w_db w) u = Some b" and "u_status b = ACTIVE"
    and "later E S w1 w2"
    and "issued_token E S u at token" and "0 \<le> at" and "at \<le> instant E w" and "judged_alike E S at w2"
  shows "(\<exists>e \<in> refusals. outcome (get_current_user E S path token w2) = Inl e) \<and>
    refresh_tokens_ended E S u w1 w2"
  using service_env.ended_sessions_refused [OF assms(1-3)
      service_env.review_request_ends [OF assms(1,4-8)] assms(9-13)]
    refresh_tokens_endedI [OF review_request_revokes [OF assms(4-8)] committed_constraints [OF assms(5)] assms(9)]
    assms(6) by simp

theorem review_ends_sessions_witness:
  "\<exists>e \<in> refusals. outcome (get_current_user demo_env demo_settings me_path (demo_token 1)
     (snd (serve demo_env demo_settings (PutUnderReview (Some ''internal'') 1) demo_world))) = Inl e"
proof -
  let ?s = "serve demo_env demo_settings (PutUnderReview (Some ''internal'') 1) demo_world"
  note run = demo_review [OF prod.collapse [of ?s, symmetric]]
  show ?thesis
    by (rule review_ends_sessions [OF demo_service_env demo_jwt _ _
          prod.collapse [of ?s, symmetric] _ _ _ later.start demo_issued, of ana, THEN conjunct1])
       (use run in \<open>simp_all add: demo_alike\<close>)
qed

text \<open>
  C6. A refresh token that was used before is answered with 401 and no session, unless Redis fails and the
  answer is 500. When it is not revoked yet, presenting it again is the sign of a theft: every refresh token of the account is revoked in the
  database, although the request failed, and every open session of the account ends. When it is revoked
  already, by a logout or by an earlier detection, it is only an invalid token: nothing changes in the
  database and nothing is written to Redis, so an old copy cannot sign the owner out again.
\<close>

theorem reuse_ends_sessions:
  assumes "service_env E" and "jwt_codec E" and "0 \<le> access_token_minutes S"
    and "wf_refresh (w_db w)"
    and "serve E S (Refresh raw) w = (r, w1)" and "r_body r \<noteq> StatusOnly ''Internal Server Error''"
    and "refresh_view (w_db w) (hash_token E raw) = Some t" and "rt_used_at t \<noteq> None" and "raw \<noteq> []"
    and "later E S w1 w2"
    and "issued_token E S (rt_user_id t) at token" and "0 \<le> at" and "at \<le> instant E w"
    and "judged_alike E S at w2"
  shows "r_status r = 401 \<and>
    (rt_revoked_at t = None \<longrightarrow>
      (\<forall>row \<in> set (refresh_tokens (w_db w1)). rtm_user_id row = rt_user_id t \<longrightarrow> rtm_revoked_at row \<noteq> None) \<and>
      (\<exists>e \<in> refusals. outcome (get_current_user E S path token w2) = Inl e)) \<and>
    (rt_revoked_at t \<noteq> None \<longrightarrow> w_db w1 = w_db w \<and> w_redis w1 = w_redis w)"
proof (cases "rt_revoked_at t = None")
  case True
  from service_env.reused_request_ends [OF assms(1,4-8) True assms(9)]
    service_env.ended_sessions_refused [OF assms(1-3) _ assms(10-14)] True
  show ?thesis by blast
next
  case False
  from revoked_request_refused [OF assms(4,5,7) False assms(9)] False show ?thesis by blast
qed

theorem reuse_ends_sessions_witness:
  "(r_status (fst (serve demo_env demo_settings (Refresh ''first'') demo_used_world)) = 401 \<and>
    (\<exists>e \<in> refusals. outcome (get_current_user demo_env demo_settings me_path (demo_token 1)
      (snd (serve demo_env demo_settings (Refresh ''first'') demo_used_world))) = Inl e)) \<and>
   w_db (snd (serve demo_env demo_settings (Refresh ''old'') demo_revoked_world)) = w_db demo_revoked_world"
proof (rule conjI)
  let ?s = "serve demo_env demo_settings (Refresh ''first'') demo_used_world"
  note run = demo_reuse [OF prod.collapse [of ?s, symmetric]]
  note found = reuse_ends_sessions [OF demo_service_env demo_jwt _ demo_used_found(1)
      prod.collapse [of ?s, symmetric] _ demo_used_found(2) _ _ later.start, of 0]
  show "r_status (fst ?s) = 401 \<and> (\<exists>e \<in> refusals. outcome (get_current_user demo_env demo_settings me_path
      (demo_token 1) (snd ?s)) = Inl e)"
    using run demo_issued [of 1] found [of "demo_token 1" me_path]
    by (simp add: demo_alike demo_refresh_def rt_of_row_def demo_used_found)
next
  let ?s = "serve demo_env demo_settings (Refresh ''old'') demo_revoked_world"
  note run = demo_revoked_reuse [OF prod.collapse [of ?s, symmetric]]
  show "w_db (snd ?s) = w_db demo_revoked_world"
    using run demo_issued [of 1] reuse_ends_sessions [OF demo_service_env demo_jwt _ demo_revoked_found(1)
        prod.collapse [of ?s, symmetric] _ demo_revoked_found(2) _ _ later.start, of 0 "demo_token 1" me_path]
    by (simp add: demo_alike demo_refresh_def rt_of_row_def demo_revoked_found)
qed

text \<open>
  C7. Whoever passes the authentication is the owner of the account the token was issued for, of
  an account that exists, is active and not closed, and with a temporary password only on the paths
  that let it be changed; authenticating changes nothing in the database.
\<close>

theorem authentication_sound:
  assumes "jwt_codec E" and "0 \<le> access_token_minutes S" and "issued_token E S u at token" and "0 \<le> at"
    and "get_current_user E S path token w = (Inr user, w')"
  shows "u_id user = u \<and> accounts (w_db w) u = Some user \<and> can_log_in user \<and>
    (u_must_change_password user \<longrightarrow> path \<in> set PATHS_ALLOWED_WHILE_PASSWORD_CHANGE_IS_DUE) \<and>
    instant E w < at + minutes (access_token_minutes S) \<and> w_db w' = w_db w"
proof -
  note a = current_user_Inr [OF assms(5)]
  have "u_id user = u" by (rule authentic_subject [OF assms(1,4,2,3) a(1)])
  moreover obtain c where "e_jwt_decode E token (jwt_issuer S) (instant E w) = Inr c"
    using a(1) unfolding authentic_def by blast
  then have "instant E w < at + minutes (access_token_minutes S)"
    using decoded_token [OF assms(1,3,4,2)] by blast
  ultimately show ?thesis
    using a authentic_stored [OF a(1)] by (simp add: authentic_def)
qed

theorem authentication_sound_witness:
  "u_id ana = 1 \<and> accounts demo_db 1 = Some ana \<and> can_log_in ana"
  using authentication_sound [OF demo_jwt _ demo_issued [of 1] _ demo_current(1) [of demo_world me_path]]
  by simp

end
