(* ===== verification/Logins.thy ===== *)
theory Logins
  imports Token_Lifecycle
begin

text \<open>
  What a login, a refresh and a failed login mean: who gets a session, and what an outsider learns
  from a refusal.
\<close>

section \<open>Who gets a session\<close>

lemma issue_session_run:
  "issue_session E S user w =
     (Inr (e_jwt_encode E
        \<lparr> pl_iss = jwt_issuer S, pl_sub = uuid_str (u_id user), pl_role = role_value (u_role user),
          pl_handle = u_handle user, pl_profile_visibility = visibility_value (u_profile_visibility user),
          pl_jti = uuid_str (e_uuid4 E (Suc (w_draws w))), pl_iat = instant E w,
          pl_exp = instant E w + minutes (access_token_minutes S) \<rparr>, access_token_minutes S * 60),
      w\<lparr>w_draws := Suc (Suc (w_draws w))\<rparr>)"
  by (simp add: issue_session_def issue_access_token_def bnd_apply bnd_assoc)

lemma issue_session_issued:
  "issue_session E S user w = (Inr (tok, n), w') \<Longrightarrow> issued_token E S (u_id user) (instant E w) tok"
  by (auto simp: issue_session_run issued_token_def)

text \<open>The subject of a token is determined by the token.\<close>

lemma issued_token_subject:
  assumes "jwt_codec E" and "issued_token E S u at tok" and "issued_token E S v at' tok"
  shows "u = v"
proof -
  obtain p q where "tok = e_jwt_encode E p" "pl_sub p = uuid_str u" "tok = e_jwt_encode E q" "pl_sub q = uuid_str v"
    using assms(2,3) unfolding issued_token_def by blast
  moreover from this have "claims_of p = claims_of q"
    using assms(1) unfolding jwt_codec_def by metis
  ultimately show ?thesis by (simp add: claims_of_def)
qed

lemma deny_blocked_Inr: "deny_blocked_account a t w = (Inr x, w') \<Longrightarrow> can_log_in a \<and> w' = w"
  by (auto simp: deny_blocked_account_def split: if_splits)

lemma deny_expired_Inr:
  "deny_expired_temporary_password E a t w = (Inr x, w') \<Longrightarrow>
     \<not> temporary_password_expired a (instant E w) \<and> w' = w\<lparr>w_draws := Suc (w_draws w)\<rparr>"
  by (auto simp: deny_expired_temporary_password_def bnd_apply split: if_splits)

lemma not_none_Inr: "not_none x w = (Inr v, w') \<Longrightarrow> x = Some v \<and> w' = w"
  by (cases x) auto

lemma guard_lockout_db: "guard_lockout E x p w = (y, w') \<Longrightarrow> w_db w' = w_db w"
  by (auto simp: guard_lockout_def count_marks_def bnd_assoc bnd_redis split: prod.splits option.splits if_splits)

lemma find_stored:
  assumes "wf_users (users d)" and "List.find P (users d) = Some r"
  shows "\<exists>u. to_domain r = Some u \<and> accounts d (u_id u) = Some u"
proof -
  have r: "r \<in> set (users d)" using find_SomeD [OF assms(2)] by simp
  then obtain u where u: "to_domain r = Some u"
    using assms(1) ck_users_total by (auto simp: wf_users_def)
  then have "u_id u = um_id r" by (simp add: to_domain_Some)
  moreover have "row_by_id (um_id r) d = Some r"
    using find_unique [of um_id "users d" r] r assms(1) by (simp add: row_by_id_def wf_users_def)
  ultimately show ?thesis using u by (simp add: accounts_def)
qed

lemma find_by_Inr:
  "users_find_by_identifier x w = (Inr y, w') \<Longrightarrow> w' = w \<and>
     y = Option.bind (List.find (\<lambda>r. um_email r = x \<or> um_handle r = x) (users (w_db w))) to_domain"
  "users_find_by_email x w = (Inr y, w') \<Longrightarrow> w' = w \<and>
     y = Option.bind (List.find (\<lambda>r. um_email r = x) (users (w_db w))) to_domain"
  by (auto simp: users_find_by_identifier_def users_find_by_email_def bnd_apply loaded_def
      split: option.splits)

text \<open>The account a session is opened for, with the token handed out.\<close>

definition opened_for :: "'r env \<Rightarrow> settings \<Rightarrow> db \<Rightarrow> string \<Rightarrow> user \<Rightarrow> bool" where
  "opened_for E S d tok user \<longleftrightarrow> accounts d (u_id user) = Some user \<and> can_log_in user \<and>
     (\<exists>at. issued_token E S (u_id user) at tok)"

lemma login_success:
  assumes "login E S x p w = (Inr s, w')" and "wf_users (users (w_db w))"
  shows "\<exists>user. (u_email user = py_lower (py_strip x) \<or> u_handle user = py_lower (py_strip x)) \<and>
    verify_password E p (Some (u_password_hash user)) \<and> u_is_email_verified user \<and>
    opened_for E S (w_db w) (is_access_token s) user"
proof -
  let ?x = "py_lower (py_strip x)"
  have "\<exists>user. Option.bind (List.find (\<lambda>r. um_email r = ?x \<or> um_handle r = ?x) (users (w_db w))) to_domain
      = Some user \<and> verify_password E p (Some (u_password_hash user)) \<and> can_log_in user \<and>
      u_is_email_verified user \<and> (\<exists>at. issued_token E S (u_id user) at (is_access_token s))"
    using assms(1)
    by (auto simp: login_def Let_def elim!: bnd_InrE split: if_splits dest!: guard_lockout_db find_by_Inr
        deny_blocked_Inr not_none_Inr issue_session_issued) blast+
  then obtain user r where r: "List.find (\<lambda>r. um_email r = ?x \<or> um_handle r = ?x) (users (w_db w)) = Some r"
    and d: "to_domain r = Some user" and user: "verify_password E p (Some (u_password_hash user))"
      "can_log_in user" "u_is_email_verified user" "\<exists>at. issued_token E S (u_id user) at (is_access_token s)"
    by (auto simp: bind_eq_Some_conv)
  have "accounts (w_db w) (u_id user) = Some user" using find_stored [OF assms(2) r] d by simp
  moreover have "u_email user = ?x \<or> u_handle user = ?x"
    using find_SomeD [OF r] d by (auto simp: to_domain_Some)
  ultimately show ?thesis using user by (auto simp: opened_for_def)
qed

lemma admin_login_success:
  assumes "admin_login E S x p w = (Inr (tok, n, must), w')" and "wf_users (users (w_db w))"
  shows "\<exists>user. u_email user = py_lower (py_strip x) \<and>
    verify_password E p (Some (u_password_hash user)) \<and> is_administrator user \<and>
    must = u_must_change_password user \<and> opened_for E S (w_db w) tok user"
proof -
  let ?x = "py_lower (py_strip x)"
  have "\<exists>user. Option.bind (List.find (\<lambda>r. um_email r = ?x) (users (w_db w))) to_domain = Some user \<and>
      verify_password E p (Some (u_password_hash user)) \<and> can_log_in user \<and> is_administrator user \<and>
      must = u_must_change_password user \<and> (\<exists>at. issued_token E S (u_id user) at tok)"
    using assms(1)
    by (auto simp: admin_login_def Let_def elim!: bnd_InrE split: if_splits dest!: guard_lockout_db
        find_by_Inr deny_blocked_Inr not_none_Inr issue_session_issued) blast+
  then obtain user r where r: "List.find (\<lambda>r. um_email r = ?x) (users (w_db w)) = Some r"
    and d: "to_domain r = Some user" and user: "verify_password E p (Some (u_password_hash user))"
      "can_log_in user" "is_administrator user" "must = u_must_change_password user"
      "\<exists>at. issued_token E S (u_id user) at tok"
    by (auto simp: bind_eq_Some_conv)
  have "accounts (w_db w) (u_id user) = Some user" using find_stored [OF assms(2) r] d by simp
  moreover have "u_email user = ?x"
    using find_SomeD [OF r] d by (auto simp: to_domain_Some)
  ultimately show ?thesis using user by (auto simp: opened_for_def)
qed

lemma refresh_success:
  assumes "refresh E S raw w = (Inr s, w')" and "constraints (w_db w)"
  shows "\<exists>t user. refresh_view (w_db w) (hash_token E raw) = Some t \<and> rt_used_at t = None \<and>
    rt_revoked_at t = None \<and> instant E w < rt_expires_at t \<and> u_id user = rt_user_id t \<and>
    opened_for E S (w_db w) (is_access_token s) user"
proof -
  let ?w = "w\<lparr>w_draws := Suc (w_draws w)\<rparr>" and ?h = "hash_token E raw" and ?now = "instant E w"
  obtain y w1 where c: "refresh_tokens_consume ?h ?now ?w = (y, w1)" by fastforce
  have wf: "wf_refresh (w_db ?w)" using assms(2) by (simp add: wf_refresh_constraints)
  have "y \<noteq> Inr None"
    using assms(1) c by (auto simp: refresh_def Let_def bnd_apply bnd_Inr refuse_raises elim!: bnd_InrE)
  with consume_refines [OF wf c] obtain t where t: "refresh_view (w_db w) ?h = Some t"
      "rt_used_at t = None" "rt_revoked_at t = None" "?now < rt_expires_at t"
    and y: "y = Inr (Some (t\<lparr>rt_used_at := Some ?now\<rparr>))"
    by (auto split: option.splits if_splits)
  have users: "users (w_db w1) = users (w_db w)" using c by (auto simp: consume_db)
  then have acc: "accounts (w_db w1) = accounts (w_db w)" by (simp add: accounts_def row_by_id_def fun_eq_iff)
  have get: "users_get i w1 = (Inr (accounts (w_db w) i), w1)" for i
    using users_get_run [of w1 i] users assms(2) by (simp add: wf_users_constraints acc)
  have "\<exists>user. accounts (w_db w) (rt_user_id t) = Some user \<and> can_log_in user \<and>
      (\<exists>at. issued_token E S (u_id user) at (is_access_token s))"
    using assms(1) c y
    by (auto simp: refresh_def Let_def bnd_apply bnd_Inr get split: option.splits elim!: bnd_InrE
        dest!: deny_blocked_Inr issue_session_issued) blast
  then show ?thesis
    using t accounts_id unfolding opened_for_def by metis
qed

section \<open>What a refused login tells\<close>

text \<open>The password does not verify against whatever the identifier finds, if anything.\<close>

definition rejects :: "'r env \<Rightarrow> string \<Rightarrow> user_model option \<Rightarrow> bool" where
  "rejects E p row \<longleftrightarrow> \<not> verify_password E p (map_option um_password_hash row)"

definition by_identifier :: "string \<Rightarrow> db \<Rightarrow> user_model option" where
  "by_identifier x d = List.find (\<lambda>r. um_email r = x \<or> um_handle r = x) (users d)"

lemma loaded_stored:
  assumes "wf_users (users d)" and "\<And>r. row = Some r \<Longrightarrow> r \<in> set (users d)"
  shows "\<exists>y. loaded row w = (Inr y, w) \<and> map_option u_password_hash y = map_option um_password_hash row"
proof (cases row)
  case None
  then show ?thesis by (simp add: loaded_def)
next
  case (Some r)
  then obtain u where "to_domain r = Some u"
    using assms ck_users_total by (auto simp: wf_users_def)
  moreover from this have "u_password_hash u = um_password_hash r" by (simp add: to_domain_Some)
  ultimately show ?thesis using Some by (simp add: loaded_def)
qed

lemma bnd_cong_after:
  assumes "\<And>x w'. m w = (Inr x, w') \<Longrightarrow> f x w' = g x w'"
  shows "bnd m f w = bnd m g w"
  using assms by (auto simp: bnd_def split: prod.split sum.split)

definition refused_login :: "'r env \<Rightarrow> string \<Rightarrow> login_policy \<Rightarrow> ('r, 'a) op" where
  "refused_login E x policy =
     bnd (guard_lockout E x policy) (\<lambda>_.
     bnd (register_failure E x policy) (\<lambda>_.
     raise (ProblemError invalid_credentials)))"

lemma login_refused:
  assumes "wf_users (users (w_db w))" and "rejects E p (by_identifier (py_lower (py_strip x)) (w_db w))"
  shows "login E S x p w = refused_login E x (app_login_policy S) w"
  unfolding login_def refused_login_def Let_def
proof (rule bnd_cong_after, goal_cases)
  case (1 u w')
  have db: "w_db w' = w_db w" using 1 by (rule guard_lockout_db)
  let ?row = "by_identifier (py_lower (py_strip x)) (w_db w')"
  obtain y where "loaded ?row w' = (Inr y, w')" "map_option u_password_hash y = map_option um_password_hash ?row"
    using loaded_stored [of "w_db w'" ?row w'] assms(1) find_SomeD by (force simp: db by_identifier_def)
  then show ?case
    using assms(2)
    by (simp add: users_find_by_identifier_def bnd_assoc bnd_apply by_identifier_def [symmetric] bnd_Inr
        rejects_def db)
qed

text \<open>An operation that neither reads nor writes the database.\<close>

definition blind :: "('r, 'a) op \<Rightarrow> bool" where
  "blind m \<longleftrightarrow> (\<forall>w d t. m (w\<lparr>w_db := d, w_tx_now := t\<rparr>) =
     (outcome (m w), (after (m w))\<lparr>w_db := d, w_tx_now := t\<rparr>))"

lemma blind_bnd:
  assumes "blind m" and "\<And>x. blind (f x)"
  shows "blind (bnd m f)"
  unfolding blind_def
proof (intro allI)
  fix w d t
  obtain y w' where m: "m w = (y, w')" by fastforce
  then have "m (w\<lparr>w_db := d, w_tx_now := t\<rparr>) = (y, w'\<lparr>w_db := d, w_tx_now := t\<rparr>)"
    using assms(1) by (simp add: blind_def)
  with m assms(2) show "bnd m f (w\<lparr>w_db := d, w_tx_now := t\<rparr>) =
      (outcome (bnd m f w), (after (bnd m f w))\<lparr>w_db := d, w_tx_now := t\<rparr>)"
    by (cases y) (simp_all add: bnd_def blind_def)
qed

lemma blind_rules:
  "blind (ret v)" "blind skip" "blind (raise e)" "blind (redis_cmd E c)" "blind (draw g)"
  "blind n \<Longrightarrow> blind n' \<Longrightarrow> blind (if b then n else n')"
  by (simp_all add: blind_def redis_cmd_def split: prod.split)

lemma blind_refused: "blind (refused_login E x policy)"
  unfolding refused_login_def guard_lockout_def register_failure_def count_marks_def hit_def
  by (rule blind_rules blind_bnd)+

lemma blind_same:
  assumes "blind m" and "w_redis w1 = w_redis w2" and "w_draws w1 = w_draws w2"
  shows "\<exists>y w'. m w1 = (y, w'\<lparr>w_db := w_db w1, w_tx_now := w_tx_now w1\<rparr>) \<and>
    m w2 = (y, w'\<lparr>w_db := w_db w2, w_tx_now := w_tx_now w2\<rparr>)"
proof -
  have "w1 = w1\<lparr>w_db := w_db w1, w_tx_now := w_tx_now w1\<rparr>" "w2 = w1\<lparr>w_db := w_db w2, w_tx_now := w_tx_now w2\<rparr>"
    using assms(2,3) by simp_all
  then show ?thesis using assms(1) unfolding blind_def by metis
qed

end
