(* ===== verification/Token_Properties.thy ===== *)
theory Token_Properties
  imports Session_Properties Logins
begin

text \<open>
  Properties of the stored tokens and of the history of an account, over sequences of requests.
\<close>

text \<open>The first account with a refresh token it has not used.\<close>

definition demo_fresh_world :: "keyspace world" where
  "demo_fresh_world = demo_world\<lparr>w_db := demo_db\<lparr>refresh_tokens := [demo_refresh ''first'' 7 None]\<rparr>\<rparr>"

lemma demo_fresh_constraints: "constraints (w_db demo_fresh_world)"
  by (simp add: demo_fresh_world_def demo_refresh_def commit_defs)

lemma demo_rotation:
  "serve demo_env demo_settings (Refresh ''first'') demo_fresh_world = (r, w') \<Longrightarrow>
    \<exists>b. r_body r = LoginResponse b"
  apply (simp add: serve_defs refresh_route_def demo_fresh_world_def demo_refresh_def required_text_def
      validated_def)
  apply (simp only: refresh_or_answer_def refresh_def chain_defs method_defs refuse_refresh_token_def)
  apply (simp add: op_simps rtm_consumable_def)
  apply (auto simp: commit_defs row_defs op_simps can_log_in_def temporary_password_expired_def
      session_body_def)
  done

text \<open>
  C8. A refresh token works once. After \<open>POST /auth/refresh\<close> exchanged it for a new session, whatever
  is served in between, presenting it again is answered with 401, or with 500 when Redis fails while
  the reuse is being handled.
\<close>

theorem refresh_token_single_use:
  assumes "constraints (w_db w)"
    and "serve E S (Refresh raw) w = (r1, w1)" and "r_body r1 = LoginResponse b"
    and "later E S w1 w2" and "serve E S (Refresh raw) w2 = (r2, w3)"
  shows "r_status r2 \<in> {401, 422, 500}"
proof -
  obtain s w' where "refresh E S raw (begun E w) = (Inr s, w')" and "w_db w1 = w_db w'"
    using refresh_served [OF assms(2,3)] by blast
  then have "dead_refresh (hash_token E raw) (w_db w1)"
    using refresh_kills [of E S raw "begun E w"] assms(1) by simp
  moreover have "constraints (w_db w1)" using committed_constraints [OF assms(2)] assms(3) by simp
  ultimately show ?thesis
    using dead.later_keeps [OF assms(4)] dead_refresh_answer [OF _ _ assms(5)] wf_refresh_constraints by blast
qed

theorem refresh_token_single_use_witness:
  "r_status (fst (serve demo_env demo_settings (Refresh ''first'')
     (snd (serve demo_env demo_settings (Refresh ''first'') demo_fresh_world)))) \<in> {401, 422, 500}"
proof -
  let ?s = "serve demo_env demo_settings (Refresh ''first'') demo_fresh_world"
  obtain b where b: "r_body (fst ?s) = LoginResponse b"
    using demo_rotation [OF prod.collapse [of ?s, symmetric]] by blast
  show ?thesis
    by (rule refresh_token_single_use [OF demo_fresh_constraints prod.collapse [of ?s, symmetric] b later.start
          prod.collapse [symmetric]])
qed

text \<open>
  C9. A recovery link works once: after it reset a password, it is answered with 400 for good (or 422
  when the new password breaks the policy), whatever is served in between.
\<close>

theorem recovery_link_single_use:
  assumes "constraints (w_db w)"
    and "serve E S (ResetPassword raw new conf) w = (r1, w1)" and "r_body r1 = StatusHandle ''reset'' h"
    and "later E S w1 w2" and "serve E S (ResetPassword raw new' conf') w2 = (r2, w3)"
  shows "r_status r2 \<in> {400, 422}"
proof -
  obtain a q where "reset_password E S raw q (begun E w) = (Inr a, w1)"
    using assms(2,3) by (rule reset_request_run)
  then have "spent_link (hash_token E raw) (w_db w1)" by (rule reset_password_spends)
  moreover have "constraints (w_db w1)" using committed_constraints [OF assms(2)] assms(3) by simp
  ultimately show ?thesis
    using spent.later_keeps [OF assms(4)] spent_link_answer [OF _ assms(5)] by blast
qed

theorem recovery_link_single_use_witness:
  "r_status (fst (serve demo_env demo_settings (ResetPassword ''link'' ''Third4567'' ''Third4567'')
     (snd (serve demo_env demo_settings (ResetPassword ''link'' ''Other9876'' ''Other9876'')
        demo_link_world)))) \<in> {400, 422}"
proof -
  let ?s = "serve demo_env demo_settings (ResetPassword ''link'' ''Other9876'' ''Other9876'') demo_link_world"
  have "constraints (w_db demo_link_world)"
    by (simp add: demo_link_world_def demo_link_def commit_defs)
  then show ?thesis
    using demo_reset [OF prod.collapse [of ?s, symmetric]]
    by (intro recovery_link_single_use [OF _ prod.collapse [of ?s, symmetric] _ later.start
          prod.collapse [symmetric]]) simp_all
qed

text \<open>
  C10. The history of an account. Over any sequence of requests the constraints of the tables keep
  holding and every account stays: its id, email, handle, role, creation date and acceptance of the
  terms never change, a verified address stays verified, a closed account stays closed with its date,
  and a suspended account stays suspended with its reason.
\<close>

theorem account_history:
  assumes "constraints (w_db w)" and "later E S w w2" and "accounts (w_db w) i = Some u"
  shows "constraints (w_db w2) \<and> (\<exists>u'. accounts (w_db w2) i = Some u' \<and> lawful u u')"
proof -
  have "evolved (w_db w) (w_db w)" by (auto simp: evolved_def)
  from history.later_keeps [OF assms(2) this assms(1)] assms(3) show ?thesis
    by (auto simp: evolved_def)
qed

theorem account_history_witness:
  "\<exists>u'. accounts (w_db (snd (serve demo_env demo_settings (DeleteAccount (demo_token 1) ''Secret12'') demo_world))) 1
     = Some u' \<and> u_email u' = ''ana@x.ar''"
  using account_history [OF _ later.request [OF later.start], of demo_world 1 ana demo_env demo_settings
      "DeleteAccount (demo_token 1) ''Secret12''"] demo_constraints
  by (auto simp: lawful_def ana_def account.defs User_def)

lemma lawful_locked_out:
  assumes "lawful u u'" and "u_deleted_at u \<noteq> None \<or> u_status u = SUSPENDED"
  shows "\<not> can_log_in u'"
  using assms by (auto simp: lawful_def can_log_in_def)

text \<open>
  C11. A closed or suspended account never gets in again: from then on no access token passes the
  authentication for it, no matter when it was issued, and no login, backoffice login or refresh
  hands out a token of it.
\<close>

theorem locked_out_for_good:
  assumes "jwt_codec E" and "constraints (w_db w)" and "accounts (w_db w) i = Some u"
    and "u_deleted_at u \<noteq> None \<or> u_status u = SUSPENDED" and "later E S w w2"
  shows "(\<forall>path tok user w3. get_current_user E S path tok w2 = (Inr user, w3) \<longrightarrow> u_id user \<noteq> i) \<and>
    (\<forall>x p s w3 at. login E S x p w2 = (Inr s, w3) \<longrightarrow> \<not> issued_token E S i at (is_access_token s)) \<and>
    (\<forall>x p tok n must w3 at. admin_login E S x p w2 = (Inr (tok, n, must), w3) \<longrightarrow> \<not> issued_token E S i at tok) \<and>
    (\<forall>raw s w3 at. refresh E S raw w2 = (Inr s, w3) \<longrightarrow> \<not> issued_token E S i at (is_access_token s))"
proof -
  have "evolved (w_db w) (w_db w)" by (auto simp: evolved_def)
  from history.later_keeps [OF assms(5) this assms(2)] assms(3)
  obtain u' where u': "accounts (w_db w2) i = Some u'" "lawful u u'" and c: "constraints (w_db w2)"
    by (auto simp: evolved_def)
  have out: "\<not> can_log_in u'" using lawful_locked_out [OF u'(2) assms(4)] .
  have no: "\<not> issued_token E S i at tok" if o: "opened_for E S (w_db w2) tok user" for user tok at
  proof
    assume "issued_token E S i at tok"
    then have "u_id user = i" using o issued_token_subject [OF assms(1)] by (auto simp: opened_for_def)
    with o u'(1) out show False by (auto simp: opened_for_def)
  qed
  have wf: "wf_users (users (w_db w2))" using c by (rule wf_users_constraints)
  have "u_id user \<noteq> i" if "get_current_user E S path tok w2 = (Inr user, w3)" for path tok user w3
    using current_user_Inr(1) [OF that] authentic_stored u'(1) out by (fastforce simp: authentic_def)
  moreover have "\<not> issued_token E S i at (is_access_token s)" if "login E S x p w2 = (Inr s, w3)" for x p s w3 at
    using login_success [OF that wf] no by blast
  moreover have "\<not> issued_token E S i at tok" if "admin_login E S x p w2 = (Inr (tok, n, must), w3)"
    for x p tok n must w3 at
    using admin_login_success [OF that wf] no by blast
  moreover have "\<not> issued_token E S i at (is_access_token s)" if "refresh E S raw w2 = (Inr s, w3)" for raw s w3 at
    using refresh_success [OF that c] no by blast
  ultimately show ?thesis by blast
qed

theorem locked_out_for_good_witness:
  "\<not> (\<exists>path tok user w3. get_current_user demo_env demo_settings path tok
       (demo_world\<lparr>w_db := saved (change_status SUSPENDED 3 (Some ''spam'') ana) demo_db\<rparr>) = (Inr user, w3) \<and>
     u_id user = 1)"
proof -
  let ?u = "change_status SUSPENDED 3 (Some ''spam'') ana"
  let ?w = "demo_world\<lparr>w_db := saved ?u demo_db\<rparr>"
  have c: "constraints (w_db ?w)"
    by (simp add: saved_def commit_defs change_status_def)
  have a: "accounts (w_db ?w) 1 = Some ?u"
    using accounts_saved [of demo_db ?u ana] by (simp add: lawful_def, simp add: change_status_def)
  show ?thesis
    using locked_out_for_good [OF demo_jwt c a _ later.start, of demo_settings] by auto
qed

text \<open>
  C12. A refused login tells nothing about the accounts. When the password does not verify, the answer
  (and what Redis holds afterwards) is the same whether the identifier names no account, or an account
  with another password: two services that differ only in their database answer alike.
\<close>

theorem refused_login_uniform:
  assumes "wf_users (users (w_db w1))" and "wf_users (users (w_db w2))"
    and "w_redis w1 = w_redis w2" and "w_draws w1 = w_draws w2"
    and "rejects E p (by_identifier (py_lower (py_strip x)) (w_db w1))"
    and "rejects E p (by_identifier (py_lower (py_strip x)) (w_db w2))"
  shows "fst (serve E S (Login x p) w1) = fst (serve E S (Login x p) w2) \<and>
    w_redis (snd (serve E S (Login x p) w1)) = w_redis (snd (serve E S (Login x p) w2))"
proof (cases "x = [] \<or> p = []")
  case True
  then show ?thesis
    using assms(3,4)
    by (auto simp: serve_defs login_route_def required_text_def validated_def error_response_def
        problem_response_def bnd_apply)
next
  case False
  obtain y w' where r: "(refused_login E x (app_login_policy S) :: ('a, issued_session) op) (begun E w1) =
      (y, w'\<lparr>w_db := w_db w1, w_tx_now := w_tx_now (begun E w1)\<rparr>)"
    "(refused_login E x (app_login_policy S) :: ('a, issued_session) op) (begun E w2) =
      (y, w'\<lparr>w_db := w_db w2, w_tx_now := w_tx_now (begun E w2)\<rparr>)"
    using blind_same [OF blind_refused, of "begun E w1" "begun E w2" E x "app_login_policy S"] assms(3,4)
    by auto
  obtain e where y: "y = Inl e"
    using r(1) by (cases y) (auto simp: refused_login_def elim!: bnd_InrE)
  have "login E S x p (begun E w1) = (y, w'\<lparr>w_db := w_db w1, w_tx_now := w_tx_now (begun E w1)\<rparr>)"
    "login E S x p (begun E w2) = (y, w'\<lparr>w_db := w_db w2, w_tx_now := w_tx_now (begun E w2)\<rparr>)"
    using login_refused [of "begun E w1"] login_refused [of "begun E w2"] assms r by simp_all
  then show ?thesis
    using False y
    by (auto simp: serve_defs login_route_def required_text_def validated_def error_response_def
        problem_response_def bnd_Inl bnd_apply answer_def split: option.split)
qed

theorem refused_login_uniform_witness:
  "fst (serve demo_env demo_settings (Login ''ana@x.ar'' ''wrong'') demo_world) =
   fst (serve demo_env demo_settings (Login ''ana@x.ar'' ''wrong'') (demo_world\<lparr>w_db := empty_db\<rparr>))"
proof -
  have "rejects demo_env ''wrong'' (by_identifier (py_lower (py_strip ''ana@x.ar'')) demo_db)"
    by (simp add: rejects_def by_identifier_def commit_defs verify_password_def Let_def)
  moreover have "rejects demo_env ''wrong'' (by_identifier (py_lower (py_strip ''ana@x.ar'')) empty_db)"
    by (simp add: rejects_def by_identifier_def empty_db_def)
  moreover have "wf_users (users empty_db)" by (simp add: wf_users_def empty_db_def)
  ultimately show ?thesis
    using refused_login_uniform [of demo_world "demo_world\<lparr>w_db := empty_db\<rparr>" demo_env "''wrong''" "''ana@x.ar''" demo_settings]
    by simp
qed

end
