(* ===== verification/Lockout.thy ===== *)
theory Lockout
  imports Logins
begin

text \<open>
  The lockout of the doors. A counter of failures that reached its limit keeps its door closed until
  the window ends, whatever requests are served: every operation leaves the counter alone, except the
  door itself, which refuses before it gets to touch it.
\<close>

text \<open>The key of a failure counter, and that nothing else in the keyspace is called like it.\<close>

definition failure_key :: "string \<Rightarrow> bool" where
  "failure_key k \<longleftrightarrow> (\<exists>S x. k = policy_key (app_login_policy S) x \<or> k = policy_key (admin_login_policy S) x \<or>
     k = policy_key (current_password_policy S) x)"

text \<open>A key that only the doors and the revocation of single tokens write.\<close>

definition plain_key :: "string \<Rightarrow> bool" where
  "plain_key k \<longleftrightarrow> (\<forall>x. reset_request_key x \<noteq> k) \<and> (\<forall>v. feedback_limit_key v \<noteq> k) \<and>
     (\<forall>v. revoked_sessions_key v \<noteq> k)"

lemma failure_key_other:
  assumes "failure_key k"
  shows "plain_key k" "revoked_token_key j \<noteq> k"
  using assms
  by (auto simp: plain_key_def failure_key_def policy_key_def app_login_policy_def admin_login_policy_def
      current_password_policy_def reset_request_key_def feedback_limit_key_def revoked_sessions_key_def
      revoked_token_key_def)

lemma policy_keys_apart [simp]:
  "policy_key (app_login_policy S) x \<noteq> policy_key (admin_login_policy S') y"
  "policy_key (app_login_policy S) x \<noteq> policy_key (current_password_policy S') y"
  "policy_key (admin_login_policy S) x \<noteq> policy_key (current_password_policy S') y"
  "policy_key (admin_login_policy S') y \<noteq> policy_key (app_login_policy S) x"
  "policy_key (current_password_policy S') y \<noteq> policy_key (app_login_policy S) x"
  "policy_key (current_password_policy S') y \<noteq> policy_key (admin_login_policy S) x"
  by (simp_all add: policy_key_def app_login_policy_def admin_login_policy_def current_password_policy_def)

text \<open>
  \<open>counting E k F\<close>: what the counter \<open>k\<close> will show from now on, as far as it is left alone. It is
  said of the instants to come, so an expiry is part of it.
\<close>

definition counting :: "'r env \<Rightarrow> string \<Rightarrow> (time \<Rightarrow> int option \<Rightarrow> bool) \<Rightarrow> 'r world \<Rightarrow> bool" where
  "counting E k F w \<longleftrightarrow> (\<forall>t \<ge> instant E w. F t (live_marks E w t k))"

text \<open>Until \<open>d\<close> the counter holds \<open>N\<close> marks or more.\<close>

definition shut :: "int \<Rightarrow> time \<Rightarrow> time \<Rightarrow> int option \<Rightarrow> bool" where
  "shut N d t m \<longleftrightarrow> (t < d \<longrightarrow> (\<exists>n \<ge> N. m = Some n))"

text \<open>
  A logout leaves the key alone when the token it is given has another id, or when it writes the mark of
  a token that expires no earlier.
\<close>

definition safe_logout :: "'r env \<Rightarrow> string \<Rightarrow> (time \<Rightarrow> int option \<Rightarrow> bool) \<Rightarrow> string \<Rightarrow> bool" where
  "safe_logout E k F token \<longleftrightarrow>
     (\<forall>iss t c j. e_jwt_decode E token iss t = Inr c \<longrightarrow> c_jti c = Some j \<longrightarrow> revoked_token_key j \<noteq> k \<or>
        (\<exists>N d. F = shut N d \<and> N \<le> 1 \<and> (\<forall>e. c_exp c = Some e \<longrightarrow> d \<le> seconds e - 999999)))"

lemma safe_logout_failure: "failure_key k \<Longrightarrow> safe_logout E k F token"
  by (simp add: safe_logout_def failure_key_other)

lemma whole_seconds_close: "t \<le> seconds (whole_seconds t) + 999999"
proof -
  have "t mod 1000000 < 1000000" "0 \<le> (- t) mod 1000000" by simp_all
  with div_mult_mod_eq [of t 1000000] div_mult_mod_eq [of "- t" 1000000] show ?thesis
    unfolding whole_seconds_def by (smt (verit))
qed

text \<open>
  A door spares the counter when it keeps another one, or when the counter is full: then the door
  refuses before it counts or resets anything.
\<close>

definition safe_door :: "string \<Rightarrow> (time \<Rightarrow> int option \<Rightarrow> bool) \<Rightarrow> login_policy \<Rightarrow> string \<Rightarrow> bool" where
  "safe_door k F policy x \<longleftrightarrow>
     policy_key policy x \<noteq> k \<or> (\<exists>N d. F = shut N d \<and> lp_max_attempts policy \<le> N)"

lemma counting_db [simp]:
  "counting E k F (w\<lparr>w_db := x\<rparr>) = counting E k F w"
  "counting E k F (w\<lparr>w_tx_now := t\<rparr>) = counting E k F w"
  by (simp_all add: counting_def live_marks_def)

lemma preserves_counting_db: "preserves (counting E k F) (modify_db f)"
  by (simp add: preserves_def)

context service_env
begin

abbreviation spares :: "string \<Rightarrow> (time \<Rightarrow> int option \<Rightarrow> bool) \<Rightarrow> ('r, 'a) op \<Rightarrow> bool" where
  "spares k F m \<equiv> preserves (counting E k F) m"

lemma counting_later:
  assumes "counting E k F w" and "instant E w \<le> instant E w'"
    and "\<And>t. instant E w' \<le> t \<Longrightarrow> live_marks E w' t k = live_marks E w t k"
  shows "counting E k F w'"
  using assms by (simp add: counting_def)

lemma sp_wait: "counting E k F w \<Longrightarrow> w_draws w \<le> n \<Longrightarrow> counting E k F (w\<lparr>w_draws := n\<rparr>)"
  by (erule counting_later) (simp_all add: clock_mono live_marks_def)

lemma sp_draw: "spares k F (draw f)"
  by (simp add: preserves_def sp_wait)

lemma sp_draws:
  "spares k F (now_utc E)" "spares k F (uuid4 E)" "spares k F (token_urlsafe E n)"
  unfolding now_utc_def uuid4_def token_urlsafe_def by (rule sp_draw)+

lemma sp_cmd:
  assumes "confined f k'" and "k' \<noteq> k"
  shows "spares k F (redis_cmd E f)"
  unfolding preserves_def
proof (intro allI impI)
  fix w assume w: "counting E k F w"
  obtain x w' where c: "redis_cmd E f w = (x, w')" by fastforce
  have "counting E k F w'"
  proof (rule counting_later [OF w cmd_clk [OF c]])
    fix t assume "instant E w' \<le> t"
    then show "live_marks E w' t k = live_marks E w t k"
      using confined_later [OF assms(1) c, of k t] assms(2) cmd_clk [OF c] by (simp add: live_marks_def)
  qed
  with c show "counting E k F (after (redis_cmd E f w))" by simp
qed

lemma sp_count: "spares k F (count_marks E k')"
  unfolding preserves_def
proof (intro allI impI)
  fix w assume w: "counting E k F w"
  obtain x w' where c: "count_marks E k' w = (x, w')" by fastforce
  have "instant E w \<le> instant E w'" using count_marks_run [OF c] by blast
  moreover have "live_marks E w' t k = live_marks E w t k" if "instant E w' \<le> t" for t
    using count_marks_run [OF c, of t k] calculation that by (simp add: live_marks_def)
  ultimately have "counting E k F w'" using counting_later [OF w] by blast
  with c show "counting E k F (after (count_marks E k' w))" by simp
qed

lemma sp_hit: "k' \<noteq> k \<Longrightarrow> spares k F (hit E k' n)"
  unfolding hit_def by (intro preserves_intro sp_cmd [OF confined_incr] sp_cmd [OF confined_expire])

lemma sp_reset: "k' \<noteq> k \<Longrightarrow> spares k F (reset_marks E k')"
  unfolding reset_marks_def by (intro preserves_intro sp_cmd [OF confined_delete])

lemma sp_exists: "spares k F (redis_cmd E (rd_exists (e_redis E) k'))"
  unfolding preserves_def
proof (intro allI impI)
  fix w assume w: "counting E k F w"
  obtain x w' where c: "redis_cmd E (rd_exists (e_redis E) k') w = (x, w')" by fastforce
  then obtain a r' where f: "rd_exists (e_redis E) k' (instant E w) (w_redis w) = (a, r')"
    and w': "w' = w\<lparr>w_redis := r', w_draws := Suc (w_draws w)\<rparr>" by (rule cmd_any)
  have "live_marks E w' t k = live_marks E w t k" if "instant E w' \<le> t" for t
    using live_later [of r' "instant E w" k "w_redis w" t] exists_keeps [OF f] cmd_clk [OF c] that w'
    by (simp add: live_marks_def)
  with counting_later [OF w cmd_clk [OF c]] c show "counting E k F (after (redis_cmd E (rd_exists (e_redis E) k') w))"
    by simp
qed

lemma sp_sessions:
  assumes "plain_key k"
  shows "spares k F (revoke_sessions E i now ttl)"
    "spares k F (is_token_revoked E j)" "spares k F (revoked_before E i)"
    "spares k F (hit E (reset_request_key x) n)" "spares k F (hit E (feedback_limit_key i) n)"
  unfolding revoke_sessions_def is_token_revoked_def revoked_before_def
  using assms
  by (intro preserves_intro sp_cmd [OF confined_set] sp_exists sp_cmd [OF confined_get]
      sp_hit; simp add: plain_key_def)+

lemmas sp_basic = sp_draw sp_draws sp_count preserves_counting_db preserves_intro

lemma sp_layer:
  "spares k F (loaded row)"
  "spares k F (users_add E a)" "spares k F (users_get i)"
  "spares k F (users_find_by_identifier x)" "spares k F (users_find_by_email x)"
  "spares k F users_list_administrators" "spares k F (users_count st)"
  "spares k F (users_exists_with_email_or_handle x y)" "spares k F (users_save v)"
  "spares k F (verification_tokens_add E vt)" "spares k F (verification_tokens_find_by_hash h)"
  "spares k F (verification_tokens_mark_used ti now)"
  "spares k F (reset_tokens_add E pt)" "spares k F (reset_tokens_find_by_hash h)"
  "spares k F (reset_tokens_mark_all_used i now)"
  "spares k F (refresh_tokens_add E rt)" "spares k F (refresh_tokens_find_by_hash h)"
  "spares k F (refresh_tokens_consume h now)" "spares k F (refresh_tokens_revoke_family f now)"
  "spares k F (refresh_tokens_revoke_all i now)"
  "spares k F (outbox_add ev)" "spares k F (feedback_add fb)" "spares k F (audit_add ae)"
  "spares k F (audit_list_page lim off)"
  "spares k F (hash_password E p)"
  "spares k F (generate_emailed_token E)" "spares k F (generate_refresh_token E)"
  "spares k F (generate_temporary_password E)"
  "spares k F (issue_access_token E sub role h vis m iss tm)"
  "spares k F (decode_access_token E tok iss)"
  "spares k F (build_event E ty data now)"
  unfolding repository_defs users_get_def users_find_by_identifier_def users_find_by_email_def
    users_list_administrators_def users_count_def users_exists_with_email_or_handle_def users_save_def
    loaded_def hash_password_def generate_emailed_token_def generate_refresh_token_def
    generate_temporary_password_def issue_access_token_def decode_access_token_def build_event_def
  by (rule sp_basic | assumption)+

lemma sp_events:
  "spares k F (user_registered E a url now)" "spares k F (email_verification_requested E a url now)"
  "spares k F (password_reset_requested E a tok now)" "spares k F (password_changed E a now)"
  "spares k F (user_deleted E a now)" "spares k F (preferences_changed E a now)"
  "spares k F (feedback_submitted E f)"
  unfolding event_constructors by (rule sp_layer)+

lemma sp_guards:
  assumes "plain_key k"
  shows "spares k F (deny_blocked_account a t)"
  "spares k F (deny_expired_temporary_password E a t)"
  "spares k F (guard_lockout E x p)"
  "spares k F (guard_current_password E x p)"
  "spares k F (guard_reset_limit E S x)"
  "spares k F (guard_limit E a)"
  "spares k F (require_superadmin a)"
  "spares k F (require_administrator a)"
  "spares k F (require_internal_token S tok)"
  "spares k F (deny_email_outside_the_authorized_domain S x)"
  "spares k F (validated v)"
  "spares k F (answer n b)"
  "spares k F (issue_verification_token E S a now)"
  "spares k F (issue_session E S a)"
  "spares k F (issue_refresh_token E S a f now)"
  "spares k F (revoke_refresh_family E raw owner)"
  "spares k F (refuse_refresh_token E S h now)"
  "spares k F (audit_administrator i)"
  "spares k F (audit_record E i ac t2 j det)"
  unfolding deny_blocked_account_def deny_expired_temporary_password_def guard_lockout_def
    guard_current_password_def guard_reset_limit_def guard_limit_def require_superadmin_def
    require_administrator_def require_internal_token_def deny_email_outside_the_authorized_domain_def
    validated_def answer_def issue_verification_token_def issue_session_def issue_refresh_token_def
    revoke_refresh_family_def refuse_refresh_token_def audit_administrator_def audit_record_def Let_def
  by (rule assms sp_sessions sp_layer sp_basic | assumption)+

text \<open>Marking a token revoked keeps a mark that is to last no longer than the token.\<close>

lemma sp_mark:
  assumes "counting E k (shut N d) w" and "revoke_token E j (seconds e) now w = (x, w')"
    and "now \<le> instant E w" and "revoked_token_key j \<noteq> k \<or> N \<le> 1 \<and> d \<le> seconds e - 999999"
  shows "counting E k (shut N d) w'"
proof (cases "revoked_token_key j = k")
  case False
  have "spares k (shut N d) (revoke_token E j (seconds e) now)"
    unfolding revoke_token_def Let_def by (rule sp_cmd [OF confined_set False])
  from preservesD [OF this assms(1)] assms(2) show ?thesis by simp
next
  case True
  let ?ttl = "whole_seconds (seconds e - now)"
  have c: "redis_cmd E (rd_set_ex (e_redis E) k 1 ?ttl) w = (x, w')"
    using assms(2) True by (simp add: revoke_token_def)
  then obtain a r' where f: "rd_set_ex (e_redis E) k 1 ?ttl (instant E w) (w_redis w) = (a, r')"
    and w': "w' = w\<lparr>w_redis := r', w_draws := Suc (w_draws w)\<rparr>" by (rule cmd_any)
  have "d \<le> instant E w + seconds ?ttl"
    using assms(3,4) True whole_seconds_close [of "seconds e - now"] by linarith
  moreover have "rd_live (e_redis E) r' (instant E w) k = rd_live (e_redis E) (w_redis w) (instant E w) k \<or>
      rd_live (e_redis E) r' (instant E w) k = Some (1, Some (instant E w + seconds ?ttl))"
    using set_raises [of k 1 ?ttl "instant E w" "w_redis w" r'] set_effect [of k 1 ?ttl "instant E w" "w_redis w" _ r'] f
    by (cases a) auto
  moreover have "live_marks E w t k = None \<or> live_marks E w' t k = live_marks E w t k"
    if "rd_live (e_redis E) r' (instant E w) k = rd_live (e_redis E) (w_redis w) (instant E w) k"
      "instant E w \<le> t" for t
    using live_later [OF that] w' by (simp add: live_marks_def)
  moreover have "live_marks E w' t k = Some 1"
    if "rd_live (e_redis E) r' (instant E w) k = Some (1, Some b)" "instant E w \<le> t" "t < b" for t b
    using live_ages [OF that(2), of r' k] that w' by (simp add: live_marks_def aged_def alive_at_def)
  ultimately show ?thesis
    using assms(1,4) True cmd_clk [OF c] unfolding counting_def shut_def
    by (smt (verit, ccfv_threshold) option.distinct(1))
qed

lemma sp_methods:
  assumes "plain_key k"
  shows "spares k F (register E S em h p)"
  "spares k F (verify_email E raw)"
  "spares k F (resend_verification E S em)"
  "spares k F (refresh E S raw)"
  "spares k F (get_current_user E S path tok)"
  "spares k F (forgot_password E S x)"
  "spares k F (reset_password E S raw q)"
  "spares k F (block E S a i r)"
  "spares k F (put_under_review E S i)"
  "spares k F (lift_review E i)"
  "spares k F (create_administrator E S i em h ro)"
  "spares k F (reset_temporary_password E i j)"
  "spares k F list_administrators"
  "spares k F (account_detail i)"
  "spares k F account_metrics"
  "spares k F (update_profile a pc)"
  "spares k F (public_profile i)"
  "spares k F (update_preferences E a prc)"
  "spares k F (submit E a m dev v)"
  "spares k F (problem_response E path prob)"
  "spares k F (error_response E path e)"
  unfolding register_def verify_email_def resend_verification_def refresh_def
    get_current_user_def forgot_password_def reset_password_def block_def put_under_review_def
    lift_review_def create_administrator_def reset_temporary_password_def list_administrators_def
    account_detail_def account_metrics_def update_profile_def public_profile_def update_preferences_def
    submit_def problem_response_def error_response_def Let_def
  by (rule assms sp_guards [OF assms] sp_sessions sp_events sp_layer sp_basic preserves_jwt_error | assumption)+

text \<open>The mark of a logout, which may be the very key when the logout is a safe one.\<close>

lemma sp_marking:
  assumes key: "plain_key k" and safe: "safe_logout E k F token"
    and dec: "e_jwt_decode E token iss t = Inr c" "c_jti c = Some j" "c_exp c = Some e"
    and f: "\<And>u. spares k F (f u)"
  shows "spares k F (bnd (now_utc E) (\<lambda>now. bnd (revoke_token E j (seconds e) now) f))"
  unfolding preserves_def
proof (intro allI impI)
  fix w assume w: "counting E k F w"
  let ?w = "w\<lparr>w_draws := Suc (w_draws w)\<rparr>" and ?now = "instant E w"
  have w1: "counting E k F ?w" using sp_wait [OF w, of "Suc (w_draws w)"] by simp
  have now: "?now \<le> instant E ?w" by (simp add: clock_mono)
  obtain x w' where r: "revoke_token E j (seconds e) ?now ?w = (x, w')" by fastforce
  have w': "counting E k F w'"
  proof (cases "revoked_token_key j = k")
    case True
    then obtain N d where "F = shut N d" "N \<le> 1" "d \<le> seconds e - 999999"
      using safe dec unfolding safe_logout_def by blast
    with sp_mark [of k N d, OF _ r now] w1 show ?thesis by simp
  next
    case False
    have "spares k F (revoke_token E j (seconds e) ?now)"
      unfolding revoke_token_def Let_def by (rule sp_cmd [OF confined_set False])
    from preservesD [OF this w1] r show ?thesis by simp
  qed
  then show "counting E k F (after (bnd (now_utc E) (\<lambda>now. bnd (revoke_token E j (seconds e) now) f) w))"
    using r preservesD [OF f w'] by (cases x) (simp_all add: bnd_apply bnd_def)
qed

lemma sp_logout:
  assumes key: "plain_key k" and safe: "safe_logout E k F token"
  shows "spares k F (logout E S token raw)"
proof -
  note rules = sp_guards [OF key] sp_sessions [OF key] sp_layer sp_basic
  show ?thesis
    unfolding preserves_def
  proof (intro allI impI)
    fix w assume w: "counting E k F w"
    let ?w = "w\<lparr>w_draws := Suc (w_draws w)\<rparr>"
    have w1: "counting E k F ?w" using sp_wait [OF w, of "Suc (w_draws w)"] by simp
    show "counting E k F (after (logout E S token raw w))"
    proof (cases "e_jwt_decode E token (jwt_issuer S) (instant E w)")
      case (Inl e)
      with preservesD [OF sp_guards(16) [OF key] w1, of raw None] w1 show ?thesis
        by (cases e) (simp_all add: logout_def decode_access_token_def bnd_assoc bnd_apply)
    next
      case (Inr c)
      have "spares k F (bnd (subscript (c_jti c)) (\<lambda>jti. bnd (subscript (c_exp c)) (\<lambda>exp.
          bnd (now_utc E) (\<lambda>now. bnd (revoke_token E jti (seconds exp) now) (\<lambda>_.
          bnd (subscript (c_sub c)) (\<lambda>sub. case uuid_parse sub of None \<Rightarrow> raise ValueError
            | Some owner \<Rightarrow> revoke_refresh_family E raw (Some owner)))))))"
        (is "spares k F ?m")
      proof (cases "c_jti c = None \<or> c_exp c = None")
        case True
        then show ?thesis by (cases "c_jti c") (auto simp: preserves_def)
      next
        case False
        then obtain j e where je: "c_jti c = Some j" "c_exp c = Some e" by auto
        show ?thesis
          unfolding je subscript_simps bnd_ret by (rule sp_marking [OF key safe Inr je] rules | assumption)+
      qed
      from preservesD [OF this w1] Inr show ?thesis
        by (simp add: logout_def decode_access_token_def bnd_assoc bnd_apply)
    qed
  qed
qed

section \<open>The doors\<close>

lemma sp_guarded:
  assumes safe: "safe_door k F policy x"
    and other: "policy_key policy x \<noteq> k \<Longrightarrow> spares k F (f ())"
    and time: "\<And>n u. preserves (\<lambda>w. n \<le> w_draws w) (f u)"
  shows "spares k F (bnd (bnd (count_marks E (policy_key policy x))
    (\<lambda>c. if lp_max_attempts policy \<le> c then raise e else skip)) f)"
proof (cases "policy_key policy x = k")
  case False
  have "spares k F (bnd (count_marks E (policy_key policy x))
      (\<lambda>c. if lp_max_attempts policy \<le> c then raise e else skip))"
    by (rule sp_basic)+
  from preserves_bnd [OF this, of f] other [OF False] show ?thesis by simp
next
  case True
  then obtain N d where F: "F = shut N d" and max: "lp_max_attempts policy \<le> N"
    using safe by (auto simp: safe_door_def)
  show ?thesis
    unfolding preserves_def True
  proof (intro allI impI)
    fix w assume w: "counting E k F w"
    let ?m = "bnd (bnd (count_marks E k) (\<lambda>c. if lp_max_attempts policy \<le> c then raise e else skip)) f"
    obtain y w' where c: "count_marks E k w = (y, w')" by fastforce
    have w': "counting E k F w'" using preservesD [OF sp_count w, of k] c by simp
    show "counting E k F (after (?m w))"
    proof (cases "instant E w < d")
      case True
      then obtain n where n: "N \<le> n" "live_marks E w (instant E w) k = Some n"
        using w by (auto simp: counting_def F shut_def)
      then have "y = Inr c' \<Longrightarrow> c' = n" for c' using count_marks_run [OF c] by simp
      with n(1) max c w' show ?thesis by (cases y) (simp_all add: bnd_def)
    next
      case False
      have "preserves (\<lambda>v. w_draws w \<le> w_draws v) ?m"
        unfolding count_marks_def by (rule time adv_rules)+
      then have "w_draws w \<le> w_draws (after (?m w))" by (rule preservesD) simp
      then have "d \<le> instant E (after (?m w))"
        using clock_mono [of "w_draws w" "w_draws (after (?m w))"] False by linarith
      then show ?thesis by (simp add: counting_def F shut_def)
    qed
  qed
qed

lemmas adv_unfold =
  users_get_def users_save_def users_find_by_identifier_def users_find_by_email_def loaded_def
  repository_defs event_constructors build_event_def hash_password_def issue_session_def
  issue_access_token_def issue_refresh_token_def generate_refresh_token_def
  deny_blocked_account_def deny_expired_temporary_password_def register_failure_def
  hit_def reset_marks_def reset_current_password_def revoke_sessions_def

lemma bnd_assoc_door:
  "bnd (bnd (bnd (count_marks E key) g) h) f = bnd (bnd (count_marks E key) g) (\<lambda>x. bnd (h x) f)"
  by (rule bnd_assoc)

lemma sp_doors:
  assumes key: "plain_key k"
  shows "safe_door k F (app_login_policy S) x \<Longrightarrow> spares k F (login E S x p)"
    "safe_door k F (admin_login_policy S) x \<Longrightarrow> spares k F (admin_login E S x p)"
    "(\<And>y. safe_door k F (current_password_policy S) y) \<Longrightarrow> spares k F (change_password E S a p q)"
    "(\<And>y. safe_door k F (current_password_policy S) y) \<Longrightarrow> spares k F (delete_account E S a p)"
proof -
  note rest = sp_hit sp_reset sp_guards [OF key] sp_sessions [OF key] sp_events sp_layer sp_basic
  show "spares k F (login E S x p)" if "safe_door k F (app_login_policy S) x"
    unfolding login_def guard_lockout_def register_failure_def Let_def
    by (rule sp_guarded [OF that], (rule rest | assumption)+, unfold adv_unfold, (rule adv_rules)+)
  show "spares k F (admin_login E S x p)" if "safe_door k F (admin_login_policy S) x"
    unfolding admin_login_def guard_lockout_def register_failure_def Let_def
    by (rule sp_guarded [OF that], (rule rest | assumption)+, unfold adv_unfold, (rule adv_rules)+)
  show "spares k F (change_password E S a p q)" if "\<And>y. safe_door k F (current_password_policy S) y"
    unfolding change_password_def verify_current_password_def guard_current_password_def
      reset_current_password_def Let_def bnd_assoc_door
    by (rule sp_guarded [OF that], (rule rest | assumption | (simp; fail))+, unfold adv_unfold, (rule adv_rules)+)
  show "spares k F (delete_account E S a p)" if "\<And>y. safe_door k F (current_password_policy S) y"
    unfolding delete_account_def verify_current_password_def guard_current_password_def Let_def bnd_assoc_door
    by (rule preserves_if, rule preserves_raise, rule sp_guarded [OF that], (rule rest | assumption)+,
        unfold adv_unfold, (rule adv_rules)+)
qed

end

text \<open>The policy and the identifier of the login a request is, once its body is validated.\<close>

fun door :: "'r env \<Rightarrow> settings \<Rightarrow> request \<Rightarrow> (login_policy \<times> string) option" where
  "door E S (Login x p) = (if x = [] \<or> p = [] then None else Some (app_login_policy S, x))"
| "door E S (AdminLogin x p) =
     (if p = [] then None else map_option (Pair (admin_login_policy S)) (e_validate_email E x))"
| "door E S _ = None"

text \<open>No door the request may pass touches the counter.\<close>

definition safe_request ::
  "'r env \<Rightarrow> settings \<Rightarrow> string \<Rightarrow> (time \<Rightarrow> int option \<Rightarrow> bool) \<Rightarrow> request \<Rightarrow> bool" where
  "safe_request E S k F req \<longleftrightarrow> plain_key k \<and>
     (\<forall>token raw. req = Logout token raw \<longrightarrow> safe_logout E k F token) \<and>
     (\<forall>y. safe_door k F (current_password_policy S) y) \<and>
     (\<forall>policy x. door E S req = Some (policy, x) \<longrightarrow> safe_door k F policy x)"

context service_env
begin

lemma sp_refresh_or_answer:
  assumes "plain_key k"
  shows "spares k F (refresh_or_answer E S path raw)"
  unfolding preserves_def
proof (intro allI impI)
  fix w assume w: "counting E k F w"
  obtain x w' where r: "refresh E S raw w = (x, w')" by fastforce
  have w': "counting E k F w'" using preservesD [OF sp_methods(4) [OF assms] w, of S raw] r by simp
  show "counting E k F (after (refresh_or_answer E S path raw w))"
    using r w' preservesD [OF sp_methods(20) [OF assms] w']
    by (auto simp: refresh_or_answer_def answer_def split: sum.split exn.split)
qed

lemma sp_search: "spares k F (search E q viewer cursor)" "spares k F (search_accounts q cursor)"
  by (intro preserves_search sp_draw preserves_intro)+

lemma sp_scope: "spares k F m \<Longrightarrow> spares k F (session_scope E m)"
  unfolding preserves_def
proof (intro allI impI)
  fix w assume m: "\<forall>w. counting E k F w \<longrightarrow> counting E k F (after (m w))" and w: "counting E k F w"
  have "counting E k F (begun E w)"
    using sp_wait [of k F "w\<lparr>w_tx_now := instant E w\<rparr>" "Suc (w_draws w)"] w by simp
  with m have "counting E k F (after (m (begun E w)))" by blast
  then show "counting E k F (after (session_scope E m w))"
    by (auto simp: session_scope_def Let_def split: prod.split sum.split)
qed

lemma sp_background: "spares k F (handle_event E message)" "spares k F (seed_run E S)"
  unfolding handle_event_def seed_run_def ensure_superadmin_def Let_def
  by (rule sp_scope sp_layer sp_basic | assumption)+

lemma sp_login_routes:
  assumes "safe_request E S k F req"
  shows "req = Login x p \<Longrightarrow> spares k F (route E S req)" "req = AdminLogin x p \<Longrightarrow> spares k F (route E S req)"
proof -
  have key: "plain_key k" using assms by (simp add: safe_request_def)
  note rules = sp_guards [OF key] sp_basic
  show "spares k F (route E S req)" if req: "req = Login x p"
  proof (cases "x = [] \<or> p = []")
    case True
    then show ?thesis by (auto simp: req route.simps login_route_def required_text_def validated_def preserves_def)
  next
    case False
    then have "safe_door k F (app_login_policy S) x" using assms req by (simp add: safe_request_def)
    note door = sp_doors(1) [OF key this]
    show ?thesis using False
      by (simp add: req route.simps login_route_def required_text_def validated_def preserves_bnd door rules)
  qed
  show "spares k F (route E S req)" if req: "req = AdminLogin x p"
  proof (cases "p = [] \<or> e_validate_email E x = None")
    case True
    then show ?thesis
      by (auto simp: req route.simps admin_login_route_def required_text_def validated_def preserves_def
          bnd_def split: option.split)
  next
    case False
    then obtain y where y: "e_validate_email E x = Some y" by blast
    then have "safe_door k F (admin_login_policy S) y" using assms req False by (simp add: safe_request_def)
    note door = sp_doors(2) [OF key this]
    show ?thesis using False y
      by (simp add: req route.simps admin_login_route_def required_text_def validated_def)
         (rule door rules)+
  qed
qed

lemma sp_route:
  assumes "safe_request E S k F req"
  shows "spares k F (route E S req)"
proof -
  have key: "plain_key k" and cur: "\<And>y. safe_door k F (current_password_policy S) y"
    using assms by (simp_all add: safe_request_def)
  note rules = sp_refresh_or_answer [OF key] sp_doors(3,4) [OF key cur] sp_methods [OF key]
    sp_guards [OF key] sp_search sp_layer sp_basic
  have out: "spares k F (logout_route E S token raw)" if "req = Logout token raw" for token raw
    using assms that unfolding logout_route_def safe_request_def
    by (intro preserves_bnd sp_logout [OF key] sp_guards [OF key]) blast
  show ?thesis
    by (cases req; (erule sp_login_routes [OF assms]; fail)?; simp only: route.simps,
        ((erule out; fail) | (unfold route_defs, (rule rules | assumption)+)))
qed

lemma sp_serve:
  assumes "safe_request E S k F req" and "counting E k F w"
  shows "counting E k F (snd (serve E S req w))"
proof -
  have key: "plain_key k" using assms by (simp add: safe_request_def)
  obtain x w' where r: "session_scope E (route E S req) w = (x, w')" by fastforce
  have w': "counting E k F w'"
    using preservesD [OF sp_scope [OF sp_route [OF assms(1)]] assms(2)] r by simp
  show ?thesis
    using r w' preservesD [OF sp_methods(21) [OF key] w']
    by (auto simp: serve_def split: sum.splits prod.splits) (metis after_pair)+
qed

lemma sp_kept:
  assumes "later E S w w'" and "\<And>req. safe_request E S k F req" and "counting E k F w"
  shows "counting E k F w'"
  using assms
  by (induction rule: later.induct)
     (auto simp: snd_settle snd_seed_main intro: sp_serve sp_wait preservesD [OF sp_background(1)]
       preservesD [OF sp_background(2)])

end

section \<open>Inside a door\<close>

definition unauthorized :: "exn option \<Rightarrow> bool" where
  "unauthorized x \<longleftrightarrow> (\<exists>e p. x = Some e \<and> problem_of e = Some p \<and> p_status p = 401)"

lemma never_unauthorized:
  "never unauthorized (redis_cmd E c)"
  "never unauthorized (not_none v)"
  "never unauthorized (loaded row)"
  by (auto simp: never_def unauthorized_def redis_cmd_def loaded_def not_none_def split: prod.splits option.splits)

lemma opened_never_unauthorized:
  "never unauthorized (deny_blocked_account a t)"
  "never unauthorized (deny_expired_temporary_password E a t)"
  "never unauthorized (reset_marks E k)"
  "never unauthorized (issue_session E S a)"
  "never unauthorized (issue_refresh_token E S a f now)"
  unfolding deny_blocked_account_def deny_expired_temporary_password_def reset_marks_def
    issue_session_def issue_access_token_def issue_refresh_token_def generate_refresh_token_def
    repository_defs
  by (rule never_rules never_bnd never_unauthorized | assumption
      | (simp add: unauthorized_def Problem_def; fail))+

text \<open>
  The route of a login is its guard and what follows when it lets the attempt through. Only a
  counted failure is answered with 401, and a login that returns is answered with 200.
\<close>

definition attempt :: "'r env \<Rightarrow> string \<Rightarrow> int \<Rightarrow> ('r, response) op \<Rightarrow> bool" where
  "attempt E k s m \<longleftrightarrow>
     (\<forall>w e w'. m w = (Inl e, w') \<longrightarrow> unauthorized (Some e) \<longrightarrow> (\<exists>n. hit E k s w = (Inr n, w'))) \<and>
     (\<forall>w r w'. m w = (Inr r, w') \<longrightarrow> r_status r = 200)"

definition opened :: "('r, response) op \<Rightarrow> bool" where
  "opened m \<longleftrightarrow> never unauthorized m \<and> (\<forall>w r w'. m w = (Inr r, w') \<longrightarrow> r_status r = 200)"

lemma opened_rules:
  "opened (answer 200 b)"
  "\<not> unauthorized (Some e) \<Longrightarrow> opened (raise e)"
  "never unauthorized m \<Longrightarrow> (\<And>x. opened (f x)) \<Longrightarrow> opened (bnd m f)"
  "opened m1 \<Longrightarrow> opened m2 \<Longrightarrow> opened (if c then m1 else m2)"
  "(\<And>y z. opened (h y z)) \<Longrightarrow> opened (case pr of (y, z) \<Rightarrow> h y z)"
  unfolding opened_def
  by (auto intro: never_rules never_bnd elim!: bnd_InrE simp: answer_def split: prod.split)

lemma attempt_opened: "opened m \<Longrightarrow> attempt E k s m"
  by (auto simp: attempt_def opened_def never_def)

lemma attempt_failure: "attempt E k s (bnd (bnd (bnd (hit E k s) (\<lambda>_. skip)) (\<lambda>_. raise e)) f)"
  unfolding attempt_def bnd_assoc [of _ "\<lambda>_. raise e"] bnd_raise
  by (auto simp: hit_def unauthorized_def elim!: bnd_InlE bnd_InrE split: if_splits)
     (auto simp: redis_cmd_def bnd_def split: prod.splits option.splits)

lemma attempt_read:
  assumes "\<And>x. attempt E k s (f x)"
  shows "attempt E k s (bnd (users_find_by_identifier i) f)" "attempt E k s (bnd (users_find_by_email i) f)"
  using assms
  by (auto simp: attempt_def users_find_by_identifier_def users_find_by_email_def loaded_def bnd_apply
      bnd_assoc unauthorized_def split: option.splits)

lemma attempt_if: "(b \<Longrightarrow> attempt E k s m) \<Longrightarrow> (\<not> b \<Longrightarrow> attempt E k s m') \<Longrightarrow> attempt E k s (if b then m else m')"
  by simp

lemmas attempt_rules =
  attempt_read attempt_if attempt_failure attempt_opened opened_rules opened_never_unauthorized
  never_unauthorized never_rules never_bnd

lemma door_route:
  assumes "door E S req = Some (policy, x)"
  shows "\<exists>m. route E S req = bnd (guard_lockout E x policy) (\<lambda>_. m) \<and>
    attempt E (policy_key policy x) (window_seconds policy) m"
  using assms
proof (cases rule: door.cases [of "(E, S, req)"])
  case (1 E' S' y p)
  then have req: "req = Login y p" "policy = app_login_policy S" "x = y" "y \<noteq> []" "p \<noteq> []"
    using assms by (simp_all split: if_splits)
  then have r: "route E S req = bnd (login E S x p) (\<lambda>s. answer 200 (session_body s))"
    by (simp add: route.simps login_route_def required_text_def validated_def)
  show ?thesis
    unfolding r req(2) login_def Let_def
    by (rule exI, rule conjI, rule bnd_assoc,
        unfold bnd_assoc [of "users_find_by_identifier _"] bnd_branches(1)
          register_failure_def,
        (rule attempt_rules | (simp add: unauthorized_def Problem_def; fail))+)
next
  case (2 E' S' y p)
  then have req: "req = AdminLogin y p" "policy = admin_login_policy S" "e_validate_email E y = Some x" "p \<noteq> []"
    using assms by (auto split: if_splits)
  then have r: "route E S req = bnd (admin_login E S x p) (\<lambda>(token, expires_in, must_change_password).
      answer 200 (LoginResponse
       \<lparr> lr_access_token = token, lr_token_type = ''bearer'', lr_expires_in = expires_in,
         lr_refresh_token = None, lr_must_change_password = must_change_password \<rparr>))"
    by (simp add: route.simps admin_login_route_def required_text_def validated_def)
  show ?thesis
    unfolding r req(2) admin_login_def Let_def
    by (rule exI, rule conjI, rule bnd_assoc,
        unfold bnd_assoc [of "users_find_by_email _"] bnd_branches(1)
          register_failure_def,
        (rule attempt_rules | (simp add: unauthorized_def Problem_def; fail))+)
qed (use assms in simp_all)

section \<open>A request at a door\<close>

lemma serve_outcome:
  assumes "serve E S req w = (r, w')" and "route E S req (begun E w) = (x, w1)"
  shows "(x = Inr r \<and> w' = w1) \<or>
    (r_status r = 500 \<and> w' = w1\<lparr>w_db := w_db w\<rparr>) \<or>
    (\<exists>e p. x = Inl e \<and> (problem_of e = Some p \<or> e = RequestValidationError \<and> p = validation_failed) \<and>
       r_status r = p_status p \<and> w' = w1\<lparr>w_db := w_db w, w_draws := Suc (w_draws w1)\<rparr>)"
  using assms
  by (cases x)
     (auto simp: serve_def session_scope_def Let_def error_response_def problem_response_def answer_def
        bnd_apply split: option.splits if_splits)

lemma guard_lockout_counted:
  assumes "guard_lockout E x policy w = (Inr u, w')"
  shows "\<exists>c. count_marks E (policy_key policy x) w = (Inr c, w') \<and> c < lp_max_attempts policy"
  using assms by (auto simp: guard_lockout_def elim!: bnd_InrE split: if_splits)

lemma guard_lockout_raised:
  assumes "guard_lockout E x policy w = (Inl e, w')"
  shows "e = RedisError \<or> e = ProblemError (too_many_attempts policy)"
  using assms
  by (auto simp: guard_lockout_def count_marks_def bnd_assoc bnd_redis split: prod.splits option.splits if_splits)

lemma too_many_not_unauthorized [simp]: "\<not> unauthorized (Some (ProblemError (too_many_attempts p)))"
  by (simp add: unauthorized_def too_many_attempts_def)

lemma door_failed:
  assumes "serve E S req w = (r, w')" and "door E S req = Some (policy, x)" and "r_status r = 401"
  shows "\<exists>c w1 n w2. count_marks E (policy_key policy x) (begun E w) = (Inr c, w1) \<and>
    hit E (policy_key policy x) (window_seconds policy) w1 = (Inr n, w2) \<and>
    w' = w2\<lparr>w_db := w_db w, w_draws := Suc (w_draws w2)\<rparr>"
proof -
  obtain m where m: "route E S req = bnd (guard_lockout E x policy) (\<lambda>_. m)"
    and att: "attempt E (policy_key policy x) (window_seconds policy) m"
    using door_route [OF assms(2)] by blast
  obtain y w2 where y: "route E S req (begun E w) = (y, w2)" by fastforce
  have no: "y \<noteq> Inr r"
    using y att assms(3) unfolding m attempt_def by (force elim!: bnd_InrE)
  from serve_outcome [OF assms(1) y] assms(3) no obtain e
    where e: "y = Inl e" "unauthorized (Some e)" "w' = w2\<lparr>w_db := w_db w, w_draws := Suc (w_draws w2)\<rparr>"
    by (auto simp: unauthorized_def validation_failed_def Problem_def)
  from y [unfolded m e(1)] show ?thesis
  proof (cases rule: bnd_InlE)
    case first
    with e(2) guard_lockout_raised [OF first] show ?thesis by (auto simp: unauthorized_def too_many_attempts_def)
  next
    case (second u w1)
    with att e guard_lockout_counted [OF second(1)] show ?thesis unfolding attempt_def by blast
  qed
qed

section \<open>Reaching the limit\<close>

text \<open>
  \<open>n\<close> attempts at the door of counter \<open>k\<close> failed, one after the other. In between time may pass and
  any other request may be served, at other doors too.
\<close>

inductive failed_attempts :: "'r env \<Rightarrow> settings \<Rightarrow> string \<Rightarrow> 'r world \<Rightarrow> nat \<Rightarrow> 'r world \<Rightarrow> bool"
  for E S k w where
  none: "failed_attempts E S k w 0 w"
| pause: "failed_attempts E S k w n w' \<Longrightarrow> w_draws w' \<le> m \<Longrightarrow> failed_attempts E S k w n (w'\<lparr>w_draws := m\<rparr>)"
| elsewhere: "failed_attempts E S k w n w' \<Longrightarrow>
    (\<And>policy x. door E S req = Some (policy, x) \<Longrightarrow> policy_key policy x \<noteq> k) \<Longrightarrow>
    failed_attempts E S k w n (snd (serve E S req w'))"
| failure: "failed_attempts E S k w n w' \<Longrightarrow> door E S req = Some (policy, x) \<Longrightarrow> policy_key policy x = k \<Longrightarrow>
    serve E S req w' = (r, w'') \<Longrightarrow> r_status r = 401 \<Longrightarrow> failed_attempts E S k w (Suc n) w''"

text \<open>What the counter shows after \<open>n\<close> failures, until \<open>d\<close>.\<close>

fun tally :: "time \<Rightarrow> nat \<Rightarrow> time \<Rightarrow> int option \<Rightarrow> bool" where
  "tally d 0 t m \<longleftrightarrow> m = None"
| "tally d (Suc n) t m \<longleftrightarrow> shut (int (Suc n)) d t m"

context service_env
begin

lemma tally_hit:
  assumes "counting E k (tally d n) w" and "hit E k s w = (Inr m, w')" and "0 < s" and "d \<le> instant E w + seconds s"
  shows "counting E k (tally d (Suc n)) w'"
proof (cases n)
  case 0
  then have "live_marks E w (instant E w) k = None" using assms(1) by (simp add: counting_def)
  from hit_opens [OF assms(2) this assms(3)] assms(4) 0 show ?thesis
    by (fastforce simp: counting_def shut_def)
next
  case (Suc j)
  have shut: "counting E k (shut (int n) d) w" using assms(1) Suc by (simp add: counting_def)
  show ?thesis
    unfolding counting_def tally.simps shut_def
  proof (intro allI impI)
    fix t assume t: "instant E w' \<le> t" "t < d"
    have w: "instant E w \<le> t" using hit_clk [OF assms(2)] t by simp
    obtain c where c: "int n \<le> c" "live_marks E w (instant E w) k = Some c"
      using shut w t by (force simp: counting_def shut_def)
    then have m: "m = c + 1" "m \<noteq> 1" using hit_counts [OF assms(2)] Suc by simp_all
    obtain c' where "live_marks E w t k = Some c'" using shut w t by (force simp: counting_def shut_def)
    with hit_counts_on [OF assms(2) m(2) w] m c show "\<exists>b \<ge> int (Suc n). live_marks E w' t k = Some b" by simp
  qed
qed

lemma no_marks_later:
  "live_marks E w (instant E w) k = None \<Longrightarrow> instant E w \<le> t \<Longrightarrow> live_marks E w t k = None"
  using live_ages [of "instant E w" t "w_redis w" k] by (simp add: live_marks_def)

end

text \<open>The policies of the two logins.\<close>

definition login_policies :: "settings \<Rightarrow> login_policy set" where
  "login_policies S = {app_login_policy S, admin_login_policy S}"

lemma login_policy_key: "policy \<in> login_policies S \<Longrightarrow> failure_key (policy_key policy x)"
  by (auto simp: login_policies_def failure_key_def)

lemma login_policy_apart:
  "policy \<in> login_policies S \<Longrightarrow> policy_key (current_password_policy S) y \<noteq> policy_key policy x"
  "policy \<in> login_policies S \<Longrightarrow> policy' \<in> login_policies S \<Longrightarrow> policy_key policy' y = policy_key policy x \<Longrightarrow>
     policy' = policy"
  by (auto simp: login_policies_def)

lemma door_policy: "door E S req = Some (policy, x) \<Longrightarrow> policy \<in> login_policies S"
  by (cases rule: door.cases [of "(E, S, req)"]) (auto simp: login_policies_def split: if_splits)

lemma elsewhere_safe:
  assumes "policy \<in> login_policies S"
    and "\<And>policy' y. door E S req = Some (policy', y) \<Longrightarrow> policy_key policy' y \<noteq> policy_key policy x"
  shows "safe_request E S (policy_key policy x) F req"
  using assms login_policy_apart(1) [OF assms(1)]
  by (auto simp: safe_request_def safe_door_def login_policy_key failure_key_other safe_logout_failure)

lemma shut_safe:
  assumes "policy \<in> login_policies S" and "lp_max_attempts policy \<le> N"
  shows "safe_request E S (policy_key policy x) (shut N d) req"
proof -
  have "safe_door (policy_key policy x) (shut N d) policy' y" if "door E S req = Some (policy', y)" for policy' y
    using login_policy_apart(2) [OF assms(1) door_policy [OF that]] assms(2) unfolding safe_door_def by metis
  then show ?thesis
    using login_policy_apart(1) [OF assms(1)]
    by (auto simp: safe_request_def safe_door_def [of _ _ "current_password_policy S"]
        intro: failure_key_other safe_logout_failure login_policy_key [OF assms(1)])
qed

context service_env
begin

lemma failed_attempts_counted:
  fixes policy x
  defines "k \<equiv> policy_key policy x"
  assumes "failed_attempts E S k w n w'" and pol: "policy \<in> login_policies S"
    and window: "0 < window_seconds policy" and fresh: "live_marks E w (instant E w) k = None"
  shows "counting E k (\<lambda>t m. tally (instant E w + seconds (window_seconds policy)) n t m \<and> instant E w \<le> t) w'"
  using assms(2)
proof induction
  case none
  then show ?case using no_marks_later [OF fresh] by (simp add: counting_def)
next
  case (pause n w' m)
  then show ?case by (auto intro: sp_wait)
next
  case (elsewhere n w' req)
  then show ?case unfolding k_def by (intro sp_serve elsewhere_safe [OF pol]) auto
next
  case (failure n w' req policy' y r w'')
  have p: "policy' = policy"
    using login_policy_apart(2) [OF pol door_policy [OF failure.hyps(2)]] failure.hyps(3) k_def by blast
  obtain c w1 m w2 where c: "count_marks E k (begun E w') = (Inr c, w1)"
    and h: "hit E k (window_seconds policy) w1 = (Inr m, w2)"
    and w'': "w'' = w2\<lparr>w_db := w_db w', w_draws := Suc (w_draws w2)\<rparr>"
    using door_failed [OF failure.hyps(4,2,5)] failure.hyps(3) p by auto
  let ?F = "\<lambda>t m. tally (instant E w + seconds (window_seconds policy)) n t m \<and> instant E w \<le> t"
  have "counting E k ?F (begun E w')"
    using sp_wait [of k ?F "w'\<lparr>w_tx_now := instant E w'\<rparr>" "Suc (w_draws w')"] failure.IH by simp
  then have w1: "counting E k ?F w1" using preservesD [OF sp_count, of k ?F _ k] c by fastforce
  then have t: "instant E w \<le> instant E w1" by (auto simp: counting_def)
  have "counting E k (tally (instant E w + seconds (window_seconds policy)) (Suc n)) w2"
    using w1 t by (intro tally_hit [OF _ h window]) (simp_all add: counting_def)
  moreover have "instant E w \<le> instant E w2" using t hit_clk [OF h] by simp
  ultimately have "counting E k (\<lambda>t m. tally (instant E w + seconds (window_seconds policy)) (Suc n) t m \<and>
      instant E w \<le> t) w2"
    by (auto simp: counting_def)
  from sp_wait [OF this, of "Suc (w_draws w2)"] show ?case by (simp add: w'' counting_def live_marks_def)
qed

lemma shut_door:
  assumes "counting E (policy_key policy x) (shut N d) w" and "lp_max_attempts policy \<le> N"
    and "door E S req = Some (policy, x)" and "serve E S req w = (r, w')" and "instant E (begun E w) < d"
  shows "(r_status r = 429 \<or> r_status r = 500) \<and> w_db w' = w_db w"
proof -
  let ?k = "policy_key policy x"
  obtain m where m: "route E S req = bnd (guard_lockout E x policy) (\<lambda>_. m)"
    using door_route [OF assms(3)] by blast
  obtain y w1 where g: "guard_lockout E x policy (begun E w) = (y, w1)" by fastforce
  have "\<exists>e. y = Inl e"
  proof (rule ccontr)
    assume "\<nexists>e. y = Inl e"
    then obtain u where "y = Inr u" by (cases y) auto
    with g guard_lockout_counted obtain c where c: "count_marks E ?k (begun E w) = (Inr c, w1)"
      "c < lp_max_attempts policy" by blast
    have "instant E w \<le> instant E (begun E w)" by (simp add: clock_mono)
    with assms(1,5) obtain n where "N \<le> n" "live_marks E w (instant E (begun E w)) ?k = Some n"
      by (auto simp: counting_def shut_def)
    with count_marks_run [OF c(1)] c(2) assms(2) show False by (auto simp: live_marks_def or_zero_def)
  qed
  then obtain e where y: "y = Inl e" ..
  from guard_lockout_raised [OF g [unfolded y]] have e: "e = RedisError \<or> e = ProblemError (too_many_attempts policy)" .
  have "route E S req (begun E w) = (Inl e, w1)" using g y by (simp add: m bnd_def)
  from serve_outcome [OF assms(4) this] e show ?thesis by (auto simp: too_many_attempts_def)
qed

end

end
