(* ===== verification/Interleaving.thy ===== *)
theory Interleaving
  imports Main
begin

text \<open>
  Requests served at the same time. The service is one asyncio loop and there may be several instances of
  it, so between two commands a request sends to Redis or PostgreSQL any number of commands of others may
  be carried out. Such a request is a process with a local state, its commands are steps on the local state
  and on what all of them share, and an execution interleaves the steps of \<open>c\<close> processes with those of
  whatever else changes the shared state. Which steps there are is for the theories on single races.
\<close>

inductive interleaved ::
  "(nat \<Rightarrow> 's \<times> 'l \<Rightarrow> 's \<times> 'l \<Rightarrow> bool) \<Rightarrow> ('s \<Rightarrow> 's \<Rightarrow> bool) \<Rightarrow> nat \<Rightarrow>
     's \<times> (nat \<Rightarrow> 'l) \<Rightarrow> 's \<times> (nat \<Rightarrow> 'l) \<Rightarrow> bool"
  for step outside c where
  idle: "interleaved step outside c s s"
| moves: "interleaved step outside c s (x, f) \<Longrightarrow> i < c \<Longrightarrow> step i (x, f i) (x', l) \<Longrightarrow>
    interleaved step outside c s (x', f(i := l))"
| elsewhere: "interleaved step outside c s (x, f) \<Longrightarrow> outside x x' \<Longrightarrow>
    interleaved step outside c s (x', f)"

lemma interleaved_trans:
  assumes "interleaved step outside c s' s''" and "interleaved step outside c s s'"
  shows "interleaved step outside c s s''"
  using assms by (induction rule: interleaved.induct) (auto intro: interleaved.intros)

text \<open>A step from the start of an execution, for executions written out from their beginning.\<close>

lemma interleaved_first:
  assumes "i < c" and "step i (x, f i) (x', l)" and "interleaved step outside c (x', f(i := l)) s"
  shows "interleaved step outside c (x, f) s"
proof -
  have "interleaved step outside c (x, f) (x', f(i := l))"
    by (rule moves [where f = f]) (use assms idle in auto)
  then show ?thesis using assms(3) by (rule interleaved_trans [rotated])
qed

section \<open>Invariants\<close>

locale interleaving_invariant =
  fixes step :: "nat \<Rightarrow> 's \<times> 'l \<Rightarrow> 's \<times> 'l \<Rightarrow> bool"
    and outside :: "'s \<Rightarrow> 's \<Rightarrow> bool"
    and c :: nat
    and inv :: "'s \<Rightarrow> (nat \<Rightarrow> 'l) \<Rightarrow> bool"
  assumes step_keeps: "inv x f \<Longrightarrow> i < c \<Longrightarrow> step i (x, f i) (x', l) \<Longrightarrow> inv x' (f(i := l))"
    and outside_keeps: "inv x f \<Longrightarrow> outside x x' \<Longrightarrow> inv x' f"
begin

lemma kept:
  assumes "interleaved step outside c (x, f) (x', f')" and "inv x f"
  shows "inv x' f'"
proof -
  have "inv (fst s') (snd s')" if "interleaved step outside c s s'" "inv (fst s) (snd s)" for s s'
    using that by (induction rule: interleaved.induct) (auto intro: step_keeps outside_keeps)
  from this [OF assms(1)] assms(2) show ?thesis by simp
qed

end

section \<open>Counting the processes in a state\<close>

definition number :: "nat \<Rightarrow> ('l \<Rightarrow> bool) \<Rightarrow> (nat \<Rightarrow> 'l) \<Rightarrow> int" where
  "number c P f = int (card {i. i < c \<and> P (f i)})"

lemma number_bounds: "0 \<le> number c P f" "number c P f \<le> int c"
proof -
  have "card {i. i < c \<and> P (f i)} \<le> card {..<c}" by (rule card_mono) auto
  then show "number c P f \<le> int c" by (simp add: number_def)
qed (simp add: number_def)

lemma number_upd:
  assumes "i < c"
  shows "number c P (f(i := l)) = number c P f + of_bool (P l) - of_bool (P (f i))"
proof -
  let ?r = "{j. j < c \<and> j \<noteq> i \<and> P (f j)}"
  have "{j. j < c \<and> P (g j)} = (if P (g i) then insert i {j. j < c \<and> j \<noteq> i \<and> P (g j)}
      else {j. j < c \<and> j \<noteq> i \<and> P (g j)})" for g :: "nat \<Rightarrow> 'a"
    using assms by auto
  from this [of f] this [of "f(i := l)"] show ?thesis
    by (simp add: number_def cong: conj_cong)
qed

lemma number_none: "(\<And>i. i < c \<Longrightarrow> \<not> P (f i)) \<Longrightarrow> number c P f = 0"
  by (simp add: number_def)

end
