(* ===== verification/Guess_Race.thy ===== *)
theory Guess_Race
  imports Interleaving Auth_Service
begin

text \<open>
  Logins at one door for one identifier at the same time. \<open>guard_lockout\<close> reads the counter, the password
  is checked, and only then \<open>register_failure\<close> counts, with a command of its own: the attempts that were let
  in before the first of them failed are all tried. The steps below are the commands the logins of
  \<open>app/services/auth.py\<close> send to Redis, between which the commands of other requests are carried out.
\<close>

section \<open>An attempt, command by command\<close>

datatype attempt = Outside | Let_in | Opening

text \<open>
  \<open>Let_in\<close> is an attempt that passed \<open>guard_lockout\<close> and was not counted yet, \<open>Opening\<close> one whose mark was the
  first and that has to set the expiry. An attempt with the right password goes on from \<open>passes\<close>: it drops
  the counter, or is refused for the state of the account without a mark.
\<close>

inductive attempt_step ::
  "'r env \<Rightarrow> login_policy \<Rightarrow> string \<Rightarrow> 'r world \<times> attempt \<Rightarrow> 'r world \<times> attempt \<Rightarrow> bool"
  for E policy x where
  enters: "guard_lockout E x policy w = (Inr (), w') \<Longrightarrow>
    attempt_step E policy x (w, Outside) (w', Let_in)"
| shut_out: "guard_lockout E x policy w = (Inl e, w') \<Longrightarrow>
    attempt_step E policy x (w, Outside) (w', Outside)"
| fails: "redis_cmd E (rd_incr (e_redis E) (policy_key policy x)) w = (Inr n, w') \<Longrightarrow>
    attempt_step E policy x (w, Let_in) (w', if n = 1 then Opening else Outside)"
| uncounted: "redis_cmd E (rd_incr (e_redis E) (policy_key policy x)) w = (Inl e, w') \<Longrightarrow>
    attempt_step E policy x (w, Let_in) (w', Outside)"
| opens: "redis_cmd E (rd_expire (e_redis E) (policy_key policy x) (window_seconds policy)) w = (y, w') \<Longrightarrow>
    attempt_step E policy x (w, Opening) (w', Outside)"
| passes: "reset_marks E (policy_key policy x) w = (y, w') \<Longrightarrow>
    attempt_step E policy x (w, Let_in) (w', Outside)"
| refused: "attempt_step E policy x (w, Let_in) (w, Outside)"

text \<open>
  Everything else: time passes, and what is served leaves this counter alone. Every request that is no login
  at this door for this identifier does (\<open>served_apart\<close> in \<open>Lockout_Properties\<close>).
\<close>

definition apart :: "'r env \<Rightarrow> string \<Rightarrow> 'r world \<Rightarrow> 'r world \<Rightarrow> bool" where
  "apart E k w w' \<longleftrightarrow> instant E w \<le> instant E w' \<and>
     (\<forall>t \<ge> instant E w'. live_marks E w' t k = live_marks E w t k)"

abbreviation attempts ::
  "'r env \<Rightarrow> login_policy \<Rightarrow> string \<Rightarrow> nat \<Rightarrow>
     'r world \<times> (nat \<Rightarrow> attempt) \<Rightarrow> 'r world \<times> (nat \<Rightarrow> attempt) \<Rightarrow> bool" where
  "attempts E policy x c \<equiv>
     interleaved (\<lambda>_. attempt_step E policy x) (apart E (policy_key policy x)) c"

text \<open>The marks of the door now, and the attempts let in that were not counted yet.\<close>

definition tries :: "'r env \<Rightarrow> string \<Rightarrow> 'r world \<Rightarrow> int" where
  "tries E k w = or_zero (live_marks E w (instant E w) k)"

abbreviation let_in :: "nat \<Rightarrow> (nat \<Rightarrow> attempt) \<Rightarrow> int" where
  "let_in c \<equiv> number c (\<lambda>a. a = Let_in)"

section \<open>These are the steps of a login\<close>

text \<open>A login with a wrong password does to Redis what its steps do in a row.\<close>

lemma login_wrong_password:
  assumes "guard_lockout E x (app_login_policy S) w = (Inr (), w1)"
    and "users_find_by_identifier (py_lower (py_strip x)) w1 = (Inr found, w1)"
    and "\<not> verify_password E password (map_option u_password_hash found)"
  shows "snd (login E S x password w) = snd (register_failure E x (app_login_policy S) w1)"
  using assms by (simp add: login_def Let_def bnd_def raise_def split: prod.split sum.split)

lemma admin_login_wrong_password:
  assumes "guard_lockout E x (admin_login_policy S) w = (Inr (), w1)"
    and "users_find_by_email (py_lower (py_strip x)) w1 = (Inr found, w1)"
    and "\<not> verify_password E password (map_option u_password_hash found)"
  shows "snd (admin_login E S x password w) = snd (register_failure E x (admin_login_policy S) w1)"
  using assms by (simp add: admin_login_def Let_def bnd_def raise_def split: prod.split sum.split)

lemma lone_failure:
  assumes "guard_lockout E x policy w = (Inr (), w1)" and "register_failure E x policy w1 = (y, w2)"
    and "i < c" and "f i = Outside"
  shows "attempts E policy x c (w, f) (w2, f)"
proof -
  let ?k = "policy_key policy x"
  have entered: "attempts E policy x c (w, f) (w1, f(i := Let_in))"
    by (rule interleaved_first [OF assms(3) _ idle]) (simp add: assms(4) enters [OF assms(1)])
  have again: "f(i := Let_in, i := Outside) = f" "f(i := Let_in, i := Opening, i := Outside) = f"
    using assms(4) by auto
  obtain a w' where incr: "redis_cmd E (rd_incr (e_redis E) ?k) w1 = (a, w')" by fastforce
  show ?thesis
  proof (cases "a = Inr 1")
    case True
    obtain b where "redis_cmd E (rd_expire (e_redis E) ?k (window_seconds policy)) w' = (b, w2)"
      using assms(2) incr True
      by (auto simp: register_failure_def hit_def bnd_def skip_def ret_def split: prod.splits sum.splits)
    from opens [OF this] fails [of E policy x w1 1 w'] incr True show ?thesis
      using moves [OF moves [OF entered assms(3), of w' Opening] assms(3), of w2 Outside] again by simp
  next
    case False
    then have "w' = w2"
      using assms(2) incr
      by (auto simp: register_failure_def hit_def bnd_def skip_def ret_def split: prod.splits sum.splits if_splits)
    moreover have "attempt_step E policy x (w1, Let_in) (w', Outside)"
      using incr False fails [of E policy x w1 _ w'] uncounted [of E policy x w1 _ w'] by (cases a) auto
    ultimately show ?thesis using moves [OF entered assms(3), of w2 Outside] again by simp
  qed
qed

section \<open>How many are tried\<close>

definition within_budget :: "'r env \<Rightarrow> login_policy \<Rightarrow> string \<Rightarrow> nat \<Rightarrow> 'r world \<Rightarrow> (nat \<Rightarrow> attempt) \<Rightarrow> bool" where
  "within_budget E policy x c w f \<longleftrightarrow> 0 \<le> tries E (policy_key policy x) w \<and>
     tries E (policy_key policy x) w + let_in c f \<le> max 0 (lp_max_attempts policy - 1) + int c"

context service_env
begin

lemma tries_later:
  assumes "instant E w \<le> instant E w'"
    and "\<And>t. instant E w' \<le> t \<Longrightarrow> rd_live (e_redis E) (w_redis w') t k = aged t e"
  shows "tries E k w' = or_zero (map_option fst e) \<or> tries E k w' = 0"
  using assms(2) [of "instant E w'"] by (auto simp: tries_def live_marks_def aged_def split: option.splits)

text \<open>What a command on the key leaves of the counter.\<close>

lemma tries_command:
  assumes "redis_cmd E f w = (y, w')"
    and "\<And>a r. f (instant E w) (w_redis w) = (a, r) \<Longrightarrow>
      or_zero (map_option fst (rd_live (e_redis E) r (instant E w) k)) \<in> V"
  shows "tries E k w' \<in> insert 0 V"
proof -
  obtain a r where f: "f (instant E w) (w_redis w) = (a, r)"
    and w': "w' = w\<lparr>w_redis := r, w_draws := Suc (w_draws w)\<rparr>"
    using assms(1) by (rule cmd_any)
  have "instant E w \<le> instant E w'" using assms(1) by (rule cmd_clk)
  then have "tries E k w' = or_zero (map_option fst (aged (instant E w') (rd_live (e_redis E) r (instant E w) k)))"
    using live_ages [of "instant E w" "instant E w'" r k] w' by (simp add: tries_def live_marks_def)
  then show ?thesis using assms(2) [OF f] by (auto simp: aged_def split: option.splits if_splits)
qed

lemma tries_now: "or_zero (map_option fst (rd_live (e_redis E) (w_redis w) (instant E w) k)) = tries E k w"
  by (simp add: tries_def live_marks_def)

lemma tries_incr:
  assumes "redis_cmd E (rd_incr (e_redis E) k) w = (y, w')"
  shows "tries E k w' \<in> {0, tries E k w, tries E k w + 1}"
proof -
  have marks: "or_zero (map_option fst (Some (incremented e))) = or_zero (map_option fst e) + 1" for e
    by (auto simp: incremented_def split: option.splits)
  have "or_zero (map_option fst (rd_live (e_redis E) r (instant E w) k)) \<in> {tries E k w, tries E k w + 1}"
    if "rd_incr (e_redis E) k (instant E w) (w_redis w) = (a, r)" for a r
    using that incr_effect [of k "instant E w" "w_redis w"] incr_raises [of k "instant E w" "w_redis w"]
      marks [of "rd_live (e_redis E) (w_redis w) (instant E w) k"]
    by (cases a) (force simp: tries_now)+
  from tries_command [OF assms this] show ?thesis by auto
qed

lemma tries_expire:
  assumes "redis_cmd E (rd_expire (e_redis E) k s) w = (y, w')"
  shows "tries E k w' \<in> {0, tries E k w}"
proof -
  have marks: "or_zero (map_option fst (map_option (\<lambda>e. (fst e, d)) z)) = or_zero (map_option fst z)"
    for d :: "time option" and z :: "(int \<times> time option) option"
    by (cases z) simp_all
  have "or_zero (map_option fst (rd_live (e_redis E) r (instant E w) k)) \<in> {0, tries E k w}"
    if f: "rd_expire (e_redis E) k s (instant E w) (w_redis w) = (a, r)" for a r
  proof -
    let ?l = "rd_live (e_redis E) (w_redis w) (instant E w)"
    have "rd_live (e_redis E) r (instant E w) k \<in>
        {?l k, None, map_option (\<lambda>e. (fst e, Some (instant E w + seconds s))) (?l k)}"
    proof (cases a)
      case None
      from expire_raises [OF f [unfolded None]] show ?thesis by auto
    next
      case (Some b)
      then show ?thesis using expire_effect expire_now f by (cases "0 < s") auto
    qed
    then show ?thesis using marks [of _ "?l k"] by (auto simp: tries_now)
  qed
  from tries_command [OF assms this] show ?thesis by auto
qed

lemma tries_reset:
  assumes "reset_marks E k w = (y, w')"
  shows "tries E k w' \<in> {0, tries E k w}"
proof -
  obtain z where "redis_cmd E (rd_delete (e_redis E) k) w = (z, w')"
    using assms by (auto simp: reset_marks_def bnd_def skip_def ret_def split: prod.splits sum.splits)
  moreover have "or_zero (map_option fst (rd_live (e_redis E) r (instant E w) k)) \<in> {0, tries E k w}"
    if "rd_delete (e_redis E) k (instant E w) (w_redis w) = (a, r)" for a r
    using that delete_effect [of k "instant E w" "w_redis w"] delete_raises [of k "instant E w" "w_redis w"]
    by (cases a) (force simp: tries_now)+
  ultimately show ?thesis using tries_command by blast
qed

lemma tries_apart:
  assumes "apart E k w w'"
  shows "tries E k w' \<in> {0, tries E k w}"
proof -
  have "live_marks E w' (instant E w') k =
      map_option fst (aged (instant E w') (rd_live (e_redis E) (w_redis w) (instant E w) k))"
    using assms live_ages [of "instant E w" "instant E w'" "w_redis w" k]
    by (simp add: apart_def live_marks_def)
  then show ?thesis by (auto simp: tries_def live_marks_def aged_def split: option.splits)
qed

lemma guard_run:
  assumes "guard_lockout E x policy w = (y, w')"
  shows "tries E (policy_key policy x) w' \<in> {0, tries E (policy_key policy x) w}"
    and "y = Inr () \<Longrightarrow> tries E (policy_key policy x) w < lp_max_attempts policy"
proof -
  let ?k = "policy_key policy x"
  obtain z where c: "count_marks E ?k w = (z, w')"
    and z: "y = (case z of Inl e \<Rightarrow> Inl e | Inr n \<Rightarrow> if n \<ge> lp_max_attempts policy
      then Inl (ProblemError (too_many_attempts policy)) else Inr ())"
    using assms
    by (auto simp: guard_lockout_def bnd_def raise_def skip_def ret_def split: prod.splits sum.splits if_splits)
  show "y = Inr () \<Longrightarrow> tries E ?k w < lp_max_attempts policy"
    using z limiter.tally_answer [of ?k w] c by (auto simp: tries_def split: sum.splits if_splits)
  obtain u where g: "redis_cmd E (rd_get (e_redis E) ?k) w = (u, w')"
    using c by (auto simp: count_marks_def bnd_def ret_def split: prod.splits sum.splits)
  have "or_zero (map_option fst (rd_live (e_redis E) r (instant E w) ?k)) \<in> {tries E ?k w}"
    if "rd_get (e_redis E) ?k (instant E w) (w_redis w) = (a, r)" for a r
    using get_keeps [OF that] by (simp add: tries_now)
  from tries_command [OF g this] show "tries E ?k w' \<in> {0, tries E ?k w}" by simp
qed

lemma step_within_budget:
  assumes "within_budget E policy x c w f" and "i < c" and "attempt_step E policy x (w, f i) (w', l)"
  shows "within_budget E policy x c w' (f(i := l))"
  using assms(3)
proof (cases rule: attempt_step.cases)
  case enters
  then show ?thesis
    using assms(1) guard_run [OF enters(3)] number_bounds(2) [of c "\<lambda>a. a = Let_in" "f(i := l)"]
    by (auto simp: within_budget_def)
next
  case (shut_out e)
  then show ?thesis
    using assms(1,2) guard_run(1) [OF shut_out(3)] number_bounds(1) [of c "\<lambda>a. a = Let_in" f]
      number_bounds(2) [of c "\<lambda>a. a = Let_in" f]
    by (auto simp: within_budget_def number_upd)
next
  case (fails n)
  then show ?thesis
    using assms(1,2) tries_incr [OF fails(3)] number_bounds(2) [of c "\<lambda>a. a = Let_in" f]
    by (auto simp: within_budget_def number_upd)
next
  case (uncounted e)
  then show ?thesis
    using assms(1,2) tries_incr [OF uncounted(3)] number_bounds(2) [of c "\<lambda>a. a = Let_in" f]
    by (auto simp: within_budget_def number_upd)
next
  case (opens y)
  then show ?thesis
    using assms(1,2) tries_expire [OF opens(3)] number_bounds(2) [of c "\<lambda>a. a = Let_in" f]
    by (auto simp: within_budget_def number_upd)
next
  case (passes y)
  then show ?thesis
    using assms(1,2) tries_reset [OF passes(3)] number_bounds(2) [of c "\<lambda>a. a = Let_in" f]
    by (auto simp: within_budget_def number_upd)
next
  case refused
  then show ?thesis using assms(1,2) by (auto simp: within_budget_def number_upd)
qed

lemma apart_within_budget:
  assumes "within_budget E policy x c w f" and "apart E (policy_key policy x) w w'"
  shows "within_budget E policy x c w' f"
  using assms(1) tries_apart [OF assms(2)] number_bounds(2) [of c "\<lambda>a. a = Let_in" f]
  by (auto simp: within_budget_def)

sublocale guessing: interleaving_invariant
  "\<lambda>_. attempt_step E policy x" "apart E (policy_key policy x)" c "within_budget E policy x c"
  for policy x c
  by unfold_locales (fact step_within_budget apart_within_budget)+

lemma attempts_bounded:
  assumes "attempts E policy x c (w, \<lambda>_. Outside) (w', f)" and "0 < lp_max_attempts policy"
    and "tries E (policy_key policy x) w = 0"
  shows "tries E (policy_key policy x) w' + let_in c f \<le> lp_max_attempts policy + (int c - 1)"
proof -
  have "within_budget E policy x c w (\<lambda>_. Outside)"
    using assms(2,3) by (simp add: within_budget_def number_none)
  from guessing.kept [OF assms(1) this] assms(2) show ?thesis by (simp add: within_budget_def)
qed

end

end
