(* ===== verification/Lockout_Properties.thy ===== *)
theory Lockout_Properties
  imports Token_Properties Lockout Guess_Race
begin

text \<open>The properties of the login doors.\<close>

text \<open>
  C13. Once the attempts at a login door that failed reach its limit, whatever is served or waited for
  in between, every login there is answered with 429 (or with 500 when Redis does not answer) and
  changes nothing in the database, until the lockout time since before the first failure is over. The
  right password does not open the door either. This is so for the users' door and for the
  administrators' door, each with its own limit and its own time.
\<close>

theorem lockout_holds:
  assumes "service_env E" and "policy \<in> login_policies S"
    and "0 < lp_max_attempts policy" and "0 < lp_lockout_minutes policy"
    and "live_marks E w (instant E w) (policy_key policy x) = None"
    and "failed_attempts E S (policy_key policy x) w n w1" and "lp_max_attempts policy \<le> int n"
    and "later E S w1 w2"
    and "door E S req = Some (policy, y)" and "policy_key policy y = policy_key policy x"
    and "serve E S req w2 = (r, w3)"
    and "instant E (begun E w2) < instant E w + minutes (lp_lockout_minutes policy)"
  shows "(r_status r = 429 \<or> r_status r = 500) \<and> w_db w3 = w_db w2"
proof -
  let ?k = "policy_key policy x" and ?d = "instant E w + seconds (window_seconds policy)"
  obtain m where n: "n = Suc m" using assms(3,7) by (cases n) auto
  have "0 < window_seconds policy" using assms(4) by (simp add: window_seconds_def)
  then have "counting E ?k (\<lambda>t c. tally ?d n t c \<and> instant E w \<le> t) w1"
    using service_env.failed_attempts_counted [OF assms(1,6,2)] assms(5) by blast
  then have "counting E ?k (shut (int n) ?d) w1" by (simp add: counting_def n)
  then have "counting E ?k (shut (int n) ?d) w2"
    by (rule service_env.sp_kept [OF assms(1,8) shut_safe [OF assms(2,7)]])
  then show ?thesis
    using service_env.shut_door [OF assms(1) _ assms(7,9,11)] assms(10,12) by (simp add: window_seconds_def)
qed

text \<open>The example service with a single attempt allowed, and a failed one.\<close>

definition strict_settings :: settings where
  "strict_settings = demo_settings\<lparr>login_max_attempts := 1\<rparr>"

lemma demo_normal [simp]: "py_lower (py_strip ''@ana1'') = ''@ana1''" "py_lower (py_strip ''@root'') = ''@root''"
  by (simp_all add: py_lower_def py_lower_char_def py_isupper_def py_strip_def py_strip_by_def py_isspace_def)

lemma strict_failure:
  "serve demo_env strict_settings (Login ''@ana1'' ''wrong'') demo_world = (r, w') \<Longrightarrow>
     r_status r = 401 \<and> w_draws w' < 6000"
  apply (simp add: serve_defs login_route_def strict_settings_def required_text_def validated_def)
  apply (simp only: chain_defs method_defs login_def)
  apply (simp add: op_simps row_defs or_zero_def incremented_def Let_def)
  apply (auto simp: commit_defs op_simps row_defs invalid_credentials_def Problem_def Let_def incremented_def
      method_defs)
  done

theorem lockout_holds_witness:
  "r_status (fst (serve demo_env strict_settings (Login ''@ana1'' ''Secret12'')
     (snd (serve demo_env strict_settings (Login ''@ana1'' ''wrong'') demo_world)))) \<in> {429, 500}"
proof -
  let ?s = "serve demo_env strict_settings (Login ''@ana1'' ''wrong'') demo_world"
    and ?p = "app_login_policy strict_settings"
  note s = prod.collapse [of ?s, symmetric]
  have "failed_attempts demo_env strict_settings (policy_key ?p ''@ana1'') demo_world (Suc 0) (snd ?s)"
    using strict_failure [OF s] by (intro failed_attempts.failure [OF failed_attempts.none _ _ s]) simp_all
  from lockout_holds [OF demo_service_env _ _ _ _ this _ later.start, of "Login ''@ana1'' ''Secret12''",
      OF _ _ _ _ _ _ _ prod.collapse [symmetric]] strict_failure [OF s]
  show ?thesis
    by (simp add: login_policies_def app_login_policy_def strict_settings_def live_marks_def
        keyspace_redis_def)
qed

text \<open>
  A request that is no login at a door leaves the counter of that door exactly as it was, for every instant
  to come: failing at one door, or with another identifier, never closes a door to somebody else, and
  passing one does not clear the failures of another.
\<close>

lemma served_apart:
  assumes "service_env E" and "policy \<in> login_policies S"
    and "\<And>policy' y. door E S req = Some (policy', y) \<Longrightarrow> policy_key policy' y \<noteq> policy_key policy x"
    and "serve E S req w = (r, w')"
  shows "apart E (policy_key policy x) w w'"
proof -
  let ?k = "policy_key policy x" and ?F = "\<lambda>t m. instant E w \<le> t \<and> m = live_marks E w t (policy_key policy x)"
  have "counting E ?k ?F w" by (simp add: counting_def)
  then have "counting E ?k ?F w'"
    using service_env.sp_serve [OF assms(1) elsewhere_safe [OF assms(2)], of req x ?F w] assms(3,4) by simp
  then show ?thesis by (auto simp: counting_def apart_def)
qed

text \<open>
  C14. However many logins are tried at a door at the same time, and whatever is served in between, the
  wrong passwords counted there together with those that were let in and are still being tried never
  exceed the limit by more than the number of logins at a time, less one. One at a time, the limit itself
  is the bound.
\<close>

theorem guesses_bounded:
  assumes "service_env E" and "0 < lp_max_attempts policy"
    and "tries E (policy_key policy x) w = 0"
    and "attempts E policy x c (w, \<lambda>_. Outside) (w', f)"
  shows "tries E (policy_key policy x) w' + let_in c f \<le> lp_max_attempts policy + (int c - 1)"
  by (rule service_env.attempts_bounded [OF assms(1,4,2,3)])

text \<open>
  The bound is met: with one attempt allowed, two logins at the same time are both let in, and both wrong
  passwords are tried.
\<close>

lemma strict_policy:
  "lp_max_attempts (app_login_policy strict_settings) = 1"
  "window_seconds (app_login_policy strict_settings) = 900"
  by (simp_all add: app_login_policy_def strict_settings_def window_seconds_def demo_settings_def default_settings_def)

definition demo_key :: string where
  "demo_key = policy_key (app_login_policy strict_settings) ''@ana1''"

definition demo_failed :: "nat \<Rightarrow> int \<times> time option \<Rightarrow> keyspace world" where
  "demo_failed n e = demo_world\<lparr>w_redis := [demo_key \<mapsto> e], w_draws := n\<rparr>"

abbreviation demo_attempt :: "keyspace world \<times> attempt \<Rightarrow> keyspace world \<times> attempt \<Rightarrow> bool" where
  "demo_attempt \<equiv> attempt_step demo_env (app_login_policy strict_settings) ''@ana1''"

lemmas demo_steps = attempt_step.intros [where E = demo_env and policy = "app_login_policy strict_settings" and x = "''@ana1''", folded demo_key_def]

lemma demo_entering:
  "w_redis w = (\<lambda>_. None) \<Longrightarrow> demo_attempt (w, Outside) (w\<lparr>w_draws := Suc (w_draws w)\<rparr>, Let_in)"
  by (rule enters)
     (simp add: guard_lockout_def count_marks_def strict_policy ret_def redis_cmd_def bnd_def skip_def del: bnd_redis)

lemma demo_failing:
  assumes "aged (instant demo_env w) (w_redis w demo_key) = e"
  shows "demo_attempt (w, Let_in)
     (w\<lparr>w_redis := (w_redis w)(demo_key \<mapsto> incremented e), w_draws := Suc (w_draws w)\<rparr>,
      if fst (incremented e) = 1 then Opening else Outside)"
  using assms by (intro demo_steps(3)) (simp add: redis_cmd_def Let_def)

lemma demo_opening:
  assumes "aged (instant demo_env w) (w_redis w demo_key) = Some (n, None)"
  shows "demo_attempt (w, Opening)
     (w\<lparr>w_redis := (w_redis w)(demo_key \<mapsto> (n, Some (instant demo_env w + seconds 900))),
        w_draws := Suc (w_draws w)\<rparr>, Outside)"
  using assms by (intro demo_steps(5) [where y = "Inr 1"]) (simp add: redis_cmd_def strict_policy)

lemma demo_guesses:
  "attempts demo_env (app_login_policy strict_settings) ''@ana1'' 2 (demo_world, \<lambda>_. Outside)
     (demo_failed 5005 (2, Some (905004000)), \<lambda>_. Outside)"
proof -
  let ?P = "app_login_policy strict_settings" and ?f = "\<lambda>_ :: nat. Outside"
  let ?step = "attempt_step demo_env ?P ''@ana1''"
  have e: "incremented None = (1, None)" "incremented (Some (1, None)) = (2, None)"
    by (simp_all add: incremented_def)
  have a: "aged t (Some (n, None)) = Some (n, None)" for t n by (simp add: aged_def alive_at_def)
  have s1: "?step (demo_world, Outside) (demo_world\<lparr>w_draws := 5001\<rparr>, Let_in)"
    using demo_entering [of demo_world] by (simp add: demo_world_def)
  have s2: "?step (demo_world\<lparr>w_draws := 5001\<rparr>, Outside) (demo_world\<lparr>w_draws := 5002\<rparr>, Let_in)"
    using demo_entering [of "demo_world\<lparr>w_draws := 5001\<rparr>"] by (simp add: demo_world_def)
  have s3: "?step (demo_world\<lparr>w_draws := 5002\<rparr>, Let_in) (demo_failed 5003 (1, None), Opening)"
    using demo_failing [of "demo_world\<lparr>w_draws := 5002\<rparr>" None] by (simp add: demo_world_def demo_failed_def e)
  have s4: "?step (demo_failed 5003 (1, None), Let_in) (demo_failed 5004 (2, None), Outside)"
    using demo_failing [of "demo_failed 5003 (1, None)", OF refl] by (simp add: demo_failed_def e a)
  have s5: "?step (demo_failed 5004 (2, None), Opening) (demo_failed 5005 (2, Some 905004000), Outside)"
    using demo_opening [of "demo_failed 5004 (2, None)" 2] by (simp add: demo_failed_def a)
  have again: "?f(Suc 0 := Outside, 0 := Outside) = ?f" by auto
  show ?thesis
    apply (rule interleaved_first [where i = 0], simp, rule s1)
    apply (rule interleaved_first [where i = 1], simp, simp, rule s2)
    apply (rule interleaved_first [where i = 0], simp, simp, rule s3)
    apply (rule interleaved_first [where i = 1], simp, simp, rule s4)
    apply (rule interleaved_first [where i = 0], simp, simp, rule s5)
    apply (simp add: again idle)
    done
qed

theorem guesses_bounded_witness:
  "tries demo_env demo_key (demo_failed 5005 (2, Some 905004000)) = 2 \<and>
   tries demo_env demo_key (demo_failed 5005 (2, Some 905004000)) \<le> login_max_attempts strict_settings + 1"
proof -
  have "tries demo_env demo_key demo_world = 0"
    by (simp add: tries_def live_marks_def keyspace_redis_def demo_world_def aged_def)
  from guesses_bounded [OF demo_service_env _ this [unfolded demo_key_def] demo_guesses]
  have "tries demo_env demo_key (demo_failed 5005 (2, Some 905004000)) \<le> 2"
    using number_bounds(1) [of 2 "\<lambda>a. a = Let_in" "\<lambda>_. Outside"] by (simp add: strict_policy demo_key_def number_none)
  then show ?thesis
    by (simp add: tries_def live_marks_def keyspace_redis_def demo_failed_def demo_world_def aged_def alive_at_def
        strict_settings_def)
qed

end
