(* ===== verification/Search_Results.thy ===== *)
theory Search_Results
  imports Search
begin

text \<open>
  What the searches find: the patterns match a fragment literally, a page continues where the cursor
  says, and the loop of the public search comes to its end with the page a plain description asks for.
\<close>

section \<open>The pattern of a fragment\<close>

definition like_escape :: "char \<Rightarrow> string" where
  "like_escape x = (if x \<in> set ''%_'' \<or> x = CHR 0x5C then [CHR 0x5C, x] else [x])"

lemma replace_char: "py_replace [c] new s = concat (map (\<lambda>x. if x = c then new else [x]) s)"
  by (induction s) (simp_all add: py_replace.simps [of _ _ "_ # _"] py_replace.simps [of _ _ "[]"]
      py_startswith_def)

lemma concat_map_concat: "concat (map g (concat (map h s))) = concat (map (\<lambda>x. concat (map g (h x))) s)"
  by (induction s) simp_all

lemma escape_like_chars: "escape_like fragment = concat (map like_escape fragment)"
  unfolding escape_like_def replace_char concat_map_concat
  by (rule arg_cong [of _ _ concat], rule map_cong) (auto simp: like_escape_def)

definition wildcard :: "char \<Rightarrow> bool" where
  "wildcard c \<longleftrightarrow> c \<in> set ''%_'' \<or> c = CHR 0x5C"

lemma lower_wildcard: "wildcard c \<Longrightarrow> py_lower_char c = c"
  by (auto simp: wildcard_def py_lower_char_def py_isupper_def)

lemma wildcard_lower: "wildcard (py_lower_char c) \<longleftrightarrow> wildcard c"
proof
  assume w: "wildcard (py_lower_char c)"
  then have "\<not> py_isupper c"
    using of_char_lower [of c] by (auto simp: wildcard_def py_isupper_def Let_def split: if_splits)
  then have "py_lower_char c = c" by (simp add: py_lower_char_def)
  with w show "wildcard c" by simp
next
  assume "wildcard c"
  then show "wildcard (py_lower_char c)" by (simp add: lower_wildcard)
qed

lemma like_escape_wildcard: "like_escape x = (if wildcard x then [CHR 0x5C, x] else [x])"
  by (simp add: like_escape_def wildcard_def)

lemma lower_escape: "map py_lower_char (like_escape x) = like_escape (py_lower_char x)"
proof -
  have "py_lower_char (CHR 0x5C) = CHR 0x5C" by (rule lower_wildcard) (simp add: wildcard_def)
  then show ?thesis by (simp add: like_escape_wildcard wildcard_lower)
qed

lemma lower_escape_like: "py_lower (escape_like fragment) = concat (map like_escape (py_lower fragment))"
  by (induction fragment) (simp_all add: escape_like_chars py_lower_def lower_escape)

lemma like_escaped: "like (like_escape x @ p) s \<longleftrightarrow> (\<exists>r. s = x # r \<and> like p r)"
  by (auto simp: like_escape_def like.simps(2) split: list.split)

lemma like_literal: "like (concat (map like_escape f) @ p) s \<longleftrightarrow> (\<exists>r. s = f @ r \<and> like p r)"
  by (induction f arbitrary: s) (auto simp: like_escaped)

lemma like_percent: "like (CHR ''%'' # p) s \<longleftrightarrow> (\<exists>a b. s = a @ b \<and> like p b)"
proof (induction s)
  case Nil
  then show ?case by (simp add: like.simps(2))
next
  case (Cons x s)
  have "(\<exists>a b. x # s = a @ b \<and> like p b) \<longleftrightarrow> like p (x # s) \<or> (\<exists>a b. s = a @ b \<and> like p b)"
    by (metis append_Cons append_Nil list.inject neq_Nil_conv)
  with Cons show ?case by (simp add: like.simps(2))
qed

lemma ilike_contains: "ilike text (''%'' @ escape_like f @ ''%'') \<longleftrightarrow> sublist (py_lower f) (py_lower text)"
proof -
  have "py_lower (''%'' @ escape_like f @ ''%'') = ''%'' @ concat (map like_escape (py_lower f)) @ ''%''"
    using lower_escape_like [of f] by (simp add: py_lower_def py_lower_char_def py_isupper_def)
  moreover have "like ''%'' s" for s using like_percent [of "[]" s] by (auto simp: like.simps(1))
  ultimately show ?thesis
    by (auto simp: ilike_def like_percent like_literal sublist_def)
qed

lemmas ilike_pattern = ilike_contains [unfolded append_Cons append_Nil]

section \<open>Newest first, and what is past a position\<close>

abbreviation descending :: "user_model list \<Rightarrow> bool" where
  "descending rows \<equiv> sorted_wrt (\<lambda>a b. position_of b < position_of a) rows"

lemma newest_filter: "newest_accounts (filter P rows) = filter P (newest_accounts rows)"
  by (simp add: newest_accounts_def filter_sort [symmetric] rev_filter)

lemma newest_descending:
  assumes "distinct (map um_id rows)"
  shows "descending (newest_accounts rows)"
proof -
  have "distinct (map position_of rows)"
    using assms by (simp add: distinct_map inj_on_def position_of_def)
  then have "distinct (map position_of (sort_key position_of rows))"
    by (simp add: distinct_map)
  then have "sorted_wrt (<) (map position_of (sort_key position_of rows))"
    by (simp add: strict_sorted_iff)
  then show ?thesis by (simp add: newest_accounts_def sorted_wrt_rev sorted_wrt_map)
qed

lemma set_newest [simp]: "set (newest_accounts rows) = set rows" "length (newest_accounts rows) = length rows"
  by (simp_all add: newest_accounts_def)

lemma filter_past_nth:
  assumes "descending rows" and "i < length rows"
  shows "filter (\<lambda>r. position_of r < position_of (rows ! i)) rows = drop (Suc i) rows"
proof -
  let ?P = "\<lambda>r. position_of r < position_of (rows ! i)"
  have split: "rows = take (Suc i) rows @ drop (Suc i) rows" by simp
  have "\<not> ?P r" if r: "r \<in> set (take (Suc i) rows)" for r
  proof -
    obtain j where "j < length (take (Suc i) rows)" "take (Suc i) rows ! j = r"
      using r unfolding in_set_conv_nth by blast
    then have "j < Suc i" "r = rows ! j" by auto
    moreover have "j < i \<Longrightarrow> position_of (rows ! i) < position_of (rows ! j)"
      using assms by (simp add: sorted_wrt_iff_nth_less)
    ultimately show ?thesis by (cases "j = i") (simp_all add: less_Suc_eq)
  qed
  moreover have "?P r" if r: "r \<in> set (drop (Suc i) rows)" for r
  proof -
    obtain j where "j < length (drop (Suc i) rows)" "drop (Suc i) rows ! j = r"
      using r unfolding in_set_conv_nth by blast
    then have "Suc i + j < length rows" "r = rows ! (Suc i + j)" using assms(2) by auto
    then show ?thesis using assms by (simp add: sorted_wrt_iff_nth_less)
  qed
  ultimately have "filter ?P (take (Suc i) rows) = []" "filter ?P (drop (Suc i) rows) = drop (Suc i) rows"
    by (simp_all add: filter_id_conv)
  then show ?thesis by (metis append_Nil filter_append split)
qed

text \<open>Continuing from a row of what is left of a listing leaves the rows after it.\<close>

lemma past_remaining:
  assumes "descending rows" and "i < length (filter (past_cursor p) rows)"
  shows "filter (past_cursor (Some (position_of (filter (past_cursor p) rows ! i)))) rows =
    drop (Suc i) (filter (past_cursor p) rows)"
proof -
  let ?R = "filter (past_cursor p) rows"
  have R: "descending ?R" using assms(1) by (rule sorted_wrt_filter)
  have "past_cursor p (?R ! i)" using assms(2) nth_mem by fastforce
  then have "position_of r < position_of (?R ! i) \<longleftrightarrow> past_cursor p r \<and> position_of r < position_of (?R ! i)" for r
    by (auto simp: past_cursor_def split: option.splits)
  then have "filter (past_cursor (Some (position_of (?R ! i)))) rows =
      filter (\<lambda>r. position_of r < position_of (?R ! i)) ?R"
    unfolding filter_filter by (intro filter_cong refl) (simp add: past_cursor_def [of "Some _"])
  also have "\<dots> = drop (Suc i) ?R" by (rule filter_past_nth [OF R assms(2)])
  finally show ?thesis .
qed

section \<open>Rows as accounts\<close>

definition account_of :: "user_model \<Rightarrow> user" where
  "account_of row = the (to_domain row)"

lemma loaded_all_run:
  "(\<And>r. r \<in> set rows \<Longrightarrow> ck_users r) \<Longrightarrow> loaded_all rows w = (Inr (map account_of rows), w)"
proof (induction rows)
  case Nil
  then show ?case by simp
next
  case (Cons r rows)
  then obtain u where "to_domain r = Some u" using ck_users_total by auto
  with Cons show ?case by (simp add: account_of_def bnd_Inr)
qed

lemma read_position_cursor:
  "datetime_range (um_created_at row) \<Longrightarrow>
     read_position (Some (encode_cursor row)) w = (Inr (Some (position_of row)), w)"
  by (simp add: read_position_def decode_encode_cursor position_of_def)

section \<open>The pages of the backoffice search\<close>

definition matching_accounts :: "string \<Rightarrow> db \<Rightarrow> user_model list" where
  "matching_accounts fragment d = newest_accounts (filter (matches_user_account fragment) (users d))"

text \<open>Instants a \<open>datetime\<close> can hold, as every instant that comes out of the database is.\<close>

definition dated :: "db \<Rightarrow> bool" where
  "dated d \<longleftrightarrow> (\<forall>r \<in> set (users d). datetime_range (um_created_at r))"

lemma matching_descending: "wf_users (users d) \<Longrightarrow> descending (matching_accounts fragment d)"
  unfolding matching_accounts_def by (intro newest_descending) (simp add: wf_users_def distinct_map_filter)

lemma matching_rows: "r \<in> set (matching_accounts fragment d) \<Longrightarrow> r \<in> set (users d)"
  by (simp add: matching_accounts_def)

definition page_of :: "nat \<Rightarrow> user_model list \<Rightarrow> user list \<times> string option" where
  "page_of limit rows =
     (map account_of (take limit rows),
      if length rows > limit then Some (encode_cursor (rows ! (limit - 1))) else None)"

lemma last_take: "0 < n \<Longrightarrow> n \<le> length xs \<Longrightarrow> last (take n xs) = xs ! (n - 1)"
  by (subst last_conv_nth) (auto simp: min_def)

lemma search_page:
  assumes "wf_users (users (w_db w))" and "read_position cursor w = (Inr p, w)" and "0 < limit"
  shows "search_user_accounts fragment cursor limit w =
    (Inr (page_of limit (filter (past_cursor p) (matching_accounts fragment (w_db w)))), w)"
proof -
  define R where "R = filter (past_cursor p) (matching_accounts fragment (w_db w))"
  have rows: "newest_accounts (filter (\<lambda>row. matches_user_account fragment row \<and> past_cursor p row) (users (w_db w))) = R"
    by (simp add: R_def matching_accounts_def newest_filter conj_commute)
  have page: "take limit (take (limit + 1) R) = take limit R" "length (take (limit + 1) R) > limit \<longleftrightarrow> length R > limit"
    by (auto simp: min_def)
  have "ck_users r" if "r \<in> set (take limit R)" for r
    using that assms(1) matching_rows by (fastforce simp: wf_users_def R_def dest!: in_set_takeD)
  from loaded_all_run [OF this] have load: "loaded_all (take limit R) w = (Inr (map account_of (take limit R)), w)" .
  have last: "last (take limit R) = R ! (limit - 1)" if "limit < length R"
    using that assms(3) by (simp add: last_take)
  show ?thesis
    unfolding search_user_accounts_def Let_def R_def [symmetric]
    using load last
    by (simp only: bnd_Inr [where m = "read_position cursor", OF assms(2)] bnd_apply rows page
        bnd_Inr [where m = "loaded_all (take limit R)", OF load]) (simp add: page_of_def)
qed

text \<open>Following the cursors from page to page, for a number of pages at most.\<close>

fun follow_pages ::
  "nat \<Rightarrow> (string option \<Rightarrow> ('r, 'a list \<times> string option) op) \<Rightarrow> string option \<Rightarrow> 'r world \<Rightarrow> 'a list option" where
  "follow_pages 0 f cursor w = None"
| "follow_pages (Suc n) f cursor w =
     (case f cursor w of
        (Inr (page, None), w') \<Rightarrow> Some page
      | (Inr (page, Some next), w') \<Rightarrow> map_option ((@) page) (follow_pages n f (Some next) w')
      | (Inl e, w') \<Rightarrow> None)"

lemma follow_search:
  assumes "wf_users (users (w_db w))" and "dated (w_db w)" and "0 < limit"
    and "read_position cursor w = (Inr p, w)"
    and "length (filter (past_cursor p) (matching_accounts fragment (w_db w))) < n"
  shows "follow_pages n (\<lambda>c. search_user_accounts fragment c limit) cursor w =
    Some (map account_of (filter (past_cursor p) (matching_accounts fragment (w_db w))))"
  using assms(4,5)
proof (induction n arbitrary: cursor p)
  case 0
  then show ?case by simp
next
  case (Suc n)
  let ?L = "matching_accounts fragment (w_db w)"
  define R where "R = filter (past_cursor p) ?L"
  note page = search_page [OF assms(1) Suc.prems(1) assms(3), of fragment, folded R_def]
  show ?case
  proof (cases "length R > limit")
    case False
    then show ?thesis by (simp add: page page_of_def R_def [symmetric])
  next
    case True
    let ?row = "R ! (limit - 1)"
    have i: "limit - 1 < length R" using True by simp
    then have "?row \<in> set (users (w_db w))"
      using nth_mem [OF i] matching_rows by (auto simp: R_def)
    then have "datetime_range (um_created_at ?row)" using assms(2) by (simp add: dated_def)
    note pos = read_position_cursor [OF this, of w]
    have rest: "filter (past_cursor (Some (position_of ?row))) ?L = drop limit R"
      using past_remaining [OF matching_descending [OF assms(1)], of "limit - 1" p fragment] i assms(3)
      by (simp add: R_def)
    have "length (drop limit R) < n" using Suc.prems(2) True assms(3) by (simp add: R_def [symmetric])
    from Suc.IH [OF pos] rest this
    have "follow_pages n (\<lambda>c. search_user_accounts fragment c limit) (Some (encode_cursor ?row)) w =
        Some (map account_of (drop limit R))" by simp
    then show ?thesis
      using True by (simp add: page page_of_def R_def [symmetric] map_append [symmetric] del: map_append)
  qed
qed

section \<open>The public search\<close>

text \<open>Whatever answer the social graph gives, it names the blocked accounts among those it was asked about.\<close>

definition right_answers :: "'r env \<Rightarrow> uuid \<Rightarrow> (uuid \<Rightarrow> bool) \<Rightarrow> bool" where
  "right_answers E viewer blocked \<longleftrightarrow>
     (\<forall>n ids excluded. e_check_blocks E n viewer ids = Some excluded \<longrightarrow>
        (\<forall>i \<in> set ids. i \<in> set excluded \<longleftrightarrow> blocked i))"

text \<open>
  The last two things done on the way to a world were to ask about the same accounts, all of them stored,
  and neither was answered.
\<close>

definition unanswered :: "'r env \<Rightarrow> uuid \<Rightarrow> 'r world \<Rightarrow> 'r world \<Rightarrow> bool" where
  "unanswered E viewer w w' \<longleftrightarrow>
     (\<exists>k ids. w_draws w \<le> k \<and> w_draws w' = Suc (Suc k) \<and> ids \<noteq> [] \<and> set ids \<subseteq> um_id ` set (users (w_db w)) \<and>
        e_check_blocks E k viewer ids = None \<and> e_check_blocks E (Suc k) viewer ids = None)"

lemma unanswered_earlier:
  "unanswered E viewer w1 w' \<Longrightarrow> w_db w1 = w_db w \<Longrightarrow> w_draws w \<le> w_draws w1 \<Longrightarrow> unanswered E viewer w w'"
  unfolding unanswered_def by (elim exE conjE, intro exI conjI) (rule order_trans, assumption+ | simp)+

lemma excluded_run:
  assumes "right_answers E viewer blocked" and "excluded_or_problem E viewer ids w = (x, w')"
    and "ids \<noteq> []" and "set ids \<subseteq> um_id ` set (users (w_db w))"
  shows "w_db w' = w_db w \<and> w_draws w \<le> w_draws w' \<and>
    (x = Inl (ProblemError search_unavailable) \<and> unanswered E viewer w w' \<or>
     (\<exists>X. x = Inr X \<and> (\<forall>i \<in> set ids. i \<in> X \<longleftrightarrow> blocked i)))"
proof -
  let ?k = "w_draws w"
  have right: "e_check_blocks E n viewer ids = Some xs \<Longrightarrow> i \<in> set ids \<Longrightarrow> i \<in> set xs \<longleftrightarrow> blocked i" for n xs i
    using assms(1) by (simp add: right_answers_def)
  note run = assms(2) [unfolded excluded_or_problem_def excluded_ids_def numeral_2_eq_2]
  show ?thesis
  proof (cases "e_check_blocks E ?k viewer ids")
    case (Some xs)
    with run right show ?thesis by (auto simp: bnd_apply)
  next
    case None
    show ?thesis
    proof (cases "e_check_blocks E (Suc ?k) viewer ids")
      case (Some xs)
      with None run right show ?thesis by (auto simp: bnd_apply)
    next
      case again: None
      then have "x = Inl (ProblemError search_unavailable)" "w' = w\<lparr>w_draws := Suc (Suc ?k)\<rparr>"
        using None run by (auto simp: bnd_apply)
      moreover have "unanswered E viewer w (w\<lparr>w_draws := Suc (Suc ?k)\<rparr>)"
        using None again assms(3,4) unfolding unanswered_def by (intro exI [of _ ?k] exI [of _ ids]) simp
      ultimately show ?thesis by simp
    qed
  qed
qed

definition public_accounts :: "string \<Rightarrow> bool \<Rightarrow> db \<Rightarrow> user_model list" where
  "public_accounts fragment handle_only d =
     newest_accounts (filter (matches_public_account fragment handle_only) (users d))"

definition candidate_of :: "user_model \<Rightarrow> search_candidate" where
  "candidate_of row = \<lparr> sc_user = account_of row, sc_cursor = encode_cursor row \<rparr>"

lemma public_descending: "wf_users (users d) \<Longrightarrow> descending (public_accounts fragment handle_only d)"
  unfolding public_accounts_def by (intro newest_descending) (simp add: wf_users_def distinct_map_filter)

lemma public_rows: "r \<in> set (public_accounts fragment handle_only d) \<Longrightarrow> r \<in> set (users d)"
  by (simp add: public_accounts_def)

lemma account_of_id: "ck_users r \<Longrightarrow> u_id (account_of r) = um_id r"
proof -
  assume "ck_users r"
  then obtain u where u: "to_domain r = Some u" using ck_users_total by blast
  then have "u_id u = um_id r" by (simp add: to_domain_Some)
  with u show ?thesis by (simp add: account_of_def)
qed

lemma map2_candidates: "map2 (\<lambda>user row. \<lparr> sc_user = user, sc_cursor = encode_cursor row \<rparr>) (map account_of rows) rows =
    map candidate_of rows"
  by (induction rows) (simp_all add: candidate_of_def)

lemma public_batch:
  assumes "wf_users (users (w_db w))" and "read_position cursor w = (Inr p, w)"
  shows "search_public_accounts fragment handle_only cursor w =
    (Inr (map candidate_of (take SEARCH_BATCH_SIZE
      (filter (past_cursor p) (public_accounts fragment handle_only (w_db w))))), w)"
proof -
  define R where "R = filter (past_cursor p) (public_accounts fragment handle_only (w_db w))"
  have rows: "newest_accounts (filter (\<lambda>row. matches_public_account fragment handle_only row \<and> past_cursor p row)
      (users (w_db w))) = R"
    by (simp add: R_def public_accounts_def newest_filter conj_commute)
  have "ck_users r" if "r \<in> set (take SEARCH_BATCH_SIZE R)" for r
    using that assms(1) public_rows by (fastforce simp: wf_users_def R_def dest!: in_set_takeD)
  from loaded_all_run [OF this]
  have load: "loaded_all (take SEARCH_BATCH_SIZE R) w = (Inr (map account_of (take SEARCH_BATCH_SIZE R)), w)" .
  show ?thesis
    unfolding search_public_accounts_def R_def [symmetric]
    by (simp only: bnd_Inr [where m = "read_position cursor", OF assms(2)] bnd_apply rows
        bnd_Inr [where m = "loaded_all _", OF load] map2_candidates ret_apply)
qed

text \<open>What a query asks for: the fragment, and whether it is sought in the handles alone.\<close>

definition searched :: "string \<Rightarrow> (string \<times> bool) option" where
  "searched q =
     (let s = py_strip q; handle_only = py_startswith s ''@''; fragment = (if handle_only then drop 1 s else s) in
      if CHR 0x00 \<in> set fragment \<or> length fragment < 3 then None else Some (fragment, handle_only))"

text \<open>The candidates the viewer may see, of a listing.\<close>

definition shown :: "(uuid \<Rightarrow> bool) \<Rightarrow> user_model list \<Rightarrow> search_candidate list" where
  "shown blocked rows = map candidate_of (filter (\<lambda>r. \<not> blocked (um_id r)) rows)"

lemma shown_simps [simp]: "shown blocked [] = []" "shown blocked (xs @ ys) = shown blocked xs @ shown blocked ys"
  by (simp_all add: shown_def)

lemma shown_batch:
  assumes "\<And>r. r \<in> set rows \<Longrightarrow> ck_users r" and "\<forall>i \<in> set (map (\<lambda>c. u_id (sc_user c)) (map candidate_of rows)). i \<in> X \<longleftrightarrow> blocked i"
  shows "filter (\<lambda>c. u_id (sc_user c) \<notin> X) (map candidate_of rows) = shown blocked rows"
  using assms by (auto simp: shown_def filter_map o_def candidate_of_def account_of_id intro!: arg_cong [of _ _ "map candidate_of"] filter_cong)

text \<open>One round of the loop over a batch that is not empty: the graph does not answer, or the batch is shown.\<close>

lemma search_loop_round:
  fixes fragment :: string and handle_only :: bool
  assumes wf: "wf_users (users (w_db w))" and graph: "right_answers E viewer blocked"
    and pos: "read_position cursor w = (Inr p, w)"
  defines "B \<equiv> take SEARCH_BATCH_SIZE (filter (past_cursor p) (public_accounts fragment handle_only (w_db w)))"
  assumes more: "\<not> 21 \<le> length visible" "B \<noteq> []"
    and run: "search_loop (Suc n) E fragment handle_only viewer cursor visible w = (x, w')"
  shows "(x = Inl (ProblemError search_unavailable) \<and> unanswered E viewer w w' \<and> w_db w' = w_db w) \<or>
    (\<exists>w1. w_db w1 = w_db w \<and> w_draws w \<le> w_draws w1 \<and>
      (if length B < SEARCH_BATCH_SIZE then ret (visible @ shown blocked B)
       else search_loop n E fragment handle_only viewer (Some (sc_cursor (last (map candidate_of B))))
         (visible @ shown blocked B)) w1 = (x, w'))"
proof -
  have "search_public_accounts fragment handle_only cursor w = (Inr (map candidate_of B), w)"
    using public_batch [OF wf pos, of fragment handle_only] by (simp add: B_def)
  note batch = bnd_Inr [where m = "search_public_accounts fragment handle_only cursor", OF this]
  have rows: "ck_users r" if "r \<in> set B" for r
    using that wf public_rows by (fastforce simp: wf_users_def B_def dest!: in_set_takeD)
  have ne: "map candidate_of B \<noteq> []" using more(2) by simp
  let ?ids = "map (\<lambda>c. u_id (sc_user c)) (map candidate_of B)"
  obtain y w1 where y: "excluded_or_problem E viewer ?ids w = (y, w1)" by fastforce
  have "set B \<subseteq> set (users (w_db w))" using public_rows by (fastforce simp: B_def dest!: in_set_takeD)
  then have "set ?ids \<subseteq> um_id ` set (users (w_db w))" using rows by (force simp: candidate_of_def account_of_id)
  moreover have "?ids \<noteq> []" using ne by simp
  ultimately have asked: "w_db w1 = w_db w \<and> w_draws w \<le> w_draws w1 \<and>
    (y = Inl (ProblemError search_unavailable) \<and> unanswered E viewer w w1 \<or>
     (\<exists>X. y = Inr X \<and> (\<forall>i \<in> set ?ids. i \<in> X \<longleftrightarrow> blocked i)))"
    using excluded_run [OF graph y] by blast
  note loop = run [unfolded search_loop.simps Let_def]
  show ?thesis
  proof (cases y)
    case (Inl e)
    with loop more ne y asked show ?thesis by (simp add: batch bnd_Inl)
  next
    case (Inr X)
    have vis: "filter (\<lambda>c. u_id (sc_user c) \<notin> X) (map candidate_of B) = shown blocked B"
      using asked Inr by (intro shown_batch rows) auto
    note answered = bnd_Inr [where m = "excluded_or_problem E viewer ?ids", OF y [unfolded Inr]]
    have "(if length B < SEARCH_BATCH_SIZE then ret (visible @ shown blocked B)
       else search_loop n E fragment handle_only viewer (Some (sc_cursor (last (map candidate_of B))))
         (visible @ shown blocked B)) w1 = (x, w')"
      using loop by (simp only: more(1) ne if_False batch answered vis length_map)
    with asked show ?thesis by blast
  qed
qed

text \<open>The cursor of a full batch points past exactly the rows of the batch.\<close>

lemma batch_cursor:
  fixes fragment :: string and handle_only :: bool and p :: "(time \<times> uuid) option"
  assumes "wf_users (users d)" and "dated d"
  defines "R \<equiv> filter (past_cursor p) (public_accounts fragment handle_only d)"
  assumes "SEARCH_BATCH_SIZE \<le> length R"
  shows "\<exists>row. last (map candidate_of (take SEARCH_BATCH_SIZE R)) = candidate_of row \<and>
    datetime_range (um_created_at row) \<and>
    filter (past_cursor (Some (position_of row))) (public_accounts fragment handle_only d) =
      drop SEARCH_BATCH_SIZE R"
proof (intro exI conjI)
  let ?row = "R ! (SEARCH_BATCH_SIZE - 1)"
  have i: "SEARCH_BATCH_SIZE - 1 < length R" "take SEARCH_BATCH_SIZE R \<noteq> []"
    using assms(4) by (auto simp: SEARCH_BATCH_SIZE_def)
  show "last (map candidate_of (take SEARCH_BATCH_SIZE R)) = candidate_of ?row"
    using i(2) assms(4) last_take [of SEARCH_BATCH_SIZE R] by (simp add: last_map SEARCH_BATCH_SIZE_def)
  have "?row \<in> set (users d)" using nth_mem [OF i(1)] public_rows by (auto simp: R_def)
  then show "datetime_range (um_created_at ?row)" using assms(2) by (simp add: dated_def)
  show "filter (past_cursor (Some (position_of ?row))) (public_accounts fragment handle_only d) =
      drop SEARCH_BATCH_SIZE R"
    using past_remaining [OF public_descending [OF assms(1)], of "SEARCH_BATCH_SIZE - 1" p fragment handle_only] i(1)
    by (simp add: R_def SEARCH_BATCH_SIZE_def)
qed

lemma search_loop_run:
  fixes fragment :: string and handle_only :: bool
  assumes wf: "wf_users (users (w_db w0))" and dated: "dated (w_db w0)" and graph: "right_answers E viewer blocked"
  defines "L \<equiv> public_accounts fragment handle_only (w_db w0)"
  assumes "w_db w = w_db w0" and "read_position cursor w = (Inr p, w)"
    and "length (filter (past_cursor p) L) < n"
    and "search_loop n E fragment handle_only viewer cursor visible w = (x, w')"
  shows "w_db w' = w_db w0 \<and> (x = Inl (ProblemError search_unavailable) \<and> unanswered E viewer w w' \<or>
    (\<exists>vis. x = Inr vis \<and> prefix vis (visible @ shown blocked (filter (past_cursor p) L)) \<and>
      (21 \<le> length vis \<or> vis = visible @ shown blocked (filter (past_cursor p) L))))"
  using assms(5-8)
proof (induction n arbitrary: cursor p visible w)
  case 0
  then show ?case by simp
next
  case (Suc n)
  define R where "R = filter (past_cursor p) L"
  let ?B = "take SEARCH_BATCH_SIZE R" and ?v = "visible @ shown blocked (take SEARCH_BATCH_SIZE R)"
  have wf': "wf_users (users (w_db w))" using wf Suc.prems(1) by simp
  have batch: "search_public_accounts fragment handle_only cursor w = (Inr (map candidate_of ?B), w)"
    using public_batch [OF wf' Suc.prems(2), of fragment handle_only] Suc.prems(1) by (simp add: R_def L_def)
  note empty = bnd_Inr [where m = "search_public_accounts fragment handle_only cursor", OF batch]
  show ?case
  proof (cases "21 \<le> length visible \<or> R = []")
    case True
    then show ?thesis
      using Suc.prems(1) Suc.prems(4) [unfolded search_loop.simps Let_def]
      by (cases "21 \<le> length visible") (auto simp: empty R_def [symmetric])
  next
    case False
    then have more: "\<not> 21 \<le> length visible" "?B \<noteq> []" by (simp_all add: SEARCH_BATCH_SIZE_def)
    have R: "filter (past_cursor p) (public_accounts fragment handle_only (w_db w)) = R"
      using Suc.prems(1) by (simp add: R_def L_def)
    note round = search_loop_round [OF wf' graph Suc.prems(2), of visible fragment handle_only n, unfolded R, OF more Suc.prems(4)]
    then consider (silent) "x = Inl (ProblemError search_unavailable)" "unanswered E viewer w w'" "w_db w' = w_db w0"
      | (answered) w1 where "w_db w1 = w_db w0"
          "(if length ?B < SEARCH_BATCH_SIZE then ret ?v
            else search_loop n E fragment handle_only viewer (Some (sc_cursor (last (map candidate_of ?B)))) ?v) w1 =
           (x, w')" "w_draws w \<le> w_draws w1"
      using Suc.prems(1) by auto
    then show ?thesis
    proof cases
      case silent
      then show ?thesis by simp
    next
      case answered
      show ?thesis
      proof (cases "length R < SEARCH_BATCH_SIZE")
        case True
        with answered show ?thesis by (auto simp: R_def)
      next
        case False
        then obtain row where row: "last (map candidate_of ?B) = candidate_of row" "datetime_range (um_created_at row)"
          "filter (past_cursor (Some (position_of row))) L = drop SEARCH_BATCH_SIZE R"
          using batch_cursor [OF wf dated, of p fragment handle_only] unfolding R_def L_def by fastforce
        have loop: "search_loop n E fragment handle_only viewer (Some (encode_cursor row)) ?v w1 = (x, w')"
          using answered(2) False row(1) by (simp add: candidate_of_def)
        have "length (drop SEARCH_BATCH_SIZE R) < n"
          using Suc.prems(3) False by (simp add: R_def [symmetric] SEARCH_BATCH_SIZE_def)
        moreover have "shown blocked R = shown blocked ?B @ shown blocked (drop SEARCH_BATCH_SIZE R)"
          by (metis append_take_drop_id shown_simps(2))
        moreover have "unanswered E viewer w1 w' \<Longrightarrow> unanswered E viewer w w'"
          using unanswered_earlier answered(1,3) Suc.prems(1) by metis
        ultimately show ?thesis
          using Suc.IH [OF answered(1) read_position_cursor [OF row(2)] _ loop] row(3)
          by (auto simp: R_def [symmetric])
      qed
    qed
  qed
qed

text \<open>
  The page a search should answer: the rows of the listing past the cursor that the viewer may see, twenty
  of them, and the cursor of the twentieth when there are more.
\<close>

definition visible_page :: "search_candidate list \<Rightarrow> search_candidate list \<times> string option" where
  "visible_page rows = (take 20 rows, if length rows > 20 then Some (sc_cursor (rows ! 19)) else None)"

lemma visible_page_prefix:
  assumes "prefix vis rows" and "21 \<le> length vis \<or> vis = rows"
  shows "visible_page vis = visible_page rows"
  using assms by (auto simp: visible_page_def prefix_def nth_append)

lemma search_run:
  assumes wf: "wf_users (users (w_db w))" and "dated (w_db w)" and "right_answers E viewer blocked"
    and cursor: "read_position cursor w = (Inr p, w)" and q: "searched q = Some (fragment, handle_only)"
  defines "rows \<equiv> shown blocked (filter (past_cursor p) (public_accounts fragment handle_only (w_db w)))"
  assumes run: "search E q viewer cursor w = (x, w')"
  shows "w_db w' = w_db w \<and>
    (x = Inr (visible_page rows) \<or> x = Inl (ProblemError search_unavailable) \<and> unanswered E viewer w w')"
proof -
  let ?n = "length (users (w_db w)) + 2"
  obtain y w1 where y: "search_loop ?n E fragment handle_only viewer cursor [] w = (y, w1)" by fastforce
  have "length (filter (past_cursor p) (public_accounts fragment handle_only (w_db w))) \<le> length (users (w_db w))"
    by (rule order_trans [OF length_filter_le]) (simp add: public_accounts_def)
  then have "length (filter (past_cursor p) (public_accounts fragment handle_only (w_db w))) < ?n" by simp
  note loop = search_loop_run [OF wf assms(2,3) refl cursor this y, folded rows_def]
  have run': "bnd (search_loop ?n E fragment handle_only viewer cursor []) (\<lambda>visible. ret (visible_page visible)) w = (x, w')"
    using run q by (simp add: search_def searched_def visible_page_def Let_def bnd_apply split: if_splits)
  show ?thesis
  proof (cases y)
    case (Inl e)
    with run' y loop show ?thesis by (auto simp: bnd_Inl)
  next
    case (Inr vis)
    with loop have "visible_page vis = visible_page rows" "w_db w1 = w_db w"
      by (auto intro: visible_page_prefix)
    with run' y Inr show ?thesis by (auto simp: bnd_Inr)
  qed
qed

end
