(* ===== verification/Search_Properties.thy ===== *)
theory Search_Properties
  imports Search_Results Example_World
begin

text \<open>The properties of the account searches, with their examples.\<close>

section \<open>Reading a listing as a set\<close>

definition contains :: "string \<Rightarrow> string \<Rightarrow> bool" where
  "contains text fragment \<longleftrightarrow> sublist (py_lower fragment) (py_lower text)"

lemma matches_user_contains:
  "matches_user_account fragment r \<longleftrightarrow>
     app_account r \<and> (contains (um_email r) fragment \<or> contains (um_handle r) fragment)"
  by (simp add: matches_user_account_def contains_def ilike_pattern)

lemma matches_public_contains:
  "matches_public_account fragment handle_only r \<longleftrightarrow>
     app_account r \<and> (contains (um_handle r) fragment \<or>
       \<not> handle_only \<and> (\<exists>name. um_display_name r = Some name \<and> contains name fragment))"
  by (auto simp: matches_public_account_def contains_def ilike_pattern split: option.split)

lemma read_start [simp]: "read_position None w = (Inr None, w)"
  by (simp add: read_position_def)

lemma past_start [simp]: "past_cursor None = (\<lambda>_. True)"
  by (simp add: past_cursor_def fun_eq_iff)

section \<open>The properties\<close>

text \<open>
  C15. Following the cursors of the backoffice search from its first page, for as many pages as there are
  accounts, ends, and lists each open account of the app whose address or handle contains the text,
  upper and lower case aside, exactly once, the newest first: nobody is skipped or repeated between two
  pages, also among accounts created in the same instant.
\<close>

theorem account_pages_complete:
  assumes "constraints (w_db w)" and "dated (w_db w)" and "MIN_QUERY_LENGTH \<le> length (py_strip q)"
    and "length (users (w_db w)) < n"
  shows "\<exists>rows. follow_pages n (search_accounts q) None w = Some (map account_of rows) \<and>
    sorted_wrt (\<lambda>a b. position_of b < position_of a) rows \<and>
    set rows = {r \<in> set (users (w_db w)). um_role r = ''user'' \<and> um_deleted_at r = None \<and>
      (contains (um_email r) (py_strip q) \<or> contains (um_handle r) (py_strip q))}"
proof (intro exI conjI)
  let ?L = "matching_accounts (py_strip q) (w_db w)"
  have wf: "wf_users (users (w_db w))" using assms(1) by (rule wf_users_constraints)
  have "length ?L \<le> length (users (w_db w))" by (simp add: matching_accounts_def)
  then have "length ?L < n" using assms(4) by simp
  moreover have same: "search_accounts q = (\<lambda>c. search_user_accounts (py_strip q) c PAGE_SIZE)"
    using assms(3) by (simp add: search_accounts_def fun_eq_iff)
  ultimately show "follow_pages n (search_accounts q) None w = Some (map account_of ?L)"
    unfolding same using follow_search [OF wf assms(2), of PAGE_SIZE None None "py_strip q" n] by (simp add: PAGE_SIZE_def)
  show "sorted_wrt (\<lambda>a b. position_of b < position_of a) ?L" by (rule matching_descending [OF wf])
qed (auto simp: matching_accounts_def matches_user_contains app_account_def)

lemma demo_dated: "dated demo_db"
  by (simp add: dated_def demo_db_def demo_row_def UserModel_def datetime_range_def EPOCH_ORDINAL_def)

lemma demo_db_size: "length (users demo_db) = 2"
  by (simp add: demo_db_def)

lemma demo_position:
  "position_of (demo_row 1 ''ana@x.ar'' ''@ana1'' ''Secret12'' USER) = (0, 1)"
  "datetime_range (um_created_at (demo_row 1 ''ana@x.ar'' ''@ana1'' ''Secret12'' USER))"
  by (simp_all add: position_of_def demo_row_def UserModel_def datetime_range_def EPOCH_ORDINAL_def)

lemma demo_strip: "py_strip ''ana'' = ''ana''"
  by (simp add: py_strip_def py_strip_by_def py_isspace_def)

lemma demo_found:
  "{r \<in> set (users demo_db). um_role r = ''user'' \<and> um_deleted_at r = None \<and>
     (contains (um_email r) ''ana'' \<or> contains (um_handle r) ''ana'')} =
   {demo_row 1 ''ana@x.ar'' ''@ana1'' ''Secret12'' USER}"
  by (auto simp: demo_db_def demo_row_def UserModel_def User_def contains_def py_lower_def py_lower_char_def
      py_isupper_def sublist_code)

theorem account_pages_complete_witness:
  "\<exists>rows. follow_pages 3 (search_accounts ''ana'') None demo_world = Some (map account_of rows) \<and>
     set rows = {demo_row 1 ''ana@x.ar'' ''@ana1'' ''Secret12'' USER}"
  using account_pages_complete [of demo_world "''ana''" 3] demo_constraints demo_dated
    demo_db_size by (auto simp: demo_strip demo_found MIN_QUERY_LENGTH_def)

text \<open>
  C16. The public search comes to an end whatever the accounts, the blocks and the cursor are, changes
  nothing, and answers the first twenty accounts, newest first, among the open accounts of the app that
  are past the cursor, match the query and have no block with the viewer in either direction, with the
  position of the twentieth when there are more. The one other outcome is the 503 of a social graph
  that failed twice: the last two calls of the search asked it about the same accounts, one right after the
  other, and neither was answered. One failure alone is retried and does not show.
\<close>

theorem public_search_page:
  assumes "constraints (w_db w)" and "dated (w_db w)" and "right_answers E viewer blocked"
    and "read_position cursor w = (Inr p, w)" and "searched q = Some (fragment, handle_only)"
    and "search E q viewer cursor w = (x, w')"
  shows "w_db w' = w_db w \<and> (\<exists>rows. sorted_wrt (\<lambda>a b. position_of b < position_of a) rows \<and>
    set rows = {r \<in> set (users (w_db w)). um_role r = ''user'' \<and> um_deleted_at r = None \<and>
      \<not> blocked (um_id r) \<and> (\<forall>at. p = Some at \<longrightarrow> position_of r < at) \<and>
      (contains (um_handle r) fragment \<or>
        \<not> handle_only \<and> (\<exists>name. um_display_name r = Some name \<and> contains name fragment))} \<and>
    (x = Inr (map candidate_of (take 20 rows), if length rows > 20 then Some (encode_cursor (rows ! 19)) else None) \<or>
     x = Inl (ProblemError search_unavailable) \<and>
       (\<exists>k ids. w_draws w \<le> k \<and> w_draws w' = Suc (Suc k) \<and> ids \<noteq> [] \<and> set ids \<subseteq> um_id ` set (users (w_db w)) \<and>
          e_check_blocks E k viewer ids = None \<and> e_check_blocks E (Suc k) viewer ids = None)))"
proof (intro conjI exI)
  let ?L = "public_accounts fragment handle_only (w_db w)"
  let ?rows = "filter (\<lambda>r. \<not> blocked (um_id r)) (filter (past_cursor p) ?L)"
  have wf: "wf_users (users (w_db w))" using assms(1) by (rule wf_users_constraints)
  note run = search_run [OF wf assms(2-6)]
  then show "w_db w' = w_db w" by simp
  show "sorted_wrt (\<lambda>a b. position_of b < position_of a) ?rows"
    by (intro sorted_wrt_filter public_descending wf)
  show "set ?rows = {r \<in> set (users (w_db w)). um_role r = ''user'' \<and> um_deleted_at r = None \<and>
      \<not> blocked (um_id r) \<and> (\<forall>at. p = Some at \<longrightarrow> position_of r < at) \<and>
      (contains (um_handle r) fragment \<or>
        \<not> handle_only \<and> (\<exists>name. um_display_name r = Some name \<and> contains name fragment))}"
    by (auto simp: public_accounts_def matches_public_contains app_account_def past_cursor_def split: option.splits)
  show "x = Inr (map candidate_of (take 20 ?rows), if length ?rows > 20 then Some (encode_cursor (?rows ! 19)) else None) \<or>
     x = Inl (ProblemError search_unavailable) \<and>
       (\<exists>k ids. w_draws w \<le> k \<and> w_draws w' = Suc (Suc k) \<and> ids \<noteq> [] \<and> set ids \<subseteq> um_id ` set (users (w_db w)) \<and>
          e_check_blocks E k viewer ids = None \<and> e_check_blocks E (Suc k) viewer ids = None)"
    using run [unfolded unanswered_def]
    by (elim conjE disjE) (simp_all add: visible_page_def shown_def take_map candidate_of_def)
qed

theorem public_search_page_witness:
  "w_db (snd (search demo_env ''ana'' 2 None demo_world)) = demo_db \<and>
   (\<exists>page. fst (search demo_env ''ana'' 2 None demo_world) = Inr (page, None))"
proof -
  have graph: "right_answers demo_env 2 (\<lambda>_. False)" by (simp add: right_answers_def)
  have q: "searched ''ana'' = Some (''ana'', False)"
    by (simp add: searched_def demo_strip py_startswith_def Let_def)
  have d: "constraints (w_db demo_world)" "dated (w_db demo_world)"
    using demo_constraints demo_dated by simp_all
  note run = public_search_page [OF d graph read_start q prod.collapse [symmetric]]
  then obtain rows where rows: "descending rows" "set rows \<subseteq> set (users demo_db)"
      "fst (search demo_env ''ana'' 2 None demo_world) =
         Inr (map candidate_of (take 20 rows), if length rows > 20 then Some (encode_cursor (rows ! 19)) else None)"
    by (simp only: demo_world_fields demo_fields) blast
  have "distinct rows" using rows(1)
    by (metis distinct_conv_nth less_irrefl linorder_neqE_nat sorted_wrt_iff_nth_less)
  then have "length rows \<le> card (set (users demo_db))"
    using rows(2) by (metis List.finite_set card_mono distinct_card)
  also have "\<dots> \<le> 2" using card_length [of "users demo_db"] demo_db_size by simp
  finally show ?thesis using rows(3) run by simp
qed

text \<open>
  C17. Reading a cursor back gives the instant and the id of the account it was made from, to the
  microsecond.
\<close>

theorem cursor_round_trip:
  assumes "datetime_range (um_created_at row)"
  shows "decode_cursor (encode_cursor row) = Inr (um_created_at row, um_id row)"
  using assms by (rule decode_encode_cursor)

theorem cursor_round_trip_witness:
  "decode_cursor (encode_cursor (demo_row 1 ''ana@x.ar'' ''@ana1'' ''Secret12'' USER)) = Inr (0, 1)"
  using cursor_round_trip [of "demo_row 1 ''ana@x.ar'' ''@ana1'' ''Secret12'' USER"] demo_position
  by (simp add: position_of_def)

text \<open>
  A fragment is sought as it is written: its percent signs, underscores and backslashes match
  themselves and nothing else, so the pattern of a search matches exactly the texts that contain the
  fragment, upper and lower case aside.
\<close>

lemma fragment_taken_literally:
  "ilike text (''%'' @ escape_like fragment @ ''%'') \<longleftrightarrow>
     (\<exists>before after. py_lower text = before @ py_lower fragment @ after)"
  by (auto simp: ilike_pattern sublist_def)

end
