(* ===== verification/Outbox_Publisher.thy ===== *)
theory Outbox_Publisher
  imports Sessions
begin

text \<open>
  The other half of the outbox: \<open>infrastructure/rabbitmq/outbox_publisher.py\<close>. The broker is a parameter:
  whether a connection can be made, whether it is closed, and how the publication of a message ends
  (confirmed; returned or refused, a \<open>DeliveryError\<close>; any other failure, the timeout included). The rows
  another instance has locked are a parameter too. Here a pass is a function, which no request
  interrupts; \<open>Publisher_Life\<close> has its steps, with the listener, the waiting and what may happen
  in between.
\<close>

section \<open>The broker\<close>

datatype delivery = Confirmed | Delivery_Error | Other_Error

record message =
  msg_payload :: event
  msg_message_id :: string
  msg_type :: string
  msg_routing_key :: string
  msg_mandatory :: bool

record 'b broker =
  bk_connect :: "'b \<Rightarrow> bool \<times> 'b"
  bk_is_closed :: "'b \<Rightarrow> bool"
  bk_publish :: "message \<Rightarrow> 'b \<Rightarrow> delivery \<times> 'b"

definition BATCH_SIZE :: nat where "BATCH_SIZE = 100"

definition outbox_message :: "outbox_model \<Rightarrow> message" where
  "outbox_message row =
     \<lparr> msg_payload = om_payload row, msg_message_id = uuid_str (om_id row), msg_type = om_type row,
       msg_routing_key = om_type row, msg_mandatory = True \<rparr>"

definition publish :: "'b broker \<Rightarrow> outbox_model \<Rightarrow> 'b \<Rightarrow> delivery \<times> 'b" where
  "publish B row b = bk_publish B (outbox_message row) b"

section \<open>A pass\<close>

definition delete_row :: "outbox_model \<Rightarrow> outbox_model list \<Rightarrow> outbox_model list" where
  "delete_row row table = filter (\<lambda>r. om_id r \<noteq> om_id row) table"

text \<open>The loop over the rows: how many were published, whether it was cut short, and what is left.\<close>

fun publish_rows ::
  "'b broker \<Rightarrow> outbox_model list \<Rightarrow> nat \<Rightarrow> outbox_model list \<Rightarrow> 'b \<Rightarrow> (nat \<times> bool) \<times> outbox_model list \<times> 'b" where
  "publish_rows B [] published table b = ((published, False), table, b)"
| "publish_rows B (row # rows) published table b =
     (case publish B row b of
        (Delivery_Error, b') \<Rightarrow> publish_rows B rows published table b'
      | (Other_Error, b') \<Rightarrow> ((published, True), table, b')
      | (Confirmed, b') \<Rightarrow> publish_rows B rows (published + 1) (delete_row row table) b')"

definition batch :: "(outbox_model \<Rightarrow> bool) \<Rightarrow> outbox_model list \<Rightarrow> outbox_model list" where
  "batch locked table = take BATCH_SIZE (sort_key om_created_at (filter (\<lambda>row. \<not> locked row) table))"

definition publish_batch ::
  "'b broker \<Rightarrow> (outbox_model \<Rightarrow> bool) \<Rightarrow> outbox_model list \<Rightarrow> 'b \<Rightarrow>
     (nat \<times> bool) \<times> outbox_model list \<times> 'b" where
  "publish_batch B locked table b = publish_rows B (batch locked table) 0 table b"

lemma publish_rows_deletes:
  "publish_rows B rows n table b = ((n', i), table', b') \<Longrightarrow> n \<le> n' \<and> length table' \<le> length table"
proof (induction rows arbitrary: n table b)
  case Nil
  then show ?case by simp
next
  case (Cons row rows)
  obtain y b1 where p: "publish B row b = (y, b1)" by fastforce
  have "length (delete_row row table) \<le> length table" by (simp add: delete_row_def)
  with Cons.IH [of "n + 1" "delete_row row table" b1] Cons.IH [of n table b1] Cons.prems p show ?case
    by (cases y) simp_all
qed

lemma publish_rows_shrinks:
  "publish_rows B rows n table b = ((n', i), table', b') \<Longrightarrow> set rows \<subseteq> set table \<Longrightarrow> n < n' \<Longrightarrow>
     length table' < length table"
proof (induction rows arbitrary: n b)
  case Nil
  then show ?case by simp
next
  case (Cons row rows)
  obtain y b1 where p: "publish B row b = (y, b1)" by fastforce
  show ?case
  proof (cases y)
    case Confirmed
    have "length (delete_row row table) < length table"
      unfolding delete_row_def by (rule length_filter_less) (use Cons.prems(2) in auto)
    with publish_rows_deletes Cons.prems(1) p Confirmed show ?thesis by fastforce
  qed (use Cons p in auto)
qed

lemma batch_rows: "set (batch locked table) \<subseteq> set table"
  by (auto simp: batch_def dest: in_set_takeD)

section \<open>Draining\<close>

text \<open>
  Passes until one is cut short or publishes less than a full batch. A full one deletes rows, so the
  loop ends.
\<close>

function drain_loop ::
  "'b broker \<Rightarrow> (outbox_model \<Rightarrow> bool) \<Rightarrow> outbox_model list \<Rightarrow> 'b \<Rightarrow> outbox_model list \<times> 'b" where
  "drain_loop B locked table b =
     (case publish_batch B locked table b of
        ((published, interrupted), table', b') \<Rightarrow>
          if interrupted \<or> published < BATCH_SIZE then (table', b')
          else drain_loop B locked table' b')"
  by pat_completeness auto
termination
proof (relation "measure (\<lambda>(B, locked, table, b). length table)", goal_cases)
  case 2
  then show ?case
    using publish_rows_shrinks [OF sym batch_rows] by (fastforce simp: publish_batch_def BATCH_SIZE_def)
qed simp

declare drain_loop.simps [simp del]

text \<open>\<open>connect\<close> keeps a connection that is open; one that cannot be made raises.\<close>

definition connect :: "'b broker \<Rightarrow> bool \<Rightarrow> 'b \<Rightarrow> bool \<times> bool \<times> 'b" where
  "connect B connected b =
     (if connected \<and> \<not> bk_is_closed B b then (True, True, b)
      else case bk_connect B b of (ok, b') \<Rightarrow> (ok, connected \<or> ok, b'))"

text \<open>The body of the loop of \<open>run\<close>: a drain whose exceptions are logged and dropped.\<close>

definition run_pass ::
  "'b broker \<Rightarrow> (outbox_model \<Rightarrow> bool) \<Rightarrow> bool \<Rightarrow> 'b \<Rightarrow> 'r world \<Rightarrow> (bool \<times> 'b) \<times> 'r world" where
  "run_pass B locked connected b w =
     (case connect B connected b of
        (False, connected', b') \<Rightarrow> ((connected', b'), w)
      | (True, connected', b') \<Rightarrow>
          (case drain_loop B locked (outbox (w_db w)) b' of
             (table, b'') \<Rightarrow> ((connected', b''), w\<lparr>w_db := (w_db w)\<lparr>outbox := table\<rparr>\<rparr>)))"

section \<open>What the broker confirms\<close>

text \<open>A broker that also keeps the messages it confirmed.\<close>

definition recording :: "'b broker \<Rightarrow> ('b \<times> message list) broker" where
  "recording B =
     \<lparr> bk_connect = (\<lambda>(b, log). case bk_connect B b of (ok, b') \<Rightarrow> (ok, (b', log))),
       bk_is_closed = (\<lambda>(b, log). bk_is_closed B b),
       bk_publish = (\<lambda>m (b, log). case bk_publish B m b of (y, b') \<Rightarrow>
         (y, (b', if y = Confirmed then log @ [m] else log))) \<rparr>"

lemma publish_recording:
  "publish (recording B) row (b, log) = (case publish B row b of (y, b') \<Rightarrow>
     (y, (b', if y = Confirmed then log @ [outbox_message row] else log)))"
  by (simp add: publish_def recording_def)

lemma publish_rows_recording:
  "publish_rows (recording B) rows n table (b, log) = ((n', i), table', (b', log')) \<Longrightarrow>
     \<exists>new. log' = log @ map outbox_message new \<and> subseq new rows \<and> n' = n + length new \<and>
       table' = filter (\<lambda>r. om_id r \<notin> om_id ` set new) table"
proof (induction rows arbitrary: n table b log)
  case Nil
  then show ?case by (intro exI [of _ "[]"]) simp
next
  case (Cons row rows)
  obtain y b1 where p: "publish B row b = (y, b1)" by fastforce
  show ?case
  proof (cases y)
    case Confirmed
    obtain new where "log' = (log @ [outbox_message row]) @ map outbox_message new" "subseq new rows"
      "n' = n + 1 + length new" "table' = filter (\<lambda>r. om_id r \<notin> om_id ` set new) (delete_row row table)"
      using Cons.IH [of "n + 1" "delete_row row table" b1 "log @ [outbox_message row]"] Cons.prems p Confirmed
      by (auto simp: publish_recording)
    then show ?thesis by (intro exI [of _ "row # new"]) (auto simp: delete_row_def intro!: filter_cong)
  next
    case Delivery_Error
    obtain new where "log' = log @ map outbox_message new" "subseq new rows" "n' = n + length new"
      "table' = filter (\<lambda>r. om_id r \<notin> om_id ` set new) table"
      using Cons.IH [of n table b1 log] Cons.prems p Delivery_Error by (auto simp: publish_recording)
    then show ?thesis by (intro exI [of _ new]) auto
  next
    case Other_Error
    with Cons.prems p show ?thesis by (intro exI [of _ "[]"]) (auto simp: publish_recording)
  qed
qed

text \<open>The rows with these ids are these rows.\<close>

lemma ids_of_rows:
  assumes "distinct (map om_id table)" and "set new \<subseteq> set table"
  shows "filter (\<lambda>r. om_id r \<notin> om_id ` set new) table = filter (\<lambda>r. r \<notin> set new) table"
  using assms by (intro filter_cong refl) (auto simp: distinct_map inj_on_def)

definition confirmed_rows ::
  "(outbox_model \<Rightarrow> bool) \<Rightarrow> outbox_model list \<Rightarrow> outbox_model list \<Rightarrow> outbox_model list \<Rightarrow> bool" where
  "confirmed_rows locked table table' new \<longleftrightarrow>
     table' = filter (\<lambda>r. r \<notin> set new) table \<and> set new \<subseteq> {r \<in> set table. \<not> locked r} \<and>
     distinct new \<and> sorted (map om_created_at new)"

lemma subseq_batch:
  assumes "subseq new (batch locked table)" and "distinct (map om_id table)"
  shows "set new \<subseteq> {r \<in> set table. \<not> locked r} \<and> distinct new \<and> sorted (map om_created_at new)"
proof -
  obtain N where new: "new = nths (batch locked table) N" using assms(1) by (auto simp: subseq_conv_nths)
  have "set (batch locked table) \<subseteq> {r \<in> set table. \<not> locked r}"
    by (auto simp: batch_def dest: in_set_takeD)
  then have "set new \<subseteq> {r \<in> set table. \<not> locked r}"
    unfolding new by (rule subset_trans [OF set_nths_subset])
  moreover have "distinct table" using assms(2) by (simp add: distinct_map)
  then have "distinct (batch locked table)" by (simp add: batch_def)
  then have "distinct new" unfolding new by (rule distinct_nthsI)
  moreover have "sorted (map om_created_at (batch locked table))"
    by (simp add: batch_def take_map [symmetric] sorted_wrt_take)
  then have "sorted (map om_created_at new)" unfolding new nths_map [symmetric] by (rule sorted_nths)
  ultimately show ?thesis by blast
qed

text \<open>A pass that published a full batch took the oldest rows, so what is left is not older.\<close>

lemma full_batch:
  assumes "r \<in> set table" and "\<not> locked r" and "r \<notin> set (batch locked table)" and "x \<in> set (batch locked table)"
  shows "om_created_at x \<le> om_created_at r"
proof -
  let ?L = "sort_key om_created_at (filter (\<lambda>row. \<not> locked row) table)"
  have L: "?L = batch locked table @ drop BATCH_SIZE ?L" by (simp add: batch_def)
  have "r \<in> set ?L" using assms by simp
  with L assms(3) have "r \<in> set (drop BATCH_SIZE ?L)" by (metis Un_iff set_append)
  moreover have "sorted (map om_created_at (batch locked table @ drop BATCH_SIZE ?L))"
    by (metis L sorted_sort_key)
  ultimately show ?thesis using assms(4) by (auto simp: sorted_append)
qed

lemma drain_recording:
  assumes "drain_loop (recording B) locked table (b, log) = (table', (b', log'))"
    and "distinct (map om_id table)"
  shows "\<exists>new. log' = log @ map outbox_message new \<and> confirmed_rows locked table table' new"
  using assms
proof (induction "length table" arbitrary: table b log rule: less_induct)
  case less
  let ?p = "publish_batch (recording B) locked table (b, log)"
  obtain n i table1 b1 log1 where p: "?p = ((n, i), table1, (b1, log1))" by (metis prod.collapse)
  obtain new where new: "log1 = log @ map outbox_message new" "subseq new (batch locked table)" "n = length new"
    "table1 = filter (\<lambda>r. om_id r \<notin> om_id ` set new) table"
    using publish_rows_recording [of B "batch locked table" 0 table b log n i table1 b1 log1] p
    by (auto simp: publish_batch_def)
  note sub = subseq_batch [OF new(2) less.prems(2)]
  have table1: "table1 = filter (\<lambda>r. r \<notin> set new) table"
    using ids_of_rows [OF less.prems(2)] sub new(4) by auto
  show ?case
  proof (cases "i \<or> n < BATCH_SIZE")
    case True
    then have "table' = table1" "log' = log1"
      using less.prems(1) p by (simp_all add: drain_loop.simps [of "recording B" locked table])
    with new(1) table1 sub show ?thesis by (auto simp: confirmed_rows_def)
  next
    case False
    then have rec: "drain_loop (recording B) locked table1 (b1, log1) = (table', (b', log'))"
      using less.prems(1) p by (simp add: drain_loop.simps [of "recording B" locked table])
    have "length (batch locked table) \<le> BATCH_SIZE" by (simp add: batch_def)
    then have "length new = length (batch locked table)"
      using list_emb_length [OF new(2)] new(3) False by linarith
    then have all: "new = batch locked table" by (rule subseq_same_length [OF new(2)])
    have "length table1 < length table"
      using publish_rows_shrinks [OF p [unfolded publish_batch_def] batch_rows] False by (auto simp: BATCH_SIZE_def)
    moreover have "distinct (map om_id table1)" using less.prems(2) by (simp add: table1 distinct_map_filter)
    ultimately obtain new2 where new2: "log' = log1 @ map outbox_message new2"
      "confirmed_rows locked table1 table' new2"
      using less.hyps [OF _ rec] by blast
    have "confirmed_rows locked table table' (new @ new2)"
      using new2(2) sub full_batch [of _ table locked] all
      by (auto simp: confirmed_rows_def table1 sorted_append intro!: filter_cong)
    with new(1) new2(1) show ?thesis by (intro exI [of _ "new @ new2"]) simp
  qed
qed

section \<open>Two extremes\<close>

lemma publish_rows_all:
  assumes "\<And>m b. fst (bk_publish B m b) = Confirmed"
  shows "\<exists>b'. publish_rows B rows n table b =
    ((n + length rows, False), filter (\<lambda>r. om_id r \<notin> om_id ` set rows) table, b')"
proof (induction rows arbitrary: n table b)
  case Nil
  then show ?case by simp
next
  case (Cons row rows)
  obtain b1 where "publish B row b = (Confirmed, b1)"
    using assms [of "outbox_message row" b] unfolding publish_def by (metis prod.collapse)
  with Cons.IH [of "n + 1" "delete_row row table" b1] show ?case
    by (auto simp: delete_row_def intro!: filter_cong)
qed

lemma drain_all:
  assumes "\<And>m b. fst (bk_publish B m b) = Confirmed"
  shows "distinct (map om_id table) \<Longrightarrow> fst (drain_loop B locked table b) = filter locked table"
proof (induction "length table" arbitrary: table b rule: less_induct)
  case less
  let ?rest = "filter (\<lambda>r. r \<notin> set (batch locked table)) table"
  obtain b1 where p: "publish_batch B locked table b = ((length (batch locked table), False), ?rest, b1)"
    using publish_rows_all [OF assms, of "batch locked table" 0 table b] ids_of_rows [OF less.prems batch_rows]
    unfolding publish_batch_def by fastforce
  show ?case
  proof (cases "length (batch locked table) < BATCH_SIZE")
    case True
    then have "batch locked table = sort_key om_created_at (filter (\<lambda>row. \<not> locked row) table)"
      by (auto simp: batch_def)
    then have "?rest = filter locked table" by (auto intro!: filter_cong)
    with True p show ?thesis by (simp add: drain_loop.simps [of B locked table])
  next
    case False
    then have "0 < length (batch locked table)"
      by (cases "batch locked table") (simp_all add: BATCH_SIZE_def)
    with publish_rows_shrinks [OF p [unfolded publish_batch_def] batch_rows] have "length ?rest < length table" .
    moreover have "distinct (map om_id ?rest)" using less.prems by (rule distinct_map_filter)
    ultimately have "fst (drain_loop B locked ?rest b1) = filter locked ?rest" by (rule less.hyps)
    moreover have "filter locked ?rest = filter locked table"
      by (auto simp: batch_def dest!: in_set_takeD intro!: filter_cong)
    ultimately show ?thesis using False p by (simp add: drain_loop.simps [of B locked table])
  qed
qed

lemma publish_rows_none:
  "(\<And>row b. row \<in> set rows \<Longrightarrow> fst (publish B row b) = Delivery_Error) \<Longrightarrow>
     \<exists>b'. publish_rows B rows n table b = ((n, False), table, b')"
proof (induction rows arbitrary: b)
  case Nil
  then show ?case by simp
next
  case (Cons row rows)
  obtain b1 where "publish B row b = (Delivery_Error, b1)"
    using Cons.prems [of row b] by (metis list.set_intros(1) prod.collapse)
  with Cons.IH [of b1] Cons.prems show ?case by auto
qed

lemma drain_none:
  assumes "\<And>row b. row \<in> set (batch locked table) \<Longrightarrow> fst (publish B row b) = Delivery_Error"
  shows "fst (drain_loop B locked table b) = table"
proof -
  obtain b1 where "publish_batch B locked table b = ((0, False), table, b1)"
    using publish_rows_none [OF assms] unfolding publish_batch_def by blast
  then show ?thesis by (simp add: drain_loop.simps [of B locked table] BATCH_SIZE_def)
qed

section \<open>A pass is a step of the service\<close>

lemma publish_rows_later: "\<exists>gone. fst (snd (publish_rows B rows n table b)) = filter (\<lambda>r. \<not> gone r) table"
proof (induction rows arbitrary: n table b)
  case Nil
  then show ?case by (intro exI [of _ "\<lambda>_. False"]) simp
next
  case (Cons row rows)
  obtain y b1 where p: "publish B row b = (y, b1)" by fastforce
  obtain g where g: "fst (snd (publish_rows B rows (n + 1) (delete_row row table) b1)) =
      filter (\<lambda>r. \<not> g r) (delete_row row table)" using Cons.IH by blast
  show ?case
  proof (cases y)
    case Confirmed
    with p g show ?thesis by (intro exI [of _ "\<lambda>r. g r \<or> om_id r = om_id row"]) (simp add: delete_row_def conj_commute)
  next
    case Delivery_Error
    with p Cons.IH [of n table b1] show ?thesis by simp
  next
    case Other_Error
    with p show ?thesis by (intro exI [of _ "\<lambda>_. False"]) simp
  qed
qed

lemma drain_later: "\<exists>gone. fst (drain_loop B locked table b) = filter (\<lambda>r. \<not> gone r) table"
proof (induction B locked table b rule: drain_loop.induct)
  case (1 B locked table b)
  obtain n i table1 b1 where p: "publish_batch B locked table b = ((n, i), table1, b1)" by (metis prod.collapse)
  obtain g where g: "table1 = filter (\<lambda>r. \<not> g r) table"
    using publish_rows_later [of B "batch locked table" 0 table b] p by (auto simp: publish_batch_def)
  show ?case
  proof (cases "i \<or> n < BATCH_SIZE")
    case True
    with p g show ?thesis by (auto simp: drain_loop.simps [of B locked table])
  next
    case False
    then obtain h where "fst (drain_loop B locked table1 b1) = filter (\<lambda>r. \<not> h r) table1"
      using 1 [OF p [symmetric] refl refl] by blast
    with False p g show ?thesis
      by (intro exI [of _ "\<lambda>r. g r \<or> h r"]) (simp add: drain_loop.simps [of B locked table])
  qed
qed

lemma run_pass_later:
  assumes "later E S w w'"
  shows "later E S w (snd (run_pass B locked connected b w'))"
proof -
  obtain ok connected' b1 where c: "connect B connected b = (ok, connected', b1)" by (metis prod_cases3)
  obtain table b2 where d: "drain_loop B locked (outbox (w_db w')) b1 = (table, b2)" by fastforce
  then obtain gone where "table = filter (\<lambda>r. \<not> gone r) (outbox (w_db w'))"
    using drain_later [of B locked "outbox (w_db w')" b1] by auto
  then show ?thesis
    using c d assms later.publisher [OF assms, of gone] by (cases ok) (simp_all add: run_pass_def)
qed

end
