(* ===== verification/Health.thy ===== *)
theory Health
  imports Prelude
begin

text \<open>
  The readiness report of \<open>infrastructure/health.py\<close> and the answer of \<open>/healthcheck\<close>
  (\<open>api/health.py\<close>). What a probe found is an argument: a dependency answered, or failed with a text.
\<close>

record dependency_status =
  ds_name :: string
  ds_is_healthy :: bool
  ds_detail :: "string option"

definition check_dependency :: "string \<Rightarrow> string option \<Rightarrow> dependency_status" where
  "check_dependency name failure =
     (case failure of
        Some error \<Rightarrow> \<lparr> ds_name = name, ds_is_healthy = False, ds_detail = Some error \<rparr>
      | None \<Rightarrow> \<lparr> ds_name = name, ds_is_healthy = True, ds_detail = None \<rparr>)"

record health_report =
  hr_status :: string
  hr_dependencies :: "(string \<times> string option) list"
  hr_version :: string

definition build_report :: "dependency_status list \<Rightarrow> (string \<times> (string \<times> string option) list) \<times> int" where
  "build_report statuses =
     (let is_healthy = (\<forall>s \<in> set statuses. ds_is_healthy s) in
      ((if is_healthy then ''ok'' else ''degraded'',
        map (\<lambda>s. (ds_name s, if ds_is_healthy s then Some ''ok'' else ds_detail s)) statuses),
       if is_healthy then 200 else 503))"

definition healthcheck :: "string \<Rightarrow> string option \<Rightarrow> string option \<Rightarrow> health_report \<times> int" where
  "healthcheck version postgres_failure redis_failure =
     (let statuses = [check_dependency ''postgres'' postgres_failure, check_dependency ''redis'' redis_failure]
      in case build_report statuses of
           ((status, dependencies), code) \<Rightarrow>
             (\<lparr> hr_status = status, hr_dependencies = dependencies, hr_version = version \<rparr>, code))"

lemma healthcheck_code:
  "snd (healthcheck version p r) = (if p = None \<and> r = None then 200 else 503)"
  by (auto simp: healthcheck_def build_report_def check_dependency_def Let_def split: option.splits)

end
