(* ===== verification/Messaging_Properties.thy ===== *)
theory Messaging_Properties
  imports Outbox_Publisher Example_World Health
begin

text \<open>The properties of the processes beside the requests: publisher, consumer and seed.\<close>

section \<open>The outbox\<close>

lemma connect_recording:
  "connect (recording B) connected (b, log) =
     (case connect B connected b of (ok, connected', b') \<Rightarrow> (ok, connected', b', log))"
  by (auto simp: connect_def recording_def split: prod.split)

text \<open>
  C19. A pass of the publisher moves events and loses none: the messages the broker confirmed are those
  of some rows nobody else had locked, each once and the oldest first, and exactly these rows are gone
  from the outbox. Whatever the broker returned, refused or did not answer is still there, and nothing
  else of the service has changed.
\<close>

theorem published_exactly_confirmed:
  assumes "constraints (w_db w)"
    and "run_pass (recording B) locked connected (b, []) w = ((connected', b', confirmed), w')"
  shows "\<exists>rows. confirmed = map outbox_message rows \<and> distinct rows \<and> sorted (map om_created_at rows) \<and>
    set rows \<subseteq> {r \<in> set (outbox (w_db w)). \<not> locked r} \<and>
    w' = w\<lparr>w_db := (w_db w)\<lparr>outbox := filter (\<lambda>r. r \<notin> set rows) (outbox (w_db w))\<rparr>\<rparr>"
proof -
  obtain ok connected1 b1 where c: "connect (recording B) connected (b, []) = (ok, connected1, b1, [])"
    unfolding connect_recording by (metis (no_types, lifting) case_prod_conv prod_cases3)
  have d: "distinct (map om_id (outbox (w_db w)))" using assms(1) by (simp add: constraints_def)
  obtain table b2 log2 where t: "drain_loop (recording B) locked (outbox (w_db w)) (b1, []) = (table, b2, log2)"
    by (metis prod.collapse)
  show ?thesis
  proof (cases ok)
    case True
    with assms(2) c t drain_recording [OF t d] show ?thesis
      by (auto simp: run_pass_def confirmed_rows_def)
  next
    case False
    with assms(2) c show ?thesis by (intro exI [of _ "[]"]) (simp add: run_pass_def)
  qed
qed

text \<open>A broker that confirms what is addressed to \<open>known\<close> types and hands back the rest.\<close>

definition demo_broker :: "string set \<Rightarrow> unit broker" where
  "demo_broker known =
     \<lparr> bk_connect = (\<lambda>b. (True, b)), bk_is_closed = (\<lambda>b. False),
       bk_publish = (\<lambda>m b. (if msg_type m \<in> known then Confirmed else Delivery_Error, b)) \<rparr>"

definition demo_event_row :: "(nat \<Rightarrow> string) \<Rightarrow> nat \<Rightarrow> outbox_model" where
  "demo_event_row kind i =
     \<lparr> om_id = of_nat i, om_type = kind i,
       om_payload = \<lparr> ev_specversion = ''1.0'', ev_id = uuid_str (of_nat i), ev_source = ''users-api'',
         ev_type = kind i, ev_time = int i, ev_data = [] \<rparr>,
       om_created_at = int i \<rparr>"

definition demo_outbox :: "(nat \<Rightarrow> string) \<Rightarrow> nat \<Rightarrow> keyspace world" where
  "demo_outbox kind n = demo_world\<lparr>w_db := empty_db\<lparr>outbox := map (demo_event_row kind) [0..<n]\<rparr>\<rparr>"

lemma demo_outbox_two: "constraints (w_db (demo_outbox kind 2))"
  by (simp add: demo_outbox_def constraints_def empty_db_def users_unique_def tokens_constraints_def
      demo_event_row_def upt_rec numeral_2_eq_2)

lemma demo_batch:
  "batch (\<lambda>_. False) (outbox (w_db (demo_outbox kind n))) = map (demo_event_row kind) [0..<min n 100]"
proof -
  let ?rows = "map (demo_event_row kind) [0..<n]"
  have "sorted (map om_created_at ?rows)"
    by (simp add: demo_event_row_def o_def sorted_map sorted_wrt_iff_nth_less)
  then have "sort_key om_created_at ?rows = ?rows" by (rule sort_key_id_if_sorted)
  then show ?thesis by (simp add: batch_def demo_outbox_def BATCH_SIZE_def take_map take_upt min_def)
qed

theorem published_exactly_confirmed_witness:
  "\<exists>rows. snd (snd (fst (run_pass (recording (demo_broker {''a''})) (\<lambda>_. False) False ((), [])
       (demo_outbox (\<lambda>i. if i = 0 then ''a'' else ''b'') 2)))) = map outbox_message rows \<and>
     set rows \<subseteq> set (outbox (w_db (demo_outbox (\<lambda>i. if i = 0 then ''a'' else ''b'') 2)))"
proof -
  let ?w = "demo_outbox (\<lambda>i. if i = 0 then ''a'' else ''b'') 2"
  obtain c b confirmed w' where run: "run_pass (recording (demo_broker {''a''})) (\<lambda>_. False) False ((), []) ?w =
      ((c, b, confirmed), w')" by (metis prod.collapse)
  from published_exactly_confirmed [OF demo_outbox_two run] run show ?thesis by auto
qed

text \<open>
  C20. When the broker answers every publication with a confirmation, one pass empties the outbox, of any
  length: the only rows left are those another instance of the service had locked.
\<close>

theorem outbox_emptied:
  assumes "constraints (w_db w)" and "fst (connect B connected b)"
    and "\<And>m b. fst (bk_publish B m b) = Confirmed"
  shows "outbox (w_db (snd (run_pass B locked connected b w))) = filter locked (outbox (w_db w))"
proof -
  obtain connected1 b1 where c: "connect B connected b = (True, connected1, b1)"
    using assms(2) by (cases "connect B connected b") auto
  have "distinct (map om_id (outbox (w_db w)))" using assms(1) by (simp add: constraints_def)
  from drain_all [OF assms(3) this, of locked b1] c show ?thesis
    by (auto simp: run_pass_def split: prod.split)
qed

theorem outbox_emptied_witness:
  "outbox (w_db (snd (run_pass (demo_broker UNIV) (\<lambda>_. False) False () (demo_outbox (\<lambda>_. ''a'') 2)))) = []"
  using outbox_emptied [OF demo_outbox_two, of "demo_broker UNIV" False "()" "\<lambda>_. False" "\<lambda>_. ''a''"]
  by (simp add: demo_broker_def connect_def)

text \<open>
  C21. The events the broker hands back hold back the others once they fill a batch: when it returns the
  rows of the batch, which are the hundred oldest, a pass publishes nothing and changes nothing, and so
  does every later one, however many newer events could be delivered.
\<close>

theorem returned_batch_starves:
  assumes "\<And>row b. row \<in> set (batch locked (outbox (w_db w))) \<Longrightarrow> fst (publish B row b) = Delivery_Error"
  shows "snd (run_pass B locked connected b w) = w"
proof -
  obtain ok connected1 b1 where c: "connect B connected b = (ok, connected1, b1)" by (metis prod_cases3)
  from drain_none [of locked "outbox (w_db w)" B b1] assms c show ?thesis
    by (cases ok) (auto simp: run_pass_def split: prod.split)
qed

theorem returned_batch_starves_witness:
  "let w = demo_outbox (\<lambda>i. if i < 100 then ''a'' else ''b'') 101; B = demo_broker {''b''} in
   snd (run_pass B (\<lambda>_. False) False () w) = w \<and>
   (\<exists>row \<in> set (outbox (w_db w)). fst (publish B row ()) = Confirmed)"
proof -
  let ?kind = "\<lambda>i. if i < 100 then ''a'' else ''b''" and ?B = "demo_broker {''b''}"
  have "fst (publish ?B row b) = Delivery_Error"
    if "row \<in> set (batch (\<lambda>_. False) (outbox (w_db (demo_outbox ?kind 101))))" for row b
    using that unfolding demo_batch
    by (auto simp: publish_def demo_broker_def outbox_message_def demo_event_row_def)
  note stuck = returned_batch_starves [OF this]
  have "fst (publish ?B (demo_event_row ?kind 100) ()) = Confirmed"
    by (simp add: publish_def demo_broker_def outbox_message_def demo_event_row_def)
  moreover have "demo_event_row ?kind 100 \<in> set (outbox (w_db (demo_outbox ?kind 101)))"
    by (simp add: demo_outbox_def)
  ultimately show ?thesis unfolding Let_def using stuck by blast
qed

section \<open>The events consumed\<close>

text \<open>An environment whose parser reads one event, and that event.\<close>

definition demo_delivery :: json where
  "demo_delivery = JObject
     [(''specversion'', JString ''1.0''), (''id'', JString (uuid_str 7)), (''source'', JString ''posts-api''),
      (''type'', JString ADMIN_ACTION_RECORDED), (''time'', JInt 5),
      (''data'', JObject
        [(''actor_id'', JString (uuid_str 2)), (''actor_email'', JString ''root@x.ar''),
         (''action'', JString ''report.dismissed''), (''target_type'', JString ''user''),
         (''target_id'', JString (uuid_str 1)), (''details'', JObject [(''reports_count'', JInt 3)])])]"

definition delivering_env :: "keyspace env" where
  "delivering_env = demo_env\<lparr>e_json_parse := (\<lambda>body. if body = ''{}'' then None else Some demo_delivery)\<rparr>"

text \<open>
  C22. A delivery is settled by its content alone. One that is not a valid event goes to the dead letter
  queue and touches nothing. A valid one is acknowledged, never requeued by the constraints of the
  tables, and afterwards the audit log holds its entry; when the log had one with that id, nothing
  changes, so a message delivered twice is logged once.
\<close>

theorem delivery_settled:
  assumes "storable (w_db w)" and "settle E body w = (x, w')"
  shows "case model_validate_json E body of
      None \<Rightarrow> x = Rejected \<and> w' = w
    | Some ev \<Rightarrow> x = Acked \<and> storable (w_db w') \<and>
        w_db w' = (w_db w)\<lparr>admin_audit_log :=
          if av_id ev \<in> ae_id ` set (admin_audit_log (w_db w)) then admin_audit_log (w_db w)
          else admin_audit_log (w_db w) @ [event_entry ev]\<rparr> \<and>
        fst (settle E body w') = Acked \<and> w_db (snd (settle E body w')) = w_db w'"
proof (cases "model_validate_json E body")
  case None
  with assms(2) show ?thesis by (simp add: settle_malformed)
next
  case (Some ev)
  let ?d = "with_entry (event_entry ev) (w_db w)"
  have d: "storable ?d" by (rule storable_with_entry [OF assms(1) event_entry_action [OF Some]])
  have w': "x = Acked" "w_db w' = ?d" using assms(2) settle_event [OF assms(1) Some] by auto
  have "av_id ev = ae_id (event_entry ev)" by (simp add: event_entry_def)
  then have "?d = (w_db w)\<lparr>admin_audit_log :=
      if av_id ev \<in> ae_id ` set (admin_audit_log (w_db w)) then admin_audit_log (w_db w)
      else admin_audit_log (w_db w) @ [event_entry ev]\<rparr>" by (simp add: with_entry_def)
  moreover have "fst (settle E body w') = Acked \<and> w_db (snd (settle E body w')) = w_db w'"
    using settle_event [of w' E body ev] w' d Some by (simp add: with_entry_twice)
  ultimately show ?thesis using w' d Some by simp
qed

lemma demo_storable: "storable demo_db"
  using demo_constraints
  by (simp add: storable_def demo_db_def users_widths_def demo_row_def UserModel_def User_def)

lemma delivering:
  "model_validate_json delivering_env ''event'' =
     Some \<lparr> av_id = 7, av_time = seconds 5, av_data = \<lparr> ad_actor_id = 2, ad_actor_email = ''root@x.ar'',
       ad_action = ''report.dismissed'', ad_target_type = ''user'', ad_target_id = 1, ad_reports_count = 3 \<rparr> \<rparr>"
  by (simp add: model_validate_json_def delivering_env_def demo_env_def AuditEvent_def AuditData_def
      AuditDetails_def demo_delivery_def json_literal_def json_email_def)

theorem delivery_settled_witness:
  "fst (settle delivering_env ''event'' demo_world) = Acked \<and>
   map ae_id (admin_audit_log (w_db (snd (settle delivering_env ''event'' demo_world)))) = [7]"
  using delivery_settled [of demo_world delivering_env "''event''", OF _ prod.collapse [symmetric]] demo_storable
  by (simp add: delivering event_entry_def demo_db_def empty_db_def)

section \<open>The seed\<close>

text \<open>
  C23. A run of the seed that exits with 0 leaves an account with the configured address: the one that was
  there, with nothing changed, or a new superadministrator with the configured password, added to the
  accounts there were. A second run finds it and changes nothing. Any other exit changes nothing; it is 2
  exactly when the configuration is not valid, and an address that is known always exits with 0.
\<close>

theorem seed_outcome:
  assumes "storable (w_db w)" and "argon2_correct E" and "seed_main E S w = (code, w')"
  shows "(code = 2 \<longleftrightarrow> (\<exists>e. seed_validate S = Inl e)) \<and> (code \<noteq> 0 \<longrightarrow> w_db w' = w_db w) \<and>
    (\<forall>email handle password. seed_validate S = Inr (email, handle, password) \<longrightarrow>
      (py_lower (py_strip email) \<in> um_email ` set (users (w_db w)) \<longrightarrow> code = 0 \<and> w_db w' = w_db w) \<and>
      (code = 0 \<longrightarrow>
        (w_db w' = w_db w \<or>
          (\<exists>row. w_db w' = (w_db w)\<lparr>users := users (w_db w) @ [row]\<rparr> \<and>
            um_email row = py_lower (py_strip email) \<and> um_role row = ''superadmin'' \<and>
            um_is_email_verified row \<and> e_argon2_verify E (um_password_hash row) password)) \<and>
        py_lower (py_strip email) \<in> um_email ` set (users (w_db w')) \<and>
        fst (seed_main E S w') = 0 \<and> w_db (snd (seed_main E S w')) = w_db w'))"
proof (cases "seed_validate S")
  case (Inl e)
  with assms(3) seed_main_bad [OF Inl, of E w] show ?thesis by simp
next
  case (Inr t)
  then obtain email handle password where S: "seed_validate S = Inr (email, handle, password)"
    by (cases t) auto
  let ?e = "py_lower (py_strip email)"
  note run = seed_main_run [OF assms(1) S assms(3)]
  have again: "fst (seed_main E S v) = 0 \<and> w_db (snd (seed_main E S v)) = w_db v"
    if "storable (w_db v)" "?e \<in> um_email ` set (users (w_db v))" for v
    using seed_main_run(1) [OF that(1) S prod.collapse [symmetric] that(2)] .
  show ?thesis
  proof (cases "?e \<in> um_email ` set (users (w_db w))")
    case True
    with run(1) again [of w'] assms(1) S show ?thesis by simp
  next
    case False
    from run(2) [OF this] show ?thesis
    proof (elim disjE conjE exE)
      assume "code = 1" "w_db w' = w_db w"
      with S False show ?thesis by simp
    next
      fix n i at t
      let ?row = "UserModel (seeded email handle (e_argon2_hash E n password) at) i t"
      assume new: "code = 0" "storable (w_db w')" "w_db w' = (w_db w)\<lparr>users := users (w_db w) @ [?row]\<rparr>"
      have row: "um_email ?row = ?e" "um_role ?row = ''superadmin''" "um_is_email_verified ?row"
        "e_argon2_verify E (um_password_hash ?row) password"
        using assms(2) by (simp_all add: UserModel_def seeded_def User_def argon2_correct_def)
      have e: "?e \<in> um_email ` set (users (w_db w'))" using new(3) row(1) by simp
      have "\<exists>row. w_db w' = (w_db w)\<lparr>users := users (w_db w) @ [row]\<rparr> \<and> um_email row = ?e \<and>
          um_role row = ''superadmin'' \<and> um_is_email_verified row \<and>
          e_argon2_verify E (um_password_hash row) password"
        using new(3) row by blast
      with new(1) e again [OF new(2) e] S False show ?thesis by simp
    qed
  qed
qed

definition seed_settings :: settings where
  "seed_settings = demo_settings\<lparr>superadmin_email := Some ''boss@x.ar'', superadmin_password := Some ''Secret99''\<rparr>"

lemma seed_settings_valid:
  "seed_validate seed_settings = Inr (''boss@x.ar'', ''@superadmin'', ''Secret99'')"
  by (simp add: seed_validate_def seed_settings_def PASSWORD_MIN_LENGTH_def enforce_password_policy_def
      py_isupper_def py_isdigit_def demo_settings_def default_settings_def)

lemma seed_settings_run: "fst (seed_main demo_env seed_settings demo_world) = 0"
  by (simp add: seed_main_def seed_run_def seed_settings_valid session_scope_def ensure_superadmin_def
      method_defs op_simps bnd_apply users_add_def server_now_def commit_defs py_lower_def py_lower_char_def py_isupper_def
      py_strip_def py_strip_by_def py_isspace_def bnd_def Let_def to_domain_def Role_def
      AccountStatus_def ProfileVisibility_def FeedLanguage_def)

theorem seed_outcome_witness:
  "let w' = snd (seed_main demo_env seed_settings demo_world) in
   ''boss@x.ar'' \<in> um_email ` set (users (w_db w')) \<and> fst (seed_main demo_env seed_settings w') = 0 \<and>
   w_db (snd (seed_main demo_env seed_settings w')) = w_db w'"
proof -
  have "py_lower (py_strip ''boss@x.ar'') = ''boss@x.ar''"
    by (simp add: py_lower_def py_lower_char_def py_isupper_def py_strip_def py_strip_by_def py_isspace_def)
  with seed_outcome [OF _ demo_argon2 prod.collapse [symmetric], of demo_world seed_settings] demo_storable
    seed_settings_valid seed_settings_run
  show ?thesis unfolding Let_def by fastforce
qed

end
