(* ===== verification/Access_Control.thy ===== *)
theory Access_Control
  imports Database_Invariants
begin

text \<open>
  Who may ask for what: the requests of the backoffice, of the other services and of an account about
  itself, what their answers presuppose, and which accounts they can change. Also which answers a
  handler can return at all.
\<close>

section \<open>What a handler returns\<close>

definition answers :: "(response \<Rightarrow> bool) \<Rightarrow> ('r, response) op \<Rightarrow> bool" where
  "answers P m \<longleftrightarrow> (\<forall>w r w'. m w = (Inr r, w') \<longrightarrow> P r)"

lemma answers_rules:
  "(\<And>x. answers P (f x)) \<Longrightarrow> answers P (bnd m f)"
  "P \<lparr> r_status = status, r_body = body, r_headers = [] \<rparr> \<Longrightarrow> answers P (answer status body)"
  by (auto simp: answers_def answer_def elim!: bnd_InrE)

lemma answers_prod: "(\<And>y z. answers P (f y z)) \<Longrightarrow> answers P (case x of (y, z) \<Rightarrow> f y z)"
  by (cases x) simp

lemma route_answers:
  assumes "\<And>token. req \<noteq> Refresh token"
  shows "answers (\<lambda>r. r_status r < 400) (route E S req)"
  using assms
  by (cases req; simp only: route.simps register_route_def verify_route_def verify_from_link_route_def
      resend_verification_route_def login_route_def logout_route_def admin_login_route_def
      forgot_password_route_def reset_password_route_def change_password_route_def delete_account_route_def
      submit_feedback_route_def get_profile_route_def update_profile_route_def get_preferences_route_def
      update_preferences_route_def create_administrator_route_def reset_temporary_password_route_def
      list_administrators_route_def account_detail_route_def block_account_route_def
      account_metrics_route_def list_audit_entries_route_def put_under_review_route_def
      lift_review_route_def get_public_profile_route_def administrator_identity_route_def
      search_users_route_def search_accounts_route_def)
     ((rule answers_rules answers_prod | simp)+)

section \<open>Requests of the backoffice and of the other services\<close>

text \<open>The bearer token of a request of the backoffice, and who may make it.\<close>

fun privileged :: "request \<Rightarrow> (string \<times> (user \<Rightarrow> bool)) option" where
  "privileged (CreateAdministrator bearer _ _ _) = Some (bearer, \<lambda>user. u_role user = SUPERADMIN)"
| "privileged (ResetTemporaryPassword bearer _) = Some (bearer, \<lambda>user. u_role user = SUPERADMIN)"
| "privileged (ListAdministrators bearer) = Some (bearer, \<lambda>user. u_role user = SUPERADMIN)"
| "privileged (AccountDetail bearer _) = Some (bearer, is_administrator)"
| "privileged (BlockAccount bearer _ _) = Some (bearer, is_administrator)"
| "privileged (AccountMetrics bearer) = Some (bearer, is_administrator)"
| "privileged (ListAuditEntries bearer _ _) = Some (bearer, is_administrator)"
| "privileged (SearchAccounts bearer _ _) = Some (bearer, is_administrator)"
| "privileged _ = None"

fun internal_token :: "request \<Rightarrow> string option option" where
  "internal_token (PutUnderReview token _) = Some token"
| "internal_token (LiftReview token _) = Some token"
| "internal_token (GetPublicProfile token _) = Some token"
| "internal_token (AdministratorIdentity token _) = Some token"
| "internal_token _ = None"

lemma current_superadmin_Inr:
  "current_superadmin E S path bearer w = (Inr user, w') \<Longrightarrow>
     get_current_user E S path bearer w = (Inr user, w') \<and> u_role user = SUPERADMIN"
  by (auto simp: current_superadmin_def current_user_def require_superadmin_def elim!: bnd_InrE split: if_splits)

lemma current_administrator_Inr:
  "current_administrator E S path bearer w = (Inr user, w') \<Longrightarrow>
     get_current_user E S path bearer w = (Inr user, w') \<and> is_administrator user"
  by (auto simp: current_administrator_def current_user_def require_administrator_def elim!: bnd_InrE split: if_splits)

lemma privileged_run:
  assumes "privileged req = Some (bearer, allowed)" and "route E S req w = (Inr r, w')"
  shows "\<exists>user w1. get_current_user E S (request_path req) bearer w = (Inr user, w1) \<and> allowed user"
  using assms
  by (cases req; fastforce simp: route.simps create_administrator_route_def reset_temporary_password_route_def
      list_administrators_route_def account_detail_route_def block_account_route_def account_metrics_route_def
      list_audit_entries_route_def search_accounts_route_def
      elim!: bnd_InrE dest!: current_superadmin_Inr current_administrator_Inr)

lemma internal_run:
  assumes "internal_token req = Some token" and "route E S req w = (Inr r, w')"
  shows "token = Some (internal_api_token S)"
  using assms
  by (cases req; auto simp: route.simps put_under_review_route_def lift_review_route_def
      get_public_profile_route_def administrator_identity_route_def require_internal_token_def
      elim!: bnd_InrE split: if_splits)

section \<open>Requests of an account about itself\<close>

fun own_request :: "request \<Rightarrow> string option" where
  "own_request (ChangePassword bearer _ _ _) = Some bearer"
| "own_request (DeleteAccount bearer _) = Some bearer"
| "own_request (SubmitFeedback bearer _ _ _) = Some bearer"
| "own_request (GetProfile bearer) = Some bearer"
| "own_request (UpdateProfile bearer _) = Some bearer"
| "own_request (GetPreferences bearer) = Some bearer"
| "own_request (UpdatePreferences bearer _) = Some bearer"
| "own_request (SearchUsers bearer _ _) = Some bearer"
| "own_request _ = None"

text \<open>Every account but one is as it was.\<close>

definition others_as :: "uuid \<Rightarrow> (uuid \<Rightarrow> user option) \<Rightarrow> db \<Rightarrow> bool" where
  "others_as u A d \<longleftrightarrow> (\<forall>i. i \<noteq> u \<longrightarrow> accounts d i = A i)"

interpretation others: database_frame "others_as u A" for u A
  by unfold_locales (auto simp: others_as_def accounts_def row_by_id_def)

lemma others_save:
  assumes "u_id v = u"
  shows "others.stays u A {} (users_save v)"
  using assms accounts_save wf_users_save
  by (auto simp: preserves_def others.holding_def others_as_def)

lemma others_methods:
  "others.stays (u_id user) A {} (change_password E S user cur new)"
  "others.stays (u_id user) A {} (delete_account E S user cur)"
  "others.stays (u_id user) A {} (update_profile user changes)"
  "others.stays (u_id user) A {} (update_preferences E user pchanges)"
  unfolding change_password_def delete_account_def update_profile_def update_preferences_def Let_def
  by (rule others.st_rules others_save | (simp split: option.split; fail) | assumption)+

lemma own_routes:
  assumes "own_request req = Some bearer"
  shows "\<exists>f. route E S req = bnd (get_current_user E S (request_path req) bearer) f \<and>
    (\<forall>user A. others.stays (u_id user) A {} (f user))"
  using assms
  apply (cases req; simp)
  apply (unfold route.simps change_password_route_def delete_account_route_def
      submit_feedback_route_def get_profile_route_def update_profile_route_def get_preferences_route_def
      update_preferences_route_def search_users_route_def current_user_def request_path.simps)
  apply (rule exI, rule conjI, rule refl, intro allI,
      (rule others_methods others.st_rules preserves_search others.st_draws | assumption)+)+
  done

lemma own_run:
  assumes "own_request req = Some bearer" and "route E S req w = (Inr r, w')" and "wf_users (users (w_db w))"
  shows "\<exists>user w1. get_current_user E S (request_path req) bearer w = (Inr user, w1) \<and>
    (\<forall>i. i \<noteq> u_id user \<longrightarrow> accounts (w_db w') i = accounts (w_db w) i)"
proof -
  let ?A = "accounts (w_db w)"
  obtain f where f: "route E S req = bnd (get_current_user E S (request_path req) bearer) f"
    and stays: "\<And>user. others.stays (u_id user) ?A {} (f user)"
    using own_routes [OF assms(1), of E S] by blast
  obtain user w1 where g: "get_current_user E S (request_path req) bearer w = (Inr user, w1)"
    and c: "f user w1 = (Inr r, w')"
    using assms(2) unfolding f by (auto elim: bnd_InrE)
  have "others.holding (u_id user) ?A {} w1"
    using assms(3) current_user_Inr(2) [OF g] by (simp add: others.holding_def others_as_def)
  from preservesD [OF stays this] c have "others.holding (u_id user) ?A {} w'" by (simp add: after_def)
  with g show ?thesis by (auto simp: others.holding_def others_as_def)
qed

end
