(* ===== verification/Access_Properties.thy ===== *)
theory Access_Properties
  imports Access_Control Example_Runs
begin

text \<open>The properties of requests as a whole: errors, permissions, isolation, the audit log.\<close>

text \<open>
  C24. An answer with an error status leaves the database exactly as it was: no account, token, event or
  audit entry of a request that was refused or failed half way survives. Exchanging a refresh token is
  the one exception the code makes.
\<close>

theorem error_answers_change_nothing:
  assumes "serve E S req w = (r, w')" and "400 \<le> r_status r" and "\<And>token. req \<noteq> Refresh token"
  shows "w_db w' = w_db w"
  using assms(1)
proof (cases rule: serve_cases)
  case committed
  then have "r_status r < 400" using route_answers [OF assms(3)] unfolding answers_def by blast
  with assms(2) show ?thesis by simp
next
  case failed
  then show ?thesis by simp
qed

theorem error_answers_change_nothing_witness:
  "let (r, w') = serve demo_env demo_settings (ChangePassword ''?'' ''Secret12'' ''Other9876'' ''Other9876'') demo_world in
   r_status r = 401 \<and> w_db w' = demo_db"
proof -
  let ?s = "serve demo_env demo_settings (ChangePassword ''?'' ''Secret12'' ''Other9876'' ''Other9876'') demo_world"
  have status: "r_status (fst ?s) = 401"
    by (simp add: serve_defs change_password_route_def current_user_def get_current_user_def op_simps method_defs
        demo_decode_def read_claims_def Problem_def)
  have "w_db (snd ?s) = w_db demo_world"
    by (rule error_answers_change_nothing [OF prod.collapse [symmetric]]) (simp_all add: status)
  with status show ?thesis by (simp add: case_prod_beta)
qed

text \<open>
  C25. Whatever the database holds, an answer of the backoffice that is not an error went to a caller who
  passed the authentication as a stored account of the right role: a superadministrator for managing
  administrators, an administrator for the rest. An answer to another service went to a caller with the
  internal token.
\<close>

theorem backoffice_guarded:
  assumes "serve E S req w = (r, w')" and "own_body (r_body r)"
  shows "(\<forall>bearer allowed. privileged req = Some (bearer, allowed) \<longrightarrow>
      (\<exists>user w1. get_current_user E S (request_path req) bearer (begun E w) = (Inr user, w1) \<and>
         accounts (w_db w) (u_id user) = Some user \<and> can_log_in user \<and> allowed user)) \<and>
    (\<forall>token. internal_token req = Some token \<longrightarrow> token = Some (internal_api_token S))"
proof (intro conjI allI impI)
  have run: "route E S req (begun E w) = (Inr r, w')" using serve_committed [OF assms] by simp
  show "token = Some (internal_api_token S)" if "internal_token req = Some token" for token
    using internal_run [OF that run] .
  fix bearer allowed
  assume "privileged req = Some (bearer, allowed)"
  from privileged_run [OF this run] obtain user w1
    where g: "get_current_user E S (request_path req) bearer (begun E w) = (Inr user, w1)" and "allowed user"
    by blast
  moreover from current_user_Inr(1) [OF g] have "accounts (w_db w) (u_id user) = Some user" "can_log_in user"
    by (auto simp: authentic_def accounts_def)
  ultimately show "\<exists>user w1. get_current_user E S (request_path req) bearer (begun E w) = (Inr user, w1) \<and>
      accounts (w_db w) (u_id user) = Some user \<and> can_log_in user \<and> allowed user"
    by blast
qed

theorem backoffice_guarded_witness:
  "\<exists>user. accounts demo_db (u_id user) = Some user \<and> is_administrator user \<and>
     own_body (r_body (fst (serve demo_env demo_settings (BlockAccount (demo_token 2) 1 ''spam'') demo_world)))"
proof -
  let ?s = "serve demo_env demo_settings (BlockAccount (demo_token 2) 1 ''spam'') demo_world"
  have "r_body (fst ?s) = NoContent" using demo_block [OF prod.collapse [symmetric]] by simp
  then have body: "own_body (r_body (fst ?s))" by simp
  from backoffice_guarded [OF prod.collapse [symmetric] body] body show ?thesis by auto
qed

text \<open>
  C26. A request an account makes about itself changes no other account, whatever it carries.
\<close>

theorem own_requests_isolated:
  assumes "constraints (w_db w)" and "own_request req = Some bearer" and "serve E S req w = (r, w')"
  shows "w_db w' = w_db w \<or>
    (\<exists>user w1. get_current_user E S (request_path req) bearer (begun E w) = (Inr user, w1) \<and>
       (\<forall>i. i \<noteq> u_id user \<longrightarrow> accounts (w_db w') i = accounts (w_db w) i))"
  using assms(3)
proof (cases rule: serve_cases)
  case committed
  with own_run [OF assms(2), of E S "begun E w" r w'] assms(1) show ?thesis
    by (simp add: wf_users_constraints)
next
  case failed
  then show ?thesis by simp
qed

theorem own_requests_isolated_witness:
  "accounts (w_db (snd (serve demo_env demo_settings
     (ChangePassword (demo_token 1) ''Secret12'' ''Other9876'' ''Other9876'') demo_world))) 2 = Some root"
proof -
  let ?req = "ChangePassword (demo_token 1) ''Secret12'' ''Other9876'' ''Other9876''"
  have d: "constraints (w_db demo_world)" using demo_constraints by simp
  have "own_request ?req = Some (demo_token 1)" by simp
  from own_requests_isolated [OF d this prod.collapse [symmetric], of demo_env demo_settings]
    demo_current(1) [of "begun demo_env demo_world"]
  show ?thesis by auto
qed

text \<open>
  C27. The audit log only grows: whatever requests, events, publications and seeds follow, the entries it
  has stay, in their order.
\<close>

theorem audit_log_append_only:
  assumes "constraints (w_db w)" and "later E S w w'"
  shows "prefix (admin_audit_log (w_db w)) (admin_audit_log (w_db w'))"
  using audit.later_keeps [OF assms(2), of "admin_audit_log (w_db w)"] assms(1)
  by (simp add: logged_def)

theorem audit_log_append_only_witness:
  "prefix (admin_audit_log demo_db) (admin_audit_log (w_db (snd (serve demo_env demo_settings
     (BlockAccount (demo_token 2) 1 ''spam'') demo_world))))"
  using audit_log_append_only [OF _ later.request [OF later.start], of demo_world] demo_constraints by simp

end
