(* ===== verification/Request_Effects.thy ===== *)
theory Request_Effects
  imports Access_Control Logins Event_Consumer
begin

text \<open>
  What a request that succeeded has done to the database: the account it made or changed, the tokens and
  the event it stored, and that it touched nothing else.
\<close>

section \<open>Adding an account\<close>

lemma wp_users_add [wp_simps]:
  "wp (users_add E a) Q Z w =
     (let i = e_uuid4 E (w_draws w); t = w_tx_now w; row = UserModel a i t; us = users (w_db w);
          w' = w\<lparr>w_draws := Suc (w_draws w)\<rparr> in
      if \<not> users_widths row then Z DataError w'
      else if i \<in> set (map um_id us) \<or> um_email row \<in> set (map um_email us) \<or>
              um_handle row \<in> set (map um_handle us) then Z IntegrityError w'
      else Q (account.extend a \<lparr> u_id = i, u_created_at = t \<rparr>) (w'\<lparr>w_db := added a i t (w_db w)\<rparr>))"
  by (simp add: wp_def users_add_run Let_def)

section \<open>Registration\<close>

text \<open>The account, the link and the event of a registration.\<close>

definition registered :: "'r env \<Rightarrow> settings \<Rightarrow> string \<Rightarrow> string \<Rightarrow> string \<Rightarrow> db \<Rightarrow> user \<Rightarrow> db \<Rightarrow> bool" where
  "registered E S email handle password d user d' \<longleftrightarrow>
     u_email user = py_lower (py_strip email) \<and> u_handle user = py_lower (py_strip handle) \<and>
     u_role user = USER \<and> u_status user = ACTIVE \<and> \<not> u_is_email_verified user \<and> u_terms_accepted user \<and>
     (\<exists>n. u_password_hash user = e_argon2_hash E n password) \<and>
     accounts d (u_id user) = None \<and> accounts d' = (accounts d)(u_id user \<mapsto> user) \<and>
     (\<exists>raw link message.
        email_verification_tokens d' = email_verification_tokens d @ [link] \<and>
        evm_user_id link = u_id user \<and> evm_token_hash link = hash_token E raw \<and> evm_used_at link = None \<and>
        outbox d' = outbox d @ [message] \<and> om_type message = USER_REGISTERED \<and>
        map_of (ev_data (om_payload message)) ''verification_url'' =
          Some (public_base_url S @ API_PREFIX @ ''/auth/verify?token='' @ raw)) \<and>
     d' = d\<lparr>users := users d', email_verification_tokens := email_verification_tokens d', outbox := outbox d'\<rparr>"

lemma wp_outbox_add [wp_simps]:
  "wp (outbox_add ev) Q Z w = (case event_id ev of None \<Rightarrow> Z ValueError w
     | Some i \<Rightarrow> Q () (w\<lparr>w_db := (w_db w)\<lparr>outbox := outbox (w_db w) @
         [\<lparr> om_id = i, om_type = ev_type ev, om_payload = ev, om_created_at = w_tx_now w \<rparr>]\<rparr>\<rparr>))"
  by (simp add: outbox_add_def wp_simps split: option.split)

lemma wp_verification_tokens_add [wp_simps]:
  "wp (verification_tokens_add E t) Q Z w = Q () (w\<lparr>w_draws := Suc (w_draws w), w_db := (w_db w)
     \<lparr>email_verification_tokens := email_verification_tokens (w_db w) @
       [\<lparr> evm_id = e_uuid4 E (w_draws w), evm_user_id = evt_user_id t, evm_token_hash = evt_token_hash t,
          evm_expires_at = evt_expires_at t, evm_used_at = None, evm_created_at = w_tx_now w \<rparr>]\<rparr>\<rparr>)"
  by (simp add: verification_tokens_add_def wp_simps)

lemma added_tables [simp]:
  "email_verification_tokens (added a i t d) = email_verification_tokens d"
  "password_reset_tokens (added a i t d) = password_reset_tokens d"
  "refresh_tokens (added a i t d) = refresh_tokens d" "outbox (added a i t d) = outbox d"
  "feedback_messages (added a i t d) = feedback_messages d" "admin_audit_log (added a i t d) = admin_audit_log d"
  by (simp_all add: added_def)

lemma accounts_fresh: "i \<notin> um_id ` set (users d) \<Longrightarrow> accounts d i = None"
  using accounts_ids [of d i] by (cases "accounts d i") auto

lemma register_effect:
  assumes "register E S email handle password w = (Inr user, w')"
  shows "registered E S email handle password (w_db w) user (w_db w')"
proof -
  have "wp (register E S email handle password)
      (\<lambda>user w'. registered E S email handle password (w_db w) user (w_db w')) (\<lambda>_ _. True) w"
    by (simp add: register_def issue_verification_token_def user_registered_def event_id_def wp_simps Let_def)
       (auto simp: registered_def User_def account.defs accounts_added accounts_fresh USER_REGISTERED_def)
  from wp_Inr [OF this assms] show ?thesis .
qed

section \<open>Confirming an address\<close>

text \<open>The link of a token, and what following it leaves.\<close>

definition link_of :: "'r env \<Rightarrow> string \<Rightarrow> db \<Rightarrow> email_verification_token_model option" where
  "link_of E raw d = List.find (\<lambda>r. evm_token_hash r = hash_token E raw) (email_verification_tokens d)"

definition confirmed :: "'r env \<Rightarrow> string \<Rightarrow> time \<Rightarrow> db \<Rightarrow> user \<Rightarrow> db \<Rightarrow> bool" where
  "confirmed E raw now d user d' \<longleftrightarrow>
     (\<exists>link. link_of E raw d = Some link \<and> evm_user_id link = u_id user \<and> u_is_email_verified user \<and>
        (evm_used_at link \<noteq> None \<and> accounts d (u_id user) = Some user \<and> d' = d \<or>
         evm_used_at link = None \<and> now < evm_expires_at link \<and>
         (\<exists>old. accounts d (u_id user) = Some old \<and> user = old\<lparr>u_is_email_verified := True\<rparr>) \<and>
         accounts d' = (accounts d)(u_id user \<mapsto> user) \<and>
         d' = d\<lparr>users := users d', email_verification_tokens :=
           map (\<lambda>r. if evm_id r = evm_id link then r\<lparr>evm_used_at := Some now\<rparr> else r)
             (email_verification_tokens d)\<rparr>))"

lemma wp_users_get_wf: "wf_users (users (w_db w)) \<Longrightarrow> wp (users_get i) Q Z w =
    (case accounts (w_db w) i of None \<Rightarrow> Q None w | Some u \<Rightarrow> u_id u = i \<longrightarrow> Q (Some u) w)"
  by (auto simp: wp_def users_get_run accounts_id split: option.split)

lemma wp_users_saved: "wp (users_save u) Q Z w = Q () (w\<lparr>w_db := saved u (w_db w)\<rparr>)"
  by (simp add: wp_users saved_def)

lemma wp_tokens [wp_simps]:
  "wp (verification_tokens_find_by_hash h) Q Z w = Q (map_option evt_of_row
     (List.find (\<lambda>r. evm_token_hash r = h) (email_verification_tokens (w_db w)))) w"
  "wp (verification_tokens_mark_used i at) Q1 Z w = Q1 () (w\<lparr>w_db := (w_db w)\<lparr>email_verification_tokens :=
     map (\<lambda>r. if Some (evm_id r) = i then r\<lparr>evm_used_at := Some at\<rparr> else r)
       (email_verification_tokens (w_db w))\<rparr>\<rparr>)"
  by (simp_all add: verification_tokens_find_by_hash_def verification_tokens_mark_used_def wp_simps)

lemma saved_tables [simp]:
  "email_verification_tokens (saved u d) = email_verification_tokens d"
  "password_reset_tokens (saved u d) = password_reset_tokens d"
  "refresh_tokens (saved u d) = refresh_tokens d" "outbox (saved u d) = outbox d"
  "feedback_messages (saved u d) = feedback_messages d" "admin_audit_log (saved u d) = admin_audit_log d"
  by (simp_all add: saved_def)

lemma verify_email_effect:
  assumes wf: "wf_users (users (w_db w))" and "verify_email E raw w = (Inr user, w')"
  shows "confirmed E raw (instant E w) (w_db w) user (w_db w')"
proof -
  note unfold = verify_email_def wp_users_get_wf wp_users_saved wp_simps Let_def
  have "wp (verify_email E raw) (\<lambda>user w'. confirmed E raw (instant E w) (w_db w) user (w_db w')) (\<lambda>_ _. True) w"
    by (simp add: unfold wf del: wp_users split: option.split)
       (auto simp: confirmed_def link_of_def evt_of_row_def evt_is_usable_def accounts_saved lawful_def wf)
  from wp_Inr [OF this assms(2)] show ?thesis .
qed

section \<open>Operations that leave the database alone\<close>

lemma same_db_rules:
  "preserves (\<lambda>w. w_db w = d) (draw f)" "preserves (\<lambda>w. w_db w = d) (now_utc E)"
  "preserves (\<lambda>w. w_db w = d) (redis_cmd E c)"
  by (auto simp: preserves_def redis_cmd_def after_def split: prod.split option.split)

lemma same_db:
  "preserves (\<lambda>w. w_db w = d) (hit E k n)" "preserves (\<lambda>w. w_db w = d) (count_marks E k)"
  "preserves (\<lambda>w. w_db w = d) (reset_marks E k)" "preserves (\<lambda>w. w_db w = d) (revoke_sessions E i now ttl)"
  "preserves (\<lambda>w. w_db w = d) (verify_current_password E S a pw t)"
  "preserves (\<lambda>w. w_db w = d) (reset_current_password E S a)"
  "preserves (\<lambda>w. w_db w = d) (guard_reset_limit E S x)" "preserves (\<lambda>w. w_db w = d) (guard_limit E a)"
  unfolding hit_def count_marks_def reset_marks_def revoke_sessions_def verify_current_password_def
    guard_current_password_def reset_current_password_def guard_reset_limit_def guard_limit_def Let_def
  by (rule same_db_rules preserves_intro | assumption)+

lemma same_db_Inr: "preserves (\<lambda>w. w_db w = d) m \<Longrightarrow> m w = (x, w') \<Longrightarrow> w_db w = d \<Longrightarrow> w_db w' = d"
  using preservesD [of "\<lambda>w. w_db w = d" m w] by (simp add: after_def)

lemmas same_db_run = same_db [THEN same_db_Inr, OF _ refl]

lemma verify_current_Inr:
  "verify_current_password E S user cur title w = (Inr x, w') \<Longrightarrow> verify_password E cur (Some (u_password_hash user))"
  by (auto simp: verify_current_password_def Let_def elim!: bnd_InrE split: if_splits)

section \<open>Changing a password\<close>

definition password_changed_for :: "'r env \<Rightarrow> string \<Rightarrow> db \<Rightarrow> user \<Rightarrow> db \<Rightarrow> bool" where
  "password_changed_for E password d user d' \<longleftrightarrow>
     (\<exists>n at message.
        accounts d' = (accounts d)(u_id user \<mapsto> user\<lparr>u_password_hash := e_argon2_hash E n password,
          u_must_change_password := False, u_temporary_password_expires_at := None\<rparr>) \<and>
        om_type message = PASSWORD_CHANGED \<and>
        map_of (ev_data (om_payload message)) ''user_id'' = Some (uuid_str (u_id user)) \<and>
        d' = d\<lparr>users := users d', outbox := outbox d @ [message],
          refresh_tokens := map (\<lambda>r. if rtm_user_id r = u_id user \<and> rtm_revoked_at r = None
            then r\<lparr>rtm_revoked_at := Some at\<rparr> else r) (refresh_tokens d)\<rparr>)"

lemma change_request_same:
  "ChangePasswordRequest current password confirmation = Some (c, p) \<Longrightarrow> c = current \<and> p = password"
  by (auto simp: ChangePasswordRequest_def confirmed_password_def password_field_def enforce_password_policy_def Let_def
      split: if_splits)

lemma confirmed_password_same: "confirmed_password password confirmation = Some p \<Longrightarrow> p = password"
  by (auto simp: confirmed_password_def password_field_def enforce_password_policy_def Let_def split: if_splits)

lemma required_text_same: "required_text x = Some y \<Longrightarrow> y = x"
  by (auto simp: required_text_def split: if_splits)

lemma outbox_add_Inr:
  "outbox_add ev w = (Inr x, w') \<Longrightarrow> \<exists>i. event_id ev = Some i \<and> w_db w' = (w_db w)\<lparr>outbox := outbox (w_db w) @
     [\<lparr> om_id = i, om_type = ev_type ev, om_payload = ev, om_created_at = w_tx_now w \<rparr>]\<rparr>"
  by (auto simp: outbox_add_def bnd_apply split: option.splits)

lemma password_changed_Inr:
  "password_changed E user now w = (Inr ev, w') \<Longrightarrow> w_db w' = w_db w \<and> ev_type ev = PASSWORD_CHANGED \<and>
     map_of (ev_data ev) ''user_id'' = Some (uuid_str (u_id user))"
  by (auto simp: password_changed_def)

lemma revoke_all_Inr:
  "refresh_tokens_revoke_all i at w = (Inr x, w') \<Longrightarrow> w_db w' = (w_db w)\<lparr>refresh_tokens :=
     map (\<lambda>r. if rtm_user_id r = i \<and> rtm_revoked_at r = None then r\<lparr>rtm_revoked_at := Some at\<rparr> else r)
       (refresh_tokens (w_db w))\<rparr>"
  by (auto simp: refresh_tokens_revoke_all_def)

lemma users_save_Inr: "users_save u w = (Inr x, w') \<Longrightarrow> w_db w' = saved u (w_db w)"
  by (auto simp: saved_def)

lemma change_password_effect:
  assumes "wf_users (users (w_db w))" and "accounts (w_db w) (u_id user) = Some user"
    and "change_password E S user current new w = (Inr x, w')"
  shows "verify_password E current (Some (u_password_hash user)) \<and>
    password_changed_for E new (w_db w) user (w_db w')"
proof
  show "verify_password E current (Some (u_password_hash user))"
    using assms(3) by (auto simp: change_password_def elim!: bnd_InrE dest: verify_current_Inr)
  let ?u = "\<lambda>n. user\<lparr>u_password_hash := e_argon2_hash E n new, u_must_change_password := False,
      u_temporary_password_expires_at := None\<rparr>"
  have "\<exists>n at m. w_db w' = (saved (?u n) (w_db w))\<lparr>refresh_tokens :=
        map (\<lambda>r. if rtm_user_id r = u_id user \<and> rtm_revoked_at r = None
          then r\<lparr>rtm_revoked_at := Some at\<rparr> else r) (refresh_tokens (w_db w)), outbox := outbox (w_db w) @ [m]\<rparr> \<and>
      om_type m = PASSWORD_CHANGED \<and>
      map_of (ev_data (om_payload m)) ''user_id'' = Some (uuid_str (u_id user))"
    using assms(3)
    by (auto simp: change_password_def bnd_apply hash_password_def Let_def simp del: users_save_apply
        elim!: bnd_InrE split: if_splits
        dest!: same_db_run outbox_add_Inr password_changed_Inr revoke_all_Inr users_save_Inr) fastforce
  then obtain n at m where d': "w_db w' = (saved (?u n) (w_db w))\<lparr>refresh_tokens :=
        map (\<lambda>r. if rtm_user_id r = u_id user \<and> rtm_revoked_at r = None
          then r\<lparr>rtm_revoked_at := Some at\<rparr> else r) (refresh_tokens (w_db w)), outbox := outbox (w_db w) @ [m]\<rparr>"
      and m: "om_type m = PASSWORD_CHANGED" "map_of (ev_data (om_payload m)) ''user_id'' = Some (uuid_str (u_id user))"
    by blast
  have "accounts (w_db w') = (accounts (w_db w))(u_id user \<mapsto> ?u n)"
    using accounts_saved [OF assms(1), of "?u n" user] assms(2) by (simp add: d' lawful_def)
  moreover have "w_db w' = (w_db w)\<lparr>users := users (w_db w'), outbox := outbox (w_db w) @ [m], refresh_tokens :=
      map (\<lambda>r. if rtm_user_id r = u_id user \<and> rtm_revoked_at r = None
        then r\<lparr>rtm_revoked_at := Some at\<rparr> else r) (refresh_tokens (w_db w))\<rparr>"
    by (simp add: d' saved_def)
  ultimately show "password_changed_for E new (w_db w) user (w_db w')"
    unfolding password_changed_for_def using m by blast
qed

section \<open>The audit log\<close>

text \<open>An entry an administrator's action leaves; an id that is taken would leave none.\<close>

definition audited :: "user \<Rightarrow> string \<Rightarrow> uuid \<Rightarrow> (string \<times> json_value) list \<Rightarrow> db \<Rightarrow> db \<Rightarrow> bool" where
  "audited actor action target details d d' \<longleftrightarrow> is_administrator actor \<and>
     (\<exists>entry. d' = with_entry entry d \<and> ae_actor_id entry = u_id actor \<and> ae_actor_email entry = u_email actor \<and>
        ae_action entry = action \<and> ae_target_type entry = ''user'' \<and> ae_target_id entry = target \<and>
        ae_details entry = details)"

lemma audit_add_entry: "audit_add entry w = (Inr (), w\<lparr>w_db := with_entry entry (w_db w)\<rparr>)"
  by (simp add: audit_add_def with_entry_def)

lemma audit_administrator_Inr:
  assumes "audit_administrator i w = (Inr actor, w')" and "wf_users (users (w_db w))"
  shows "accounts (w_db w) i = Some actor \<and> is_administrator actor \<and> w' = w"
  using assms(1)
  by (auto simp: audit_administrator_def bnd_Inr [where m = "users_get i", OF users_get_run [OF assms(2)]]
      split: option.splits if_splits)

lemma audit_record_Inr:
  assumes "audit_record E i action ''user'' target details w = (Inr x, w')" and "wf_users (users (w_db w))"
  shows "\<exists>actor. accounts (w_db w) i = Some actor \<and> audited actor action target details (w_db w) (w_db w')"
proof -
  obtain actor w1 where "audit_administrator i w = (Inr actor, w1)"
    using assms(1) by (auto simp: audit_record_def elim: bnd_InrE)
  moreover from audit_administrator_Inr [OF this assms(2)]
  have "accounts (w_db w) i = Some actor" "is_administrator actor" "w1 = w" by simp_all
  ultimately show ?thesis
    using assms(1) unfolding audited_def
    by (auto simp: audit_record_def bnd_Inr bnd_apply audit_add_entry)
qed

section \<open>Creating an administrator\<close>

definition administrator_created ::
  "'r env \<Rightarrow> settings \<Rightarrow> string \<Rightarrow> string \<Rightarrow> role \<Rightarrow> string \<Rightarrow> db \<Rightarrow> user \<Rightarrow> db \<Rightarrow> bool" where
  "administrator_created E S email handle role password d user d1 \<longleftrightarrow>
     u_email user = py_lower (py_strip email) \<and> u_handle user = py_lower (py_strip handle) \<and>
     u_role user = role \<and> u_status user = ACTIVE \<and> u_is_email_verified user \<and> u_must_change_password user \<and>
     (\<exists>at n. u_temporary_password_expires_at user = Some (at + hours TEMPORARY_PASSWORD_HOURS) \<and>
        u_password_hash user = e_argon2_hash E n password) \<and>
     (authorized_domain S \<noteq> [] \<longrightarrow> py_endswith (u_email user) (''@'' @ authorized_domain S)) \<and>
     accounts d (u_id user) = None \<and> accounts d1 = (accounts d)(u_id user \<mapsto> user) \<and>
     d1 = d\<lparr>users := users d1\<rparr>"

lemma users_add_Inr:
  "users_add E a w = (Inr user, w') \<Longrightarrow> \<exists>i t. user = account.extend a \<lparr> u_id = i, u_created_at = t \<rparr> \<and>
     i \<notin> um_id ` set (users (w_db w)) \<and> w_db w' = added a i t (w_db w)"
  by (auto simp: users_add_run Let_def split: if_splits) (intro exI conjI refl, simp_all)

lemma create_administrator_effect:
  assumes wf: "wf_users (users (w_db w))"
    and run: "create_administrator E S actor_id email handle role w = (Inr (user, password), w')"
  shows "\<exists>d1. administrator_created E S email handle role password (w_db w) user d1 \<and>
    (\<exists>actor. accounts d1 actor_id = Some actor \<and>
       audited actor ''admin.created'' (u_id user) [(''email'', JText (u_email user))] d1 (w_db w'))"
proof -
  obtain a w1 w2 where add: "users_add E a w1 = (Inr user, w2)"
    and noted: "audit_record E actor_id ''admin.created'' ''user'' (u_id user) [(''email'', JText (u_email user))] w2
      = (Inr (), w')"
    and w1: "w_db w1 = w_db w"
    and a: "\<exists>at n. a = (User (py_lower (py_strip email)) (py_lower (py_strip handle)) (e_argon2_hash E n password))
        \<lparr>u_role := role, u_must_change_password := True,
         u_temporary_password_expires_at := Some (at + hours TEMPORARY_PASSWORD_HOURS),
         u_is_email_verified := True, u_terms_accepted := True, u_terms_accepted_at := Some at\<rparr>"
    and domain: "authorized_domain S \<noteq> [] \<longrightarrow> py_endswith (py_lower (py_strip email)) (''@'' @ authorized_domain S)"
    using run
    by (auto simp: create_administrator_def deny_email_outside_the_authorized_domain_def Let_def bnd_apply
        users_exists_with_email_or_handle_def generate_temporary_password_def hash_password_def
        elim!: bnd_InrE split: if_splits) fastforce+
  obtain i t where u: "user = account.extend a \<lparr> u_id = i, u_created_at = t \<rparr>"
    "i \<notin> um_id ` set (users (w_db w))" "w_db w2 = added a i t (w_db w)"
    using users_add_Inr [OF add] w1 by auto
  have "administrator_created E S email handle role password (w_db w) user (w_db w2)"
    using a u domain accounts_added [of i "w_db w" a t] accounts_fresh [OF u(2)]
    by (auto simp: administrator_created_def User_def account.defs added_def)
  moreover have "wf_users (users (w_db w2))" using wf_added [OF wf] u by simp
  ultimately show ?thesis using audit_record_Inr [OF noted] by blast
qed

section \<open>The states of an account\<close>

text \<open>Saving an account under another status, and nothing else.\<close>

definition restated :: "account_status \<Rightarrow> string option \<Rightarrow> user \<Rightarrow> db \<Rightarrow> db \<Rightarrow> bool" where
  "restated status reason a d d' \<longleftrightarrow>
     (\<exists>at. accounts d' = (accounts d)(u_id a \<mapsto> change_status status at reason a)) \<and> d' = d\<lparr>users := users d'\<rparr>"

lemma restated_saved:
  assumes "wf_users (users d)" and "accounts d (u_id a) = Some a" and "u_status a \<noteq> SUSPENDED"
  shows "restated status reason a d (saved (change_status status at reason a) d)"
  using accounts_saved [OF assms(1), of "change_status status at reason a" a] assms(2,3)
  by (auto simp: restated_def change_status_def lawful_def saved_def)

definition all_revoked :: "uuid \<Rightarrow> db \<Rightarrow> db \<Rightarrow> bool" where
  "all_revoked u d d' \<longleftrightarrow> (\<exists>at. d' = d\<lparr>refresh_tokens :=
     map (\<lambda>r. if rtm_user_id r = u \<and> rtm_revoked_at r = None then r\<lparr>rtm_revoked_at := Some at\<rparr> else r)
       (refresh_tokens d)\<rparr>)"

lemma all_revokedI: "refresh_tokens_revoke_all u at w = (Inr x, w') \<Longrightarrow> all_revoked u (w_db w) (w_db w')"
  unfolding all_revoked_def by (blast dest: revoke_all_Inr)

lemma all_revokedD:
  assumes "all_revoked u d d'"
  shows "accounts d' = accounts d" and "users d' = users d"
    and "r \<in> set (refresh_tokens d') \<Longrightarrow> rtm_user_id r = u \<Longrightarrow> rtm_revoked_at r \<noteq> None"
proof -
  obtain at where d': "d' = d\<lparr>refresh_tokens :=
      map (\<lambda>r. if rtm_user_id r = u \<and> rtm_revoked_at r = None then r\<lparr>rtm_revoked_at := Some at\<rparr> else r)
        (refresh_tokens d)\<rparr>"
    using assms by (auto simp: all_revoked_def)
  show "accounts d' = accounts d" "users d' = users d" by (simp_all add: d')
  show "rtm_revoked_at r \<noteq> None" if r: "r \<in> set (refresh_tokens d')" "rtm_user_id r = u"
  proof -
    let ?f = "\<lambda>r. if rtm_user_id r = u \<and> rtm_revoked_at r = None then r\<lparr>rtm_revoked_at := Some at\<rparr> else r"
    have "r \<in> ?f ` set (refresh_tokens d)" using r(1) by (simp add: d')
    then obtain x where "r = ?f x" by (rule imageE)
    with r(2) show ?thesis by (cases "rtm_user_id x = u \<and> rtm_revoked_at x = None") auto
  qed
qed

lemma block_effect:
  assumes wf: "wf_users (users (w_db w))" and run: "block E S administrator i reason w = (Inr x, w')"
  shows "\<exists>a. accounts (w_db w) i = Some a \<and> u_deleted_at a = None \<and> \<not> is_administrator a \<and>
    (u_status a = SUSPENDED \<and> w_db w' = w_db w \<or>
     u_status a \<noteq> SUSPENDED \<and> (\<exists>d1 d2 actor. restated SUSPENDED (Some reason) a (w_db w) d1 \<and>
       accounts d1 (u_id administrator) = Some actor \<and>
       audited actor USER_BLOCKED i [(''reason'', JText reason)] d1 d2 \<and> all_revoked i d2 (w_db w')))"
proof -
  note get = bnd_Inr [where m = "users_get i", OF users_get_run [OF wf]]
  obtain a where a: "accounts (w_db w) i = Some a" "u_deleted_at a = None" "\<not> is_administrator a"
    using run by (auto simp: block_def get split: option.splits if_splits)
  have i: "u_id a = i" using accounts_id [OF a(1)] .
  show ?thesis
  proof (cases "u_status a = SUSPENDED")
    case True
    with a run show ?thesis by (auto simp: block_def get)
  next
    case False
    let ?b = "\<lambda>at. change_status SUSPENDED at (Some reason) a"
    have id: "u_id (?b at) = i" for at using i by (simp add: change_status_def)
    obtain at w1 w2 w3 w4 where s: "users_save (?b at) w1 = (Inr (), w2)" "w_db w1 = w_db w"
      and n: "audit_record E (u_id administrator) USER_BLOCKED ''user'' i [(''reason'', JText reason)] w2 = (Inr (), w3)"
      and r: "refresh_tokens_revoke_all i at w3 = (Inr (), w4)"
        "revoke_sessions E i at (access_token_minutes S * 60) w4 = (Inr x, w')"
      using run a False
      by (auto simp: block_def get bnd_apply Let_def id i simp del: users_save_apply elim!: bnd_InrE)
    have d1: "w_db w2 = saved (?b at) (w_db w)" using users_save_Inr [OF s(1)] s(2) by simp
    then have "wf_users (users (w_db w2))" using wf by (simp add: wf_saved)
    moreover have "restated SUSPENDED (Some reason) a (w_db w) (w_db w2)"
      unfolding d1 using restated_saved wf a i False by simp
    moreover have "all_revoked i (w_db w3) (w_db w')"
      using all_revokedI [OF r(1)] same_db_run(4) [OF r(2)] by simp
    ultimately show ?thesis using audit_record_Inr [OF n] a False by blast
  qed
qed

lemma put_under_review_effect:
  assumes wf: "wf_users (users (w_db w))" and run: "put_under_review E S i w = (Inr x, w')"
  shows "\<exists>a. accounts (w_db w) i = Some a \<and>
    (u_status a \<noteq> ACTIVE \<and> w_db w' = w_db w \<or>
     u_status a = ACTIVE \<and> (\<exists>d1. restated UNDER_REVIEW None a (w_db w) d1 \<and> all_revoked i d1 (w_db w')))"
proof -
  note get = bnd_Inr [where m = "users_get i", OF users_get_run [OF wf]]
  obtain a where a: "accounts (w_db w) i = Some a"
    using run by (auto simp: put_under_review_def get split: option.splits)
  have i: "u_id a = i" using accounts_id [OF a] .
  show ?thesis
  proof (cases "u_status a = ACTIVE")
    case False
    with a run show ?thesis by (auto simp: put_under_review_def get)
  next
    case True
    let ?b = "\<lambda>at. change_status UNDER_REVIEW at None a"
    have id: "u_id (?b at) = i" for at using i by (simp add: change_status_def)
    obtain at w1 w2 w3 where s: "users_save (?b at) w1 = (Inr (), w2)" "w_db w1 = w_db w"
      and r: "revoke_sessions E i at (access_token_minutes S * 60) w2 = (Inr (), w3)"
        "refresh_tokens_revoke_all i at w3 = (Inr x, w')"
      using run a True
      by (auto simp: put_under_review_def get bnd_apply Let_def id i simp del: users_save_apply elim!: bnd_InrE)
    have "restated UNDER_REVIEW None a (w_db w) (w_db w2)"
      using restated_saved [OF wf, of a] users_save_Inr [OF s(1)] s(2) a i True by simp
    moreover have "all_revoked i (w_db w2) (w_db w')"
      using all_revokedI [OF r(2)] same_db_run(4) [OF r(1)] by simp
    ultimately show ?thesis using a True by blast
  qed
qed

lemma lift_review_effect:
  assumes wf: "wf_users (users (w_db w))" and run: "lift_review E i w = (Inr x, w')"
  shows "\<exists>a. accounts (w_db w) i = Some a \<and>
    (u_status a \<noteq> UNDER_REVIEW \<and> w_db w' = w_db w \<or>
     u_status a = UNDER_REVIEW \<and> restated ACTIVE None a (w_db w) (w_db w'))"
proof -
  note get = bnd_Inr [where m = "users_get i", OF users_get_run [OF wf]]
  obtain a where a: "accounts (w_db w) i = Some a"
    using run by (auto simp: lift_review_def get split: option.splits)
  with run show ?thesis
    using restated_saved [OF wf, of a ACTIVE None] accounts_id [OF a]
    by (cases "u_status a = UNDER_REVIEW")
       (auto simp: lift_review_def get bnd_apply simp del: users_save_apply dest!: users_save_Inr)
qed

end
