(* ===== verification/Account_Properties.thy ===== *)
theory Account_Properties
  imports Request_Effects Example_Runs
begin

text \<open>The properties of the life of an account: what each request that succeeds leaves, and nothing else.\<close>

section \<open>Opening an account\<close>

lemma demo_register:
  "serve demo_env demo_settings (Register ''bob@x.ar'' ''@bob12'' ''Secret77'' True) demo_world = (r, w') \<Longrightarrow>
     \<exists>i. r_body r = RegisterResponse i ''bob@x.ar'' ''@bob12''"
  apply (simp add: serve_defs register_route_def RegisterRequest_def handle_field_def enforce_handle_format_def
      HANDLE_PATTERN_match_def handle_body_def handle_char_def schema_defs py_lower_def py_lower_char_def)
  apply (simp only: chain_defs method_defs register_def)
  apply (simp add: op_simps Let_def)
  apply (auto simp: commit_defs op_simps row_defs)
  done

text \<open>
  C28. A registration that is answered made one account, with the address and the handle of the request in
  lower case and the password of the request, active, unverified and without any role; it stored one
  verification token for it, and one event whose link carries that token. No other account, and nothing
  else of the database, changed.
\<close>

theorem registration_effect:
  assumes "constraints (w_db w)" and "serve E S (Register email handle password terms) w = (r, w')"
    and "r_body r = RegisterResponse i em h"
  shows "\<exists>e n p user. RegisterRequest E email handle password terms = Some (e, n, p) \<and>
    registered E S e n p (w_db w) user (w_db w') \<and>
    i = uuid_str (u_id user) \<and> em = u_email user \<and> h = u_handle user"
proof -
  have "route E S (Register email handle password terms) (begun E w) = (Inr r, w')"
    using serve_committed [OF assms(2)] assms(3) by simp
  then obtain e n p user where q: "RegisterRequest E email handle password terms = Some (e, n, p)"
    and run: "register E S e n p (begun E w) = (Inr user, w')"
    and body: "i = uuid_str (u_id user)" "em = u_email user" "h = u_handle user"
    using assms(3) by (auto simp: route.simps register_route_def validated_Inr answer_def elim!: bnd_InrE)
  from register_effect [OF run] q body show ?thesis by auto
qed

theorem registration_effect_witness:
  "\<exists>user. accounts demo_db (u_id user) = None \<and> u_handle user = ''@bob12'' \<and>
     accounts (w_db (snd (serve demo_env demo_settings (Register ''bob@x.ar'' ''@bob12'' ''Secret77'' True) demo_world)))
       = (accounts demo_db)(u_id user \<mapsto> user)"
proof -
  let ?s = "serve demo_env demo_settings (Register ''bob@x.ar'' ''@bob12'' ''Secret77'' True) demo_world"
  have d: "constraints (w_db demo_world)" using demo_constraints by simp
  obtain i where body: "r_body (fst ?s) = RegisterResponse i ''bob@x.ar'' ''@bob12''"
    using demo_register [OF prod.collapse [symmetric]] by blast
  from registration_effect [OF d prod.collapse [symmetric] body] show ?thesis by (auto simp: registered_def)
qed

text \<open>
  C29. Following a verification link that is answered verifies the account of the link: of an unused link
  that has not expired, which is used from then on, or again of a used one whose account is already
  verified, which changes nothing.
\<close>

theorem verification_effect:
  assumes "constraints (w_db w)" and "serve E S (Verify token) w = (r, w')"
    and "r_body r = StatusHandle ''verified'' h"
  shows "\<exists>user now. u_handle user = h \<and> confirmed E token now (w_db w) user (w_db w')"
proof -
  have "route E S (Verify token) (begun E w) = (Inr r, w')"
    using serve_committed [OF assms(2)] assms(3) by simp
  then obtain user where run: "verify_email E token (begun E w) = (Inr user, w')" "u_handle user = h"
    using assms(3)
    by (auto simp: route.simps verify_route_def validated_Inr answer_def required_text_def
        elim!: bnd_InrE split: if_splits)
  have "wf_users (users (w_db (begun E w)))" using assms(1) by (simp add: wf_users_constraints)
  from verify_email_effect [OF this run(1)] run(2) show ?thesis by auto
qed

definition demo_verify_world :: "keyspace world" where
  "demo_verify_world = demo_world\<lparr>w_db := demo_db\<lparr>email_verification_tokens :=
     [\<lparr> evm_id = 7, evm_user_id = 1, evm_token_hash = ''link'', evm_expires_at = hours 24,
        evm_used_at = None, evm_created_at = 0 \<rparr>]\<rparr>\<rparr>"

lemma demo_verify:
  "serve demo_env demo_settings (Verify ''link'') demo_verify_world = (r, w') \<Longrightarrow>
     r_body r = StatusHandle ''verified'' ''@ana1''"
  apply (simp add: serve_defs verify_route_def demo_verify_world_def schema_defs)
  apply (simp only: chain_defs method_defs verify_email_def)
  apply (simp add: op_simps evt_of_row_def evt_is_usable_def Let_def)
  apply (auto simp: commit_defs op_simps row_defs)
  done

theorem verification_effect_witness:
  "\<exists>user now. u_handle user = ''@ana1'' \<and> confirmed demo_env ''link'' now (w_db demo_verify_world) user
     (w_db (snd (serve demo_env demo_settings (Verify ''link'') demo_verify_world)))"
proof -
  have d: "constraints (w_db demo_verify_world)"
    using demo_constraints by (simp add: demo_verify_world_def constraints_def tokens_constraints_def demo_db_def
      empty_db_def demo_row_def UserModel_def)
  show ?thesis by (rule verification_effect [OF d prod.collapse [symmetric] demo_verify [OF prod.collapse [symmetric]]])
qed

section \<open>Passwords\<close>

text \<open>
  C30. A password change that is answered was asked for with the current password, and from then on the
  account has the new one and no other: it is no longer a temporary one, every refresh token of the
  account is revoked and the owner is told by an event, in the same transaction. Nothing else changed.
\<close>

theorem password_change_effect:
  assumes "constraints (w_db w)" and "argon2_correct E"
    and "serve E S (ChangePassword bearer current new confirmation) w = (r, w')" and "r_body r = StatusOnly ''changed''"
  shows "\<exists>user user' w1. get_current_user E S (me_path @ ''/change-password'') bearer (begun E w) = (Inr user, w1) \<and>
    accounts (w_db w) (u_id user) = Some user \<and>
    verify_password E current (Some (u_password_hash user)) \<and>
    password_changed_for E new (w_db w) user (w_db w') \<and>
    accounts (w_db w') (u_id user) = Some user' \<and> \<not> u_must_change_password user' \<and>
    (\<forall>p. verify_password E p (Some (u_password_hash user')) \<longleftrightarrow> p = new)"
proof -
  have "route E S (ChangePassword bearer current new confirmation) (begun E w) = (Inr r, w')"
    using serve_committed [OF assms(3)] assms(4) by simp
  then obtain user w1 where g: "get_current_user E S (me_path @ ''/change-password'') bearer (begun E w) = (Inr user, w1)"
    and c: "change_password E S user current new w1 = (Inr (), w')"
    by (auto simp: route.simps change_password_route_def current_user_def validated_Inr answer_def
        elim!: bnd_InrE dest!: change_request_same)
  have db: "w_db w1 = w_db w" using current_user_Inr(2) [OF g] by simp
  have user: "accounts (w_db w) (u_id user) = Some user"
    using current_user_Inr(1) [OF g] by (auto simp: authentic_def accounts_def)
  have effect: "verify_password E current (Some (u_password_hash user)) \<and>
      password_changed_for E new (w_db w) user (w_db w')"
    using change_password_effect [OF _ _ c] assms(1) user by (simp add: db wf_users_constraints)
  let ?u = "\<lambda>n. user\<lparr>u_password_hash := e_argon2_hash E n new, u_must_change_password := False,
      u_temporary_password_expires_at := None\<rparr>"
  from effect obtain n where new: "accounts (w_db w') (u_id user) = Some (?u n)"
    by (auto simp: password_changed_for_def)
  have "verify_password E p (Some (u_password_hash (?u n))) \<longleftrightarrow> p = new" for p
    using assms(2) by (simp add: verify_password_def argon2_correct_def Let_def)
  with g effect user new show ?thesis by (intro exI conjI) (assumption | simp)+
qed

theorem password_change_effect_witness:
  "\<exists>user'. accounts (w_db (snd (serve demo_env demo_settings
      (ChangePassword (demo_token 1) ''Secret12'' ''Other9876'' ''Other9876'') demo_world))) 1 = Some user' \<and>
     (\<forall>p. verify_password demo_env p (Some (u_password_hash user')) \<longleftrightarrow> p = ''Other9876'')"
proof -
  let ?s = "serve demo_env demo_settings (ChangePassword (demo_token 1) ''Secret12'' ''Other9876'' ''Other9876'') demo_world"
  have d: "constraints (w_db demo_world)" using demo_constraints by simp
  have body: "r_body (fst ?s) = StatusOnly ''changed''" using demo_change [OF prod.collapse [symmetric]] by simp
  from password_change_effect [OF d demo_argon2 prod.collapse [symmetric] body]
    demo_current(1) [of "begun demo_env demo_world"]
  show ?thesis by auto
qed

section \<open>The backoffice\<close>

text \<open>
  C31. Creating an administrator is answered to a superadministrator only. It made one account with the
  role asked for, of the authorized domain when there is one, whose password is the temporary one of the
  answer, to be changed, and not valid after twenty-four hours; and the audit log has who did it. No
  other account changed.
\<close>

theorem administrator_creation_effect:
  assumes "constraints (w_db w)" and "serve E S (CreateAdministrator bearer email handle role) w = (r, w')"
    and "r_body r = AdministratorCredentialResponse c"
  shows "\<exists>admin user e n rl d1 actor w1.
    get_current_user E S admin_users_path bearer (begun E w) = (Inr admin, w1) \<and> u_role admin = SUPERADMIN \<and>
    CreateAdministratorRequest E email handle role = Some (e, n, role_value rl) \<and> rl \<noteq> USER \<and>
    administrator_created E S e n rl (cr_temporary_password c) (w_db w) user d1 \<and> cr_id c = uuid_str (u_id user) \<and>
    accounts d1 (u_id admin) = Some actor \<and>
    audited actor ''admin.created'' (u_id user) [(''email'', JText (u_email user))] d1 (w_db w')"
proof -
  have "route E S (CreateAdministrator bearer email handle role) (begun E w) = (Inr r, w')"
    using serve_committed [OF assms(2)] assms(3) by simp
  then obtain admin user e n rt rl w1 where g: "get_current_user E S admin_users_path bearer (begun E w) = (Inr admin, w1)"
    and "u_role admin = SUPERADMIN" and q: "CreateAdministratorRequest E email handle role = Some (e, n, rt)"
    and rl: "Role rt = Some rl"
    and c: "create_administrator E S (u_id admin) e n rl w1 = (Inr (user, cr_temporary_password c), w')"
      "cr_id c = uuid_str (u_id user)"
    using assms(3)
    by (auto simp: route.simps create_administrator_route_def validated_Inr answer_def credential_def
        elim!: bnd_InrE split: option.splits dest!: current_superadmin_Inr)
  have db: "w_db w1 = w_db w" using current_user_Inr(2) [OF g] by simp
  have "rt = role_value rl" "rl \<noteq> USER"
    using q rl by (auto simp: CreateAdministratorRequest_def Role_def split: option.splits if_splits)
  moreover have "wf_users (users (w_db w1))" using assms(1) db by (simp add: wf_users_constraints)
  from create_administrator_effect [OF this c(1)] obtain d1 actor where
    "administrator_created E S e n rl (cr_temporary_password c) (w_db w) user d1"
    "accounts d1 (u_id admin) = Some actor"
    "audited actor ''admin.created'' (u_id user) [(''email'', JText (u_email user))] d1 (w_db w')"
    unfolding db by blast
  ultimately show ?thesis using g q c(2) \<open>u_role admin = SUPERADMIN\<close> by blast
qed

lemma demo_domain: "authorized_domain demo_settings = []"
  by (simp add: authorized_domain_def py_lstrip_by_def py_lower_def py_strip_def py_strip_by_def)

lemma demo_short: "length (py_str_nat 5004) = 4"
  by (simp add: py_str_nat.simps)

lemma demo_create:
  "serve demo_env demo_settings (CreateAdministrator (demo_token 2) ''bob@x.ar'' ''@bob12'' ''moderator'') demo_world
      = (r, w') \<Longrightarrow> \<exists>c. r_body r = AdministratorCredentialResponse c"
  apply (simp add: serve_defs create_administrator_route_def current_user_def current_superadmin_def
      bnd_Inr [OF demo_current(2)] bnd_assoc CreateAdministratorRequest_def handle_field_def
      enforce_handle_format_def HANDLE_PATTERN_match_def handle_body_def handle_char_def schema_defs
      py_lower_def py_lower_char_def Role_def)
  apply (simp only: chain_defs method_defs create_administrator_def deny_email_outside_the_authorized_domain_def)
  apply (simp add: op_simps Let_def demo_domain)
  apply (auto simp: commit_defs op_simps row_defs credential_def demo_short)
  done

theorem administrator_creation_effect_witness:
  "\<exists>(user :: user) d1 actor. u_role user = MODERATOR \<and> u_must_change_password user \<and> accounts demo_db (u_id user) = None \<and>
     audited actor ''admin.created'' (u_id user) [(''email'', JText (u_email user))] d1
       (w_db (snd (serve demo_env demo_settings
          (CreateAdministrator (demo_token 2) ''bob@x.ar'' ''@bob12'' ''moderator'') demo_world)))"
proof -
  let ?s = "serve demo_env demo_settings (CreateAdministrator (demo_token 2) ''bob@x.ar'' ''@bob12'' ''moderator'') demo_world"
  have d: "constraints (w_db demo_world)" using demo_constraints by simp
  obtain c where body: "r_body (fst ?s) = AdministratorCredentialResponse c"
    using demo_create [OF prod.collapse [symmetric]] by blast
  have rl: "rl = MODERATOR" if "CreateAdministratorRequest demo_env x y ''moderator'' = Some (e, n, role_value rl)" for x y e n rl
    using that by (cases rl) (auto simp: CreateAdministratorRequest_def split: option.splits if_splits)
  from administrator_creation_effect [OF d prod.collapse [symmetric] body] obtain user rl e n d1 actor where
    "CreateAdministratorRequest demo_env ''bob@x.ar'' ''@bob12'' ''moderator'' = Some (e, n, role_value rl)"
    "administrator_created demo_env demo_settings e n rl (cr_temporary_password c) demo_db user d1"
    "audited actor ''admin.created'' (u_id user) [(''email'', JText (u_email user))] d1 (w_db (snd ?s))"
    unfolding demo_world_fields by blast
  then show ?thesis using rl unfolding administrator_created_def by blast
qed

text \<open>
  C32. Blocking an account is answered to an administrator only, about an open account of the app. It
  suspends the account with the reason given, revokes its refresh tokens and leaves an entry with the
  reason in the audit log; a suspended account stays as it is. No other account changed.
\<close>

theorem block_effect_of_request:
  assumes "constraints (w_db w)" and "serve E S (BlockAccount bearer i reason) w = (r, w')" and "r_body r = NoContent"
  shows "\<exists>admin w1 a reason'.
    get_current_user E S (request_path (BlockAccount bearer i reason)) bearer (begun E w) = (Inr admin, w1) \<and>
    is_administrator admin \<and> BlockAccountRequest reason = Some reason' \<and>
    accounts (w_db w) i = Some a \<and> u_deleted_at a = None \<and> \<not> is_administrator a \<and>
    (u_status a = SUSPENDED \<and> w_db w' = w_db w \<or>
     u_status a \<noteq> SUSPENDED \<and> (\<exists>d1 d2 actor. restated SUSPENDED (Some reason') a (w_db w) d1 \<and>
       accounts d1 (u_id admin) = Some actor \<and>
       audited actor USER_BLOCKED i [(''reason'', JText reason')] d1 d2 \<and> all_revoked i d2 (w_db w')))"
proof -
  obtain admin w1 reason' where run: "is_administrator admin" "block E S admin i reason' w1 = (Inr (), w')"
    "w_db w1 = w_db w" "BlockAccountRequest reason = Some reason'"
    "get_current_user E S (request_path (BlockAccount bearer i reason)) bearer (begun E w) = (Inr admin, w1)"
    using block_request_run [OF assms(2,3)] by blast
  have "wf_users (users (w_db w1))" using assms(1) run by (simp add: wf_users_constraints)
  from block_effect [OF this run(2)] run(1,4,5) show ?thesis unfolding run(3) by blast
qed

theorem block_effect_of_request_witness:
  "\<exists>d1 d2. restated SUSPENDED (Some ''spam'') ana demo_db d1 \<and>
     all_revoked 1 d2 (w_db (snd (serve demo_env demo_settings (BlockAccount (demo_token 2) 1 ''spam'') demo_world)))"
proof -
  let ?s = "serve demo_env demo_settings (BlockAccount (demo_token 2) 1 ''spam'') demo_world"
  have d: "constraints (w_db demo_world)" using demo_constraints by simp
  have body: "r_body (fst ?s) = NoContent" using demo_block [OF prod.collapse [symmetric]] by simp
  have "BlockAccountRequest ''spam'' = Some ''spam''" by (simp add: schema_defs)
  with block_effect_of_request [OF d prod.collapse [symmetric] body] show ?thesis by auto
qed

text \<open>
  A review suspends an active account and revokes its refresh tokens, and lifting it makes the account
  active again; an account in any other state keeps it: a review never reopens a suspended account, and
  lifting one twice, or without a review, changes nothing.
\<close>

lemma review_cycle:
  assumes "constraints (w_db w)" and "put_under_review E S i w = (Inr (), w1)" and "lift_review E i w1 = (Inr (), w2)"
  shows "\<exists>a. accounts (w_db w) i = Some a \<and>
    (u_status a = ACTIVE \<longrightarrow> (\<exists>b. accounts (w_db w1) i = Some b \<and> u_status b = UNDER_REVIEW \<and>
      (\<forall>r \<in> set (refresh_tokens (w_db w1)). rtm_user_id r = i \<longrightarrow> rtm_revoked_at r \<noteq> None))) \<and>
    (u_status a \<noteq> ACTIVE \<longrightarrow> w_db w1 = w_db w) \<and> (u_status a = SUSPENDED \<longrightarrow> w_db w2 = w_db w) \<and>
    (u_status a \<noteq> SUSPENDED \<longrightarrow>
      (\<exists>at. accounts (w_db w2) = (accounts (w_db w))(i \<mapsto> change_status ACTIVE at None a)))"
proof -
  have wf: "wf_users (users (w_db w))" using assms(1) by (rule wf_users_constraints)
  obtain a where a: "accounts (w_db w) i = Some a"
    and put: "u_status a \<noteq> ACTIVE \<and> w_db w1 = w_db w \<or>
      u_status a = ACTIVE \<and> (\<exists>d1. restated UNDER_REVIEW None a (w_db w) d1 \<and> all_revoked i d1 (w_db w1))"
    using put_under_review_effect [OF wf assms(2)] by blast
  have i: "u_id a = i" using accounts_id [OF a] .
  show ?thesis
  proof (cases "u_status a = ACTIVE")
    case False
    with put have "w_db w1 = w_db w" by simp
    with lift_review_effect [OF _ assms(3)] wf a i False show ?thesis
      by (cases "u_status a") (auto simp: restated_def)
  next
    case True
    with put obtain d1 at where d1: "accounts d1 = (accounts (w_db w))(i \<mapsto> change_status UNDER_REVIEW at None a)"
      and rev: "all_revoked i d1 (w_db w1)"
      using i by (auto simp: restated_def)
    have acc: "accounts (w_db w1) = accounts d1"
      and revoked: "\<forall>r \<in> set (refresh_tokens (w_db w1)). rtm_user_id r = i \<longrightarrow> rtm_revoked_at r \<noteq> None"
      using all_revokedD [OF rev] by blast+
    have "wf_users (users (w_db w1))"
      using history.kp_methods(5) [of "w_db w" E S i] wf assms(2)
      by (force simp: history.keeps_def history.holding_def evolved_def after_def)
    note lift = lift_review_effect [OF this assms(3)]
    have b: "accounts (w_db w1) i = Some (change_status UNDER_REVIEW at None a)" by (simp add: acc d1)
    with lift have "restated ACTIVE None (change_status UNDER_REVIEW at None a) (w_db w1) (w_db w2)"
      by (simp add: change_status_def)
    then obtain at' where "accounts (w_db w2) = (accounts (w_db w))(i \<mapsto> change_status ACTIVE at' None a)"
      using i by (auto simp: restated_def acc d1 change_status_def)
    then have "\<exists>at. accounts (w_db w2) = (accounts (w_db w))(i \<mapsto> change_status ACTIVE at None a)" ..
    moreover have "u_status (change_status UNDER_REVIEW at None a) = UNDER_REVIEW" by (simp add: change_status_def)
    ultimately show ?thesis using a b True revoked by simp
  qed
qed

lemma demo_put:
  "put_under_review demo_env demo_settings 1 demo_world = (x, w') \<Longrightarrow>
     x = Inr () \<and> fst (lift_review demo_env 1 w') = Inr ()"
  by (simp add: put_under_review_def op_simps method_defs Let_def)
     (auto simp: lift_review_def op_simps method_defs Let_def row_defs commit_defs)

lemma demo_review_cycle:
  "\<exists>at. accounts (w_db (snd (lift_review demo_env 1 (snd (put_under_review demo_env demo_settings 1 demo_world))))) =
     (accounts demo_db)(1 \<mapsto> change_status ACTIVE at None ana)"
proof -
  let ?p = "put_under_review demo_env demo_settings 1 demo_world"
  let ?l = "lift_review demo_env 1 (snd ?p)"
  have put: "?p = (Inr (), snd ?p)" and lift: "?l = (Inr (), snd ?l)"
    using demo_put [OF prod.collapse [symmetric]] by (simp_all add: prod_eq_iff)
  have d: "constraints (w_db demo_world)" using demo_constraints by simp
  from review_cycle [OF d put lift] show ?thesis by simp
qed

end
