(* ===== verification/Schema_Checks.thy ===== *)
theory Schema_Checks
  imports Request_Effects
begin

text \<open>
  The checks of the handlers against the constraints of the tables. The transaction refuses what breaks a
  constraint, so a committed database keeps them whatever a handler does; here it is the handlers that are
  shown to write only what the tables take, statement by statement, as a type system shows that a
  well-typed program does not get stuck. \<open>safe\<close> is that of an operation that adds no account, relative to
  accounts known to exist; \<open>admissible\<close> allows one account to be added, under names known to be free.
\<close>

section \<open>What the rows must satisfy\<close>

definition stored_ids :: "db \<Rightarrow> uuid set" where
  "stored_ids d = um_id ` set (users d)"

text \<open>The constraints that a handler can break by what it writes.\<close>

definition sound_rows :: "db \<Rightarrow> bool" where
  "sound_rows d \<longleftrightarrow>
     users_unique (users d) \<and>
     (\<forall>r \<in> set (users d). ck_users r \<and> users_widths r) \<and>
     (\<forall>t \<in> set (email_verification_tokens d). evm_user_id t \<in> stored_ids d) \<and>
     (\<forall>t \<in> set (password_reset_tokens d). prm_user_id t \<in> stored_ids d) \<and>
     (\<forall>t \<in> set (refresh_tokens d). rtm_user_id t \<in> stored_ids d) \<and>
     (\<forall>a \<in> set (admin_audit_log d). ck_admin_audit_action a)"

text \<open>The others: the keys that are drawn at random, and the hashes of random tokens, do not repeat.\<close>

definition distinct_keys :: "db \<Rightarrow> bool" where
  "distinct_keys d \<longleftrightarrow>
     distinct (map evm_token_hash (email_verification_tokens d)) \<and>
     distinct (map prm_token_hash (password_reset_tokens d)) \<and>
     distinct (map rtm_token_hash (refresh_tokens d)) \<and>
     distinct (map evm_id (email_verification_tokens d)) \<and>
     distinct (map prm_id (password_reset_tokens d)) \<and>
     distinct (map rtm_id (refresh_tokens d)) \<and>
     distinct (map om_id (outbox d)) \<and>
     distinct (map fb_id (feedback_messages d)) \<and>
     distinct (map ae_id (admin_audit_log d))"

lemma storable_split: "storable d \<longleftrightarrow> sound_rows d \<and> distinct_keys d"
  by (auto simp: storable_def constraints_def tokens_constraints_def sound_rows_def distinct_keys_def
      stored_ids_def Let_def)

lemma sound_wf: "sound_rows d \<Longrightarrow> wf_users (users d)"
  by (simp add: sound_rows_def wf_users_def users_unique_def)

text \<open>
  What the handlers rely on: an address that the validator accepts fits its column, and so does the
  text of an argon2 hash.
\<close>

definition fitting_values :: "'r env \<Rightarrow> bool" where
  "fitting_values E \<longleftrightarrow>
     (\<forall>n p. length (e_argon2_hash E n p) \<le> 255) \<and>
     (\<forall>s e. e_validate_email E s = Some e \<longrightarrow> length e \<le> 320)"

definition fits :: "user \<Rightarrow> bool" where
  "fits u \<longleftrightarrow> length (u_password_hash u) \<le> 255"

section \<open>Operations that add no account\<close>

text \<open>The columns of the names, which no operation changes in a stored row.\<close>

definition names :: "db \<Rightarrow> (uuid \<times> string \<times> string) list" where
  "names d = map (\<lambda>r. (um_id r, um_email r, um_handle r)) (users d)"

definition safe :: "uuid set \<Rightarrow> ('r, 'a) op \<Rightarrow> bool" where
  "safe X m \<longleftrightarrow>
     (\<forall>w x w'. sound_rows (w_db w) \<longrightarrow> X \<subseteq> stored_ids (w_db w) \<longrightarrow> m w = (x, w') \<longrightarrow>
        sound_rows (w_db w') \<and> names (w_db w') = names (w_db w) \<and> w_draws w \<le> w_draws w' \<and>
        x \<noteq> Inl IntegrityError \<and> x \<noteq> Inl DataError)"

lemma ids_names: "names d' = names d \<Longrightarrow> stored_ids d' = stored_ids d"
proof -
  have "stored_ids d = fst ` set (names d)" for d by (force simp: stored_ids_def names_def)
  then show "names d' = names d \<Longrightarrow> ?thesis" by simp
qed

lemma safeI:
  assumes "\<And>w x w'. sound_rows (w_db w) \<Longrightarrow> X \<subseteq> stored_ids (w_db w) \<Longrightarrow> m w = (x, w') \<Longrightarrow>
    sound_rows (w_db w') \<and> names (w_db w') = names (w_db w) \<and> w_draws w \<le> w_draws w' \<and>
    x \<noteq> Inl IntegrityError \<and> x \<noteq> Inl DataError"
  shows "safe X m"
  using assms unfolding safe_def by blast

lemma safeD:
  assumes "safe X m" and "sound_rows (w_db w)" and "X \<subseteq> stored_ids (w_db w)" and "m w = (x, w')"
  shows "sound_rows (w_db w')" and "names (w_db w') = names (w_db w)" and "w_draws w \<le> w_draws w'"
    and "x \<noteq> Inl IntegrityError" and "x \<noteq> Inl DataError" and "X \<subseteq> stored_ids (w_db w')"
  using assms ids_names [of "w_db w'" "w_db w"] unfolding safe_def by blast+

lemma safe_less: "safe X m \<Longrightarrow> X \<subseteq> Y \<Longrightarrow> safe Y m"
  unfolding safe_def by blast

lemma safe_bnd:
  assumes "safe X m" and "\<And>x. safe X (f x)"
  shows "safe X (bnd m f)"
proof (rule safeI)
  fix w x w' assume w: "sound_rows (w_db w)" "X \<subseteq> stored_ids (w_db w)" and run: "bnd m f w = (x, w')"
  obtain y w1 where m: "m w = (y, w1)" by fastforce
  note first = safeD [OF assms(1) w m]
  show "sound_rows (w_db w') \<and> names (w_db w') = names (w_db w) \<and> w_draws w \<le> w_draws w' \<and>
    x \<noteq> Inl IntegrityError \<and> x \<noteq> Inl DataError"
  proof (cases y)
    case (Inl e)
    with run m have "x = Inl e" "w' = w1" by (simp_all add: bnd_Inl)
    with first Inl show ?thesis by simp
  next
    case (Inr z)
    with run m have "f z w1 = (x, w')" by (simp add: bnd_Inr)
    from safeD [OF assms(2) first(1,6) this] first(2,3) show ?thesis by simp
  qed
qed

text \<open>The outcome of the first operation, where the rest relies on it.\<close>

lemma safe_then:
  assumes "safe X m"
    and "\<And>w x w'. sound_rows (w_db w) \<Longrightarrow> X \<subseteq> stored_ids (w_db w) \<Longrightarrow> m w = (Inr x, w') \<Longrightarrow> P x (stored_ids (w_db w'))"
    and "\<And>x Y. P x Y \<Longrightarrow> X \<subseteq> Y \<Longrightarrow> safe Y (f x)"
  shows "safe X (bnd m f)"
proof (rule safeI)
  fix w x w' assume w: "sound_rows (w_db w)" "X \<subseteq> stored_ids (w_db w)" and run: "bnd m f w = (x, w')"
  obtain y w1 where m: "m w = (y, w1)" by fastforce
  note first = safeD [OF assms(1) w m]
  show "sound_rows (w_db w') \<and> names (w_db w') = names (w_db w) \<and> w_draws w \<le> w_draws w' \<and>
    x \<noteq> Inl IntegrityError \<and> x \<noteq> Inl DataError"
  proof (cases y)
    case (Inl e)
    with run m have "x = Inl e" "w' = w1" by (simp_all add: bnd_Inl)
    with first Inl show ?thesis by simp
  next
    case (Inr z)
    with run m have f: "f z w1 = (x, w')" by (simp add: bnd_Inr)
    have "safe (stored_ids (w_db w1)) (f z)" using assms(2) [OF w] assms(3) m Inr first(6) by blast
    from safeD [OF this first(1) subset_refl f] first(2,3) show ?thesis by simp
  qed
qed

lemma safe_basic:
  "safe X (ret x)" "safe X skip" "safe X (draw f)" "safe X (now_utc E)" "safe X (uuid4 E)"
  "safe X (token_urlsafe E n)" "safe X (query g)" "safe X server_now" "safe X (redis_cmd E c)"
  "safe X (subscript o1)" "safe X (not_none o2)" "safe X (validated v)"
  by (rule safeI; auto simp: redis_cmd_def subscript_def not_none_def validated_def
      split: option.splits prod.splits)+

lemma safe_raise: "e \<noteq> IntegrityError \<Longrightarrow> e \<noteq> DataError \<Longrightarrow> safe X (raise e)"
  by (rule safeI) auto

lemma safe_branches:
  "(b \<Longrightarrow> safe X m) \<Longrightarrow> (\<not> b \<Longrightarrow> safe X m') \<Longrightarrow> safe X (if b then m else m')"
  "(o1 = None \<Longrightarrow> safe X m) \<Longrightarrow> (\<And>y. o1 = Some y \<Longrightarrow> safe X (g y)) \<Longrightarrow>
     safe X (case o1 of None \<Rightarrow> m | Some y \<Rightarrow> g y)"
  "(\<And>e. s = Inl e \<Longrightarrow> safe X (l e)) \<Longrightarrow> (\<And>y. s = Inr y \<Longrightarrow> safe X (h y)) \<Longrightarrow>
     safe X (case s of Inl e \<Rightarrow> l e | Inr y \<Rightarrow> h y)"
  "(\<And>y z. safe X (k y z)) \<Longrightarrow> safe X (case p of (y, z) \<Rightarrow> k y z)"
  "safe X m \<Longrightarrow> safe X m' \<Longrightarrow>
     safe X (case j of ExpiredSignatureError \<Rightarrow> m | OtherInvalidTokenError \<Rightarrow> m')"
  by (auto split: option.split sum.split prod.split jwt_error.split)

section \<open>Reads and writes\<close>

lemmas safe_step = safe_bnd safe_basic safe_branches

lemma safe_modify:
  assumes "\<And>d. sound_rows d \<Longrightarrow> X \<subseteq> stored_ids d \<Longrightarrow> sound_rows (f d)" and "\<And>d. names (f d) = names d"
  shows "safe X (modify_db f)"
  by (rule safeI) (use assms in auto)

lemma found_fits:
  assumes "sound_rows d" and "List.find P (users d) = Some r" and "to_domain r = Some u"
  shows "fits u \<and> u_id u \<in> stored_ids d"
proof -
  have r: "r \<in> set (users d)" using find_SomeD [OF assms(2)] by simp
  have "u_id u = um_id r" "u_password_hash u = um_password_hash r"
    using assms(3) by (simp_all add: to_domain_Some)
  with r assms(1) show ?thesis by (simp add: sound_rows_def users_widths_def fits_def stored_ids_def)
qed

lemma safe_loaded: "safe X (loaded row)"
  by (auto simp: loaded_def intro!: safe_basic safe_raise split: option.split)

lemma safe_loaded_all: "safe X (loaded_all rows)"
proof (induction rows)
  case Nil
  show ?case unfolding loaded_all.simps by (rule safe_basic)
next
  case (Cons r rows)
  then show ?case unfolding loaded_all.simps by (intro safe_branches safe_bnd safe_basic safe_raise) simp_all
qed

lemma safe_reads:
  "safe X (users_get i)" "safe X (users_find_by_identifier x)" "safe X (users_find_by_email x)"
  "safe X users_list_administrators" "safe X (users_count s)" "safe X (users_exists_with_email_or_handle x y)"
  "safe X (verification_tokens_find_by_hash h)" "safe X (reset_tokens_find_by_hash h)"
  "safe X (refresh_tokens_find_by_hash h)" "safe X (audit_list_page lim off)"
  unfolding repository_defs users_get_def users_find_by_identifier_def users_find_by_email_def
    users_list_administrators_def users_count_def users_exists_with_email_or_handle_def
  by (rule safe_loaded safe_loaded_all safe_step)+

text \<open>An account that was found exists, and its hash fits.\<close>

lemma safe_found:
  assumes "safe X (g :: ('r, user option) op)" and "\<And>w. g w = loaded (List.find (P w) (users (w_db w))) w"
    and "safe X (f None)" and "\<And>u. fits u \<Longrightarrow> safe (insert (u_id u) X) (f (Some u))"
  shows "safe X (bnd g f)"
proof (rule safe_then [where P = "\<lambda>x Y. \<forall>u. x = Some u \<longrightarrow> fits u \<and> u_id u \<in> Y", OF assms(1)])
  fix w :: "'r world" and x w'
  assume w: "sound_rows (w_db w)" and run: "g w = (Inr x, w')"
  then have "loaded (List.find (P w) (users (w_db w))) w = (Inr x, w')" by (simp add: assms(2))
  then have "w' = w \<and> (\<forall>u. x = Some u \<longrightarrow> (\<exists>r. List.find (P w) (users (w_db w)) = Some r \<and> to_domain r = Some u))"
    by (auto simp: loaded_def split: option.splits)
  with found_fits [OF w] show "\<forall>u. x = Some u \<longrightarrow> fits u \<and> u_id u \<in> stored_ids (w_db w')" by blast
next
  fix x Y assume "\<forall>u. x = Some u \<longrightarrow> fits u \<and> u_id u \<in> Y" and "X \<subseteq> Y"
  then show "safe Y (f x)"
    using assms(3,4) safe_less by (cases x) (blast, metis insert_subset)
qed

lemma safe_finds:
  assumes "safe X (f None)" and "\<And>u. fits u \<Longrightarrow> safe (insert (u_id u) X) (f (Some u))"
  shows "safe X (bnd (users_get i) f)" and "safe X (bnd (users_find_by_identifier s) f)"
    and "safe X (bnd (users_find_by_email s) f)"
proof -
  show "safe X (bnd (users_get i) f)"
    by (rule safe_found [OF safe_reads(1) _ assms, where P = "\<lambda>_ r. um_id r = i"])
       (simp add: users_get_def bnd_apply row_by_id_def)
  show "safe X (bnd (users_find_by_identifier s) f)"
    by (rule safe_found [OF safe_reads(2) _ assms, where P = "\<lambda>_ r. um_email r = s \<or> um_handle r = s"])
       (simp add: users_find_by_identifier_def bnd_apply)
  show "safe X (bnd (users_find_by_email s) f)"
    by (rule safe_found [OF safe_reads(3) _ assms, where P = "\<lambda>_ r. um_email r = s"])
       (simp add: users_find_by_email_def bnd_apply)
qed

lemma safe_not_none: "safe X (bnd (not_none None) f)" "safe X (f u) \<Longrightarrow> safe X (bnd (not_none (Some u)) f)"
  by (simp_all add: not_none_def safe_raise)

lemma safe_hash:
  assumes "fitting_values E" and "\<And>h. length h \<le> 255 \<Longrightarrow> safe X (f h)"
  shows "safe X (bnd (hash_password E p) f)"
proof (rule safe_then [where P = "\<lambda>h _. length h \<le> 255"])
  show "safe X (hash_password E p)" unfolding hash_password_def by (rule safe_basic)
  show "hash_password E p w = (Inr h, w') \<Longrightarrow> length h \<le> 255" for w h w'
    using assms(1) by (auto simp: hash_password_def fitting_values_def)
  show "length h \<le> 255 \<Longrightarrow> X \<subseteq> Y \<Longrightarrow> safe Y (f h)" for h Y
    using assms(2) safe_less by blast
qed

lemma names_saved [simp]: "names (saved u d) = names d"
  by (simp add: names_def saved_def write_row_def o_def)

lemma sound_saved:
  assumes "sound_rows d" and "fits u"
  shows "sound_rows (saved u d)"
proof -
  have same: "map f (users (saved u d)) = map f (users d)" if "\<And>r. f (write_row u r) = f r"
    for f :: "user_model \<Rightarrow> 'x"
    using that by (simp add: saved_def o_def if_distrib cong: map_cong)
  have "ck_users r \<and> users_widths r" if "r \<in> set (users (saved u d))" for r
  proof -
    have "wf_users (users (saved u d))" using wf_saved [OF sound_wf [OF assms(1)]] .
    moreover have "users_widths (write_row u r)" if "r \<in> set (users d)" for r
      using that assms by (auto simp: sound_rows_def users_widths_def write_row_def fits_def)
    ultimately show ?thesis
      using that assms(1) by (auto simp: sound_rows_def wf_users_def saved_def)
  qed
  moreover have "users_unique (users (saved u d))"
    using assms(1) by (simp add: sound_rows_def users_unique_def same write_row_def)
  moreover have "stored_ids (saved u d) = stored_ids d" by (rule ids_names) simp
  ultimately show ?thesis using assms(1) by (simp add: sound_rows_def)
qed

lemma safe_save: "fits u \<Longrightarrow> safe X (users_save u)"
  using sound_saved [of _ u] names_saved [of u]
  by (auto simp: users_save_def saved_def intro!: safe_modify)

text \<open>A token is stored for an account that exists, an entry of the audit log with an action of the list.\<close>

lemma sound_changes:
  assumes "sound_rows d"
  shows "evm_user_id ev \<in> stored_ids d \<Longrightarrow>
      sound_rows (d\<lparr>email_verification_tokens := email_verification_tokens d @ [ev]\<rparr>)"
    and "prm_user_id pr \<in> stored_ids d \<Longrightarrow>
      sound_rows (d\<lparr>password_reset_tokens := password_reset_tokens d @ [pr]\<rparr>)"
    and "rtm_user_id rt \<in> stored_ids d \<Longrightarrow> sound_rows (d\<lparr>refresh_tokens := refresh_tokens d @ [rt]\<rparr>)"
    and "(\<And>r. evm_user_id (g1 r) = evm_user_id r) \<Longrightarrow>
      sound_rows (d\<lparr>email_verification_tokens := map g1 (email_verification_tokens d)\<rparr>)"
    and "(\<And>r. prm_user_id (g2 r) = prm_user_id r) \<Longrightarrow>
      sound_rows (d\<lparr>password_reset_tokens := map g2 (password_reset_tokens d)\<rparr>)"
    and "(\<And>r. rtm_user_id (g3 r) = rtm_user_id r) \<Longrightarrow>
      sound_rows (d\<lparr>refresh_tokens := map g3 (refresh_tokens d)\<rparr>)"
    and "sound_rows (d\<lparr>outbox := ob\<rparr>)" and "sound_rows (d\<lparr>feedback_messages := fb\<rparr>)"
    and "ck_admin_audit_action ae \<Longrightarrow> sound_rows (d\<lparr>admin_audit_log := admin_audit_log d @ [ae]\<rparr>)"
  using assms by (auto simp: sound_rows_def stored_ids_def)

lemma names_changes [simp]:
  "names (d\<lparr>email_verification_tokens := x1\<rparr>) = names d" "names (d\<lparr>password_reset_tokens := x2\<rparr>) = names d"
  "names (d\<lparr>refresh_tokens := x3\<rparr>) = names d" "names (d\<lparr>outbox := x4\<rparr>) = names d"
  "names (d\<lparr>feedback_messages := x5\<rparr>) = names d" "names (d\<lparr>admin_audit_log := x6\<rparr>) = names d"
  by (simp_all add: names_def)

lemma safe_add:
  "evt_user_id vt \<in> X \<Longrightarrow> safe X (verification_tokens_add E vt)"
  "prt_user_id pt \<in> X \<Longrightarrow> safe X (reset_tokens_add E pt)"
  "rt_user_id rt \<in> X \<Longrightarrow> safe X (refresh_tokens_add E rt)"
  "ck_admin_audit_action ae \<Longrightarrow> safe X (audit_add ae)"
  unfolding verification_tokens_add_def reset_tokens_add_def refresh_tokens_add_def audit_add_def
  by (intro safe_bnd safe_basic safe_modify; auto simp: sound_changes; fail)+

lemma safe_writes:
  "safe X (verification_tokens_mark_used ti now)" "safe X (reset_tokens_mark_all_used i now)"
  "safe X (refresh_tokens_consume h now)" "safe X (refresh_tokens_revoke_family f now)"
  "safe X (refresh_tokens_revoke_all i now)" "safe X (outbox_add ev)" "safe X (feedback_add fb)"
  unfolding repository_defs
  by (intro safe_step safe_modify safe_raise sound_changes; simp; fail)+

section \<open>The services\<close>

lemma safe_stores:
  "safe X (hit E k n)" "safe X (count_marks E k)" "safe X (reset_marks E k)" "safe X (revoke_token E j e now)"
  "safe X (revoke_sessions E i now ttl)" "safe X (is_token_revoked E j)" "safe X (revoked_before E i)"
  unfolding hit_def count_marks_def reset_marks_def revoke_token_def revoke_sessions_def
    is_token_revoked_def revoked_before_def Let_def
  by (rule safe_step)+

lemma safe_security:
  "safe X (generate_emailed_token E)" "safe X (generate_refresh_token E)"
  "safe X (generate_temporary_password E)" "safe X (issue_access_token E sub role h vis m iss now)"
  "safe X (decode_access_token E tok iss)" "safe X (build_event E ty data at)"
  unfolding generate_emailed_token_def generate_refresh_token_def generate_temporary_password_def
    issue_access_token_def decode_access_token_def build_event_def
  by (rule safe_step)+

lemma safe_events:
  "safe X (user_registered E a url now)" "safe X (email_verification_requested E a url now)"
  "safe X (password_reset_requested E a tok now)" "safe X (password_changed E a now)"
  "safe X (user_deleted E a now)" "safe X (preferences_changed E a now)" "safe X (feedback_submitted E f)"
  unfolding event_constructors by (rule safe_security)+

lemma safe_problem: "safe X (raise (ProblemError p))" "safe X (raise ValueError)" "safe X (raise KeyError)"
  "safe X (raise AttributeError)" "safe X (raise (ReusedRefreshTokenError p))" "safe X (raise BlocksUnavailableError)"
  "safe X (raise NoReturn)" "safe X (raise RequestValidationError)" "safe X (raise RedisError)"
  by (rule safe_raise; simp)+

lemmas safe_layer = safe_finds safe_not_none safe_writes safe_reads safe_stores safe_security safe_events safe_problem safe_step

lemma safe_guards:
  "safe X (deny_blocked_account a t)" "safe X (deny_expired_temporary_password E a t)"
  "safe X (guard_lockout E x p)" "safe X (register_failure E x p)" "safe X (guard_current_password E x p)"
  "safe X (verify_current_password E S a pw t)" "safe X (reset_current_password E S a)"
  "safe X (guard_reset_limit E S x)" "safe X (guard_limit E a)" "safe X (require_superadmin a)"
  "safe X (require_administrator a)" "safe X (require_internal_token S tok)"
  "safe X (deny_email_outside_the_authorized_domain S x)" "safe X (answer n b)"
  unfolding deny_blocked_account_def deny_expired_temporary_password_def guard_lockout_def
    register_failure_def guard_current_password_def verify_current_password_def
    reset_current_password_def guard_reset_limit_def guard_limit_def require_superadmin_def
    require_administrator_def require_internal_token_def
    deny_email_outside_the_authorized_domain_def answer_def Let_def
  by (rule safe_layer)+

lemma safe_parts:
  "u_id a \<in> X \<Longrightarrow> safe X (issue_verification_token E S a now)"
  "u_id a \<in> X \<Longrightarrow> safe X (issue_refresh_token E S a f now)"
  "safe X (issue_session E S a)" "safe X (revoke_refresh_family E raw owner)"
  "safe X (refuse_refresh_token E S h now)" "safe X (audit_administrator i)"
  "action \<in> set [''admin.created'', ''admin.temporary_password_reset'', USER_BLOCKED] \<Longrightarrow>
     safe X (audit_record E i action t j det)"
  unfolding issue_verification_token_def issue_session_def issue_refresh_token_def
    revoke_refresh_family_def refuse_refresh_token_def audit_administrator_def audit_record_def
  by (rule safe_layer | rule safe_add; simp; fail
      | rule safe_add, auto simp: ck_admin_audit_action_def USER_BLOCKED_def; fail)+

text \<open>The caller of a request is an account that was read, so its hash fits.\<close>

lemma safe_current_user:
  assumes "\<And>u. fits u \<Longrightarrow> safe X (f u)"
  shows "safe X (bnd (get_current_user E S path tok) f)"
proof (rule safe_then [where P = "\<lambda>u _. fits u"])
  show "safe X (get_current_user E S path tok)"
    unfolding get_current_user_def by (rule safe_guards safe_layer)+
  fix w :: "'a world" and u w'
  assume w: "sound_rows (w_db w)" and run: "get_current_user E S path tok w = (Inr u, w')"
  from current_user_Inr(1) [OF run] obtain r where "List.find (\<lambda>r. um_id r = u_id u) (users (w_db w)) = Some r"
      "to_domain r = Some u"
    by (auto simp: authentic_def row_by_id_def)
  from found_fits [OF w this] show "fits u" by simp
qed (use assms safe_less in blast)

lemma safe_methods:
  assumes "fitting_values E"
  shows "safe X (verify_email E raw)" and "safe X (resend_verification E S em)"
    and "safe X (login E S x p)" and "safe X (admin_login E S em p)" and "safe X (refresh E S raw)"
    and "safe X (logout E S tok rt)" and "safe X (forgot_password E S x)" and "safe X (reset_password E S raw q)"
    and "safe X (block E S adm i rs)" and "safe X (put_under_review E S i)" and "safe X (lift_review E i)"
    and "safe X (reset_temporary_password E i j)" and "safe X list_administrators"
    and "safe X (account_detail i)" and "safe X account_metrics" and "safe X (public_profile i)"
    and "safe X (submit E a m dev v)"
  unfolding verify_email_def resend_verification_def login_def admin_login_def refresh_def logout_def
    forgot_password_def reset_password_def block_def put_under_review_def lift_review_def
    reset_temporary_password_def list_administrators_def account_detail_def account_metrics_def
    public_profile_def submit_def Let_def
  by (rule safe_hash [OF assms] safe_guards safe_layer safe_parts(3-6) | assumption
      | rule safe_parts safe_add safe_save; simp add: fits_def change_status_def; fail)+

lemma safe_own:
  assumes "fitting_values E" and "fits a"
  shows "safe X (change_password E S a p q)" and "safe X (delete_account E S a p)"
    and "safe X (update_profile a pc)" and "safe X (update_preferences E a prc)"
  unfolding change_password_def delete_account_def update_profile_def update_preferences_def Let_def
  by (rule safe_hash [OF assms(1)] safe_guards safe_layer
      | rule safe_save; insert assms(2), simp add: fits_def split: option.split; fail)+

lemma safe_search: "safe X (search E q viewer cursor)" "safe X (search_accounts q cursor)"
proof -
  have position: "safe X (read_position c)" for c
    unfolding read_position_def decode_cursor_def by (auto intro!: safe_basic safe_problem split: option.split)
  note pages = position safe_loaded_all safe_layer
  have "safe X (excluded_ids_attempts E n viewer ids)" for n ids
    by (induction n, unfold excluded_ids_attempts.simps) (rule safe_layer | assumption)+
  then have asked: "safe X (excluded_ids E viewer ids)" for ids by (simp add: excluded_ids_def)
  have blocks: "safe X (excluded_or_problem E viewer ids)" for ids
  proof (rule safeI)
    fix w :: "'a world" and x w'
    assume w: "sound_rows (w_db w)" "X \<subseteq> stored_ids (w_db w)"
      and run: "excluded_or_problem E viewer ids w = (x, w')"
    obtain y w1 where y: "excluded_ids E viewer ids w = (y, w1)" by fastforce
    from safeD [OF asked w y] run y show "sound_rows (w_db w') \<and> names (w_db w') = names (w_db w) \<and>
        w_draws w \<le> w_draws w' \<and> x \<noteq> Inl IntegrityError \<and> x \<noteq> Inl DataError"
      by (auto simp: excluded_or_problem_def split: sum.splits if_splits)
  qed
  have "safe X (search_public_accounts fragment h c)" for fragment h c
    unfolding search_public_accounts_def by (rule pages)+
  note found = this
  have "safe X (search_loop n E fragment h viewer c visible)" for n fragment h c visible
    by (induction n arbitrary: c visible, unfold search_loop.simps Let_def)
       (rule found blocks safe_layer | assumption)+
  note loop = this
  show "safe X (search E q viewer cursor)"
    unfolding search_def Let_def by (rule loop safe_layer)+
  show "safe X (search_accounts q cursor)"
    unfolding search_accounts_def search_user_accounts_def Let_def by (rule pages)+
qed

section \<open>Adding an account\<close>

text \<open>
  At most one account is added, under names that no row has. The database can only refuse it for its
  id, which is drawn at random: then an account with one of the ids drawn meanwhile was there.
\<close>

definition id_taken :: "'r env \<Rightarrow> 'r world \<Rightarrow> 'r world \<Rightarrow> bool" where
  "id_taken E w w' \<longleftrightarrow> (\<exists>k. w_draws w \<le> k \<and> k < w_draws w' \<and> e_uuid4 E k \<in> stored_ids (w_db w))"

definition free_names :: "(string \<times> string) set \<Rightarrow> db \<Rightarrow> bool" where
  "free_names N d \<longleftrightarrow> (\<forall>(e, h) \<in> N. \<forall>(i, e', h') \<in> set (names d). e' \<noteq> e \<and> h' \<noteq> h)"

definition admissible :: "'r env \<Rightarrow> (string \<times> string) set \<Rightarrow> ('r, 'a) op \<Rightarrow> bool" where
  "admissible E N m \<longleftrightarrow>
     (\<forall>w x w'. sound_rows (w_db w) \<longrightarrow> free_names N (w_db w) \<longrightarrow> m w = (x, w') \<longrightarrow>
        sound_rows (w_db w') \<and> w_draws w \<le> w_draws w' \<and>
        x \<noteq> Inl DataError \<and> (x = Inl IntegrityError \<longrightarrow> id_taken E w w'))"

lemma admissible_safe: "safe {} m \<Longrightarrow> admissible E N m"
  using safeD [of "{}" m] by (fastforce simp: admissible_def)

lemma admissible_bnd:
  assumes "safe {} m" and "\<And>x. admissible E N (f x)"
  shows "admissible E N (bnd m f)"
  unfolding admissible_def
proof (intro allI impI)
  fix w x w' assume w: "sound_rows (w_db w)" "free_names N (w_db w)" and run: "bnd m f w = (x, w')"
  obtain y w1 where m: "m w = (y, w1)" by fastforce
  note first = safeD [OF assms(1) w(1) _ m]
  show "sound_rows (w_db w') \<and> w_draws w \<le> w_draws w' \<and>
    x \<noteq> Inl DataError \<and> (x = Inl IntegrityError \<longrightarrow> id_taken E w w')"
  proof (cases y)
    case (Inl e)
    with run m have "x = Inl e" "w' = w1" by (simp_all add: bnd_Inl)
    with first Inl show ?thesis by simp
  next
    case (Inr z)
    with run m have f: "f z w1 = (x, w')" by (simp add: bnd_Inr)
    have "free_names N (w_db w1)" using w(2) first(2) by (simp add: free_names_def)
    with f assms(2) [of z] first(1) have "sound_rows (w_db w') \<and> w_draws w1 \<le> w_draws w' \<and>
        x \<noteq> Inl DataError \<and> (x = Inl IntegrityError \<longrightarrow> id_taken E w1 w')"
      unfolding admissible_def by simp
    moreover have "id_taken E w1 w' \<Longrightarrow> id_taken E w w'"
      using first(3) ids_names [OF first(2)] by (auto simp: id_taken_def intro: order_trans)
    ultimately show ?thesis using first(3) by auto
  qed
qed

lemma admissible_exists:
  assumes "admissible E N (f True)" and "admissible E (insert (e, h) N) (f False)"
  shows "admissible E N (bnd (users_exists_with_email_or_handle e h) f)"
proof -
  let ?taken = "\<lambda>d. List.find (\<lambda>r. um_email r = e \<or> um_handle r = h) (users d) \<noteq> None"
  have free: "free_names (insert (e, h) N) d" if "free_names N d" "\<not> ?taken d" for d
    using that by (auto simp: free_names_def names_def find_None_iff)
  have run: "bnd (users_exists_with_email_or_handle e h) f w = f (?taken (w_db w)) w" for w
    by (simp add: users_exists_with_email_or_handle_def bnd_apply)
  show ?thesis unfolding admissible_def
  proof (intro allI impI)
    fix w x w' assume w: "sound_rows (w_db w)" "free_names N (w_db w)"
      and "bnd (users_exists_with_email_or_handle e h) f w = (x, w')"
    then have f: "f (?taken (w_db w)) w = (x, w')" by (simp only: run)
    show "sound_rows (w_db w') \<and> w_draws w \<le> w_draws w' \<and>
      x \<noteq> Inl DataError \<and> (x = Inl IntegrityError \<longrightarrow> id_taken E w w')"
    proof (cases "?taken (w_db w)")
      case True
      with f assms(1) w show ?thesis unfolding admissible_def by simp
    next
      case False
      with f assms(2) w(1) free [OF w(2) False] show ?thesis unfolding admissible_def by simp
    qed
  qed
qed

lemma free_namesD:
  assumes "free_names N d" and "(e, h) \<in> N"
  shows "e \<notin> um_email ` set (users d)" and "h \<notin> um_handle ` set (users d)"
  using bspec [OF assms(1) [unfolded free_names_def] assms(2)] by (auto simp: names_def)

lemma sound_added:
  assumes "sound_rows d" and "free_names N d" and "(u_email a, u_handle a) \<in> N" and "i \<notin> stored_ids d"
    and "users_widths (UserModel a i t)"
  shows "sound_rows (added a i t d)"
proof -
  have "ck_users (UserModel a i t)" by (rule to_domain_ck [OF to_domain_model])
  moreover note free_namesD [OF assms(2,3)]
  ultimately show ?thesis
    using assms(1,4,5)
    by (auto simp: sound_rows_def users_unique_def added_def stored_ids_def UserModel_def)
qed

lemma admissible_add:
  assumes "(u_email a, u_handle a) \<in> N" and "length (u_email a) \<le> 320" and "length (u_handle a) \<le> 16"
    and "length (u_password_hash a) \<le> 255" and "\<And>u. safe {u_id u} (f u)"
  shows "admissible E N (bnd (users_add E a) f)"
  unfolding admissible_def
proof (intro allI impI)
  fix w x w' assume w: "sound_rows (w_db w)" "free_names N (w_db w)" and run: "bnd (users_add E a) f w = (x, w')"
  let ?i = "e_uuid4 E (w_draws w)" and ?t = "w_tx_now w" and ?w = "w\<lparr>w_draws := Suc (w_draws w)\<rparr>"
  let ?u = "account.extend a \<lparr> u_id = ?i, u_created_at = ?t \<rparr>"
  have widths: "users_widths (UserModel a ?i ?t)" using assms(2-4) by (simp add: users_widths_def UserModel_def)
  note free = free_namesD [OF w(2) assms(1)]
  show "sound_rows (w_db w') \<and> w_draws w \<le> w_draws w' \<and>
    x \<noteq> Inl DataError \<and> (x = Inl IntegrityError \<longrightarrow> id_taken E w w')"
  proof (cases "?i \<in> stored_ids (w_db w)")
    case True
    with widths run have "x = Inl IntegrityError" "w' = ?w"
      by (simp_all add: bnd_def users_add_run Let_def stored_ids_def)
    with True w(1) show ?thesis by (auto simp: id_taken_def intro: exI [of _ "w_draws w"])
  next
    case False
    let ?w1 = "?w\<lparr>w_db := added a ?i ?t (w_db w)\<rparr>"
    have "users_add E a w = (Inr ?u, ?w1)"
      using widths free False by (simp add: users_add_run Let_def stored_ids_def UserModel_def)
    with run have f: "f ?u ?w1 = (x, w')" by (simp add: bnd_Inr)
    have "sound_rows (w_db ?w1)" using sound_added [OF w assms(1) False widths] by simp
    moreover have "{u_id ?u} \<subseteq> stored_ids (w_db ?w1)"
      by (simp add: stored_ids_def added_def UserModel_def account.defs)
    ultimately show ?thesis using safeD [OF assms(5) _ _ f] by auto
  qed
qed

lemma admissible_hash:
  assumes "fitting_values E" and "\<And>h. length h \<le> 255 \<Longrightarrow> admissible E N (f h)"
  shows "admissible E N (bnd (hash_password E p) f)"
proof -
  have fit: "length (e_argon2_hash E n p) \<le> 255" for n using assms(1) by (simp add: fitting_values_def)
  have "bnd (hash_password E p) f = bnd (draw (\<lambda>n. n)) (\<lambda>n. f (e_argon2_hash E n p))"
    by (simp add: fun_eq_iff hash_password_def bnd_apply)
  then show ?thesis using admissible_bnd [OF safe_basic(3)] assms(2) [OF fit] by metis
qed

lemma admissible_validated:
  assumes "\<And>v. x = Some v \<Longrightarrow> admissible E N (f v)"
  shows "admissible E N (bnd (validated x) f)"
proof (cases x)
  case None
  then show ?thesis by (auto simp: validated_def intro!: admissible_safe safe_problem)
next
  case (Some v)
  with assms show ?thesis by (simp add: validated_def)
qed

lemma User_fields [simp]:
  "u_email (User e h p) = e" "u_handle (User e h p) = h" "u_password_hash (User e h p) = p"
  by (simp_all add: User_def)

lemma admissible_known:
  "admissible E N m \<Longrightarrow> admissible E N (if True then m else m')"
  "admissible E N m' \<Longrightarrow> admissible E N (if False then m else m')"
  by simp_all

lemmas add_rules = admissible_hash admissible_exists admissible_known

lemma adds_one:
  assumes "fitting_values E" and "length (py_lower (py_strip em)) \<le> 320" and "length (py_lower (py_strip h)) \<le> 16"
    and "\<And>X x. safe X (f x)" and "\<And>X x. safe X (g x)"
  shows "admissible E {} (bnd (register E S em h p) f)"
    and "admissible E {} (bnd (create_administrator E S i em h ro) g)"
  unfolding register_def create_administrator_def Let_def bnd_assoc bnd_branches(1) bnd_ret bnd_raise
  by (rule add_rules admissible_safe [OF safe_problem(1)] assms
      | rule admissible_bnd, rule safe_guards safe_security safe_basic
      | (rule admissible_add, (simp add: assms(2,3); fail)+, (rule safe_layer safe_parts assms insertI1 | simp; fail)+))+

section \<open>Requests\<close>

lemma stored_length: "length (py_lower (py_strip s)) \<le> length s"
  by (simp add: py_lower_def py_strip_def py_strip_by_def)
     (metis length_dropWhile_le length_rev order_trans)

lemma accepted_handle_length: "handle_field s = Some h \<Longrightarrow> length (py_lower (py_strip h)) \<le> 16"
  using accepted_handle_stored [of s h]
  by (cases "py_lower (py_strip h)") (auto simp: handle_body_def)

lemma accepted_widths:
  assumes "fitting_values E"
  shows "RegisterRequest E email handle password terms = Some (e, h, p) \<Longrightarrow>
      length (py_lower (py_strip e)) \<le> 320 \<and> length (py_lower (py_strip h)) \<le> 16"
    and "CreateAdministratorRequest E email handle role = Some (e, h, ro) \<Longrightarrow>
      length (py_lower (py_strip e)) \<le> 320 \<and> length (py_lower (py_strip h)) \<le> 16"
proof -
  have email: "e_validate_email E s = Some e \<Longrightarrow> length (py_lower (py_strip e)) \<le> 320" for s
    using assms order_trans [OF stored_length] by (fastforce simp: fitting_values_def)
  show "RegisterRequest E email handle password terms = Some (e, h, p) \<Longrightarrow>
      length (py_lower (py_strip e)) \<le> 320 \<and> length (py_lower (py_strip h)) \<le> 16"
    using email accepted_handle_length
    by (auto simp: RegisterRequest_def split: option.splits if_splits)
  show "CreateAdministratorRequest E email handle role = Some (e, h, ro) \<Longrightarrow>
      length (py_lower (py_strip e)) \<le> 320 \<and> length (py_lower (py_strip h)) \<le> 16"
    using email accepted_handle_length
    by (auto simp: CreateAdministratorRequest_def split: option.splits if_splits)
qed

lemma safe_answers: "safe X (answer n b)" "safe X (problem_response E path p)"
  unfolding answer_def problem_response_def by (rule safe_step)+

lemma safe_refresh_route: "fitting_values E \<Longrightarrow> safe X (refresh_or_answer E S path raw)"
proof (rule safeI)
  fix w :: "'a world" and x w'
  assume E: "fitting_values E" and w: "sound_rows (w_db w)" "X \<subseteq> stored_ids (w_db w)"
    and run: "refresh_or_answer E S path raw w = (x, w')"
  obtain y w1 where y: "refresh E S raw w = (y, w1)" by fastforce
  note first = safeD [OF safe_methods(5) [OF E] w y]
  note second = safeD [OF safe_answers(2) first(1) subset_refl]
  show "sound_rows (w_db w') \<and> names (w_db w') = names (w_db w) \<and> w_draws w \<le> w_draws w' \<and>
    x \<noteq> Inl IntegrityError \<and> x \<noteq> Inl DataError"
    using run y first second
    by (auto simp: refresh_or_answer_def answer_def split: sum.splits exn.splits) fastforce+
qed

lemma register_route_admissible:
  assumes "fitting_values E"
  shows "admissible E {} (register_route E S email handle password terms)"
  unfolding register_route_def
  by (rule admissible_validated) (auto dest!: accepted_widths(1) [OF assms] intro!: adds_one(1) assms safe_answers)

lemma create_administrator_route_admissible:
  assumes "fitting_values E"
  shows "admissible E {} (create_administrator_route E S path bearer email handle role)"
  unfolding create_administrator_route_def current_superadmin_def current_user_def bnd_assoc
  apply (rule admissible_bnd)
   apply (unfold get_current_user_def, (rule safe_guards safe_layer)+)
  apply (rule admissible_bnd, rule safe_guards)
  apply (rule admissible_validated)
  apply (clarsimp, drule accepted_widths(2) [OF assms])
  apply (rule admissible_bnd, rule safe_layer)
  by (auto intro!: adds_one(2) assms safe_answers safe_layer)

lemma admissible_route:
  assumes "fitting_values E"
  shows "admissible E {} (route E S req)"
proof -
  note routes = safe_own [OF assms] safe_methods [OF assms] safe_search safe_refresh_route [OF assms] safe_answers
    safe_current_user safe_guards safe_parts(6) safe_layer
  show ?thesis
    by (cases req; simp only: route.simps;
        (rule register_route_admissible [OF assms] create_administrator_route_admissible [OF assms]
          | (rule admissible_safe, unfold route_defs bnd_assoc, (rule routes | assumption)+)))
qed

end
