(* ===== verification/Store_Properties.thy ===== *)
theory Store_Properties
  imports Schema_Checks Example_Runs
begin

text \<open>The properties of what is stored: sessions, the refresh tokens, rows and the reachable databases.\<close>

section \<open>Sessions\<close>

lemma reset_same_db: "reset_marks E k w = (Inr y, w') \<Longrightarrow> w_db w' = w_db w"
  by (rule same_db_run)

lemma issue_session_Inr:
  "issue_session E S user w = (Inr (tok, n), w') \<Longrightarrow>
     (\<exists>at. issued_token E S (u_id user) at tok) \<and> w_db w' = w_db w"
  by (rule conjI, blast dest: issue_session_issued, auto simp: issue_session_run)

lemma issue_refresh_Inr:
  "issue_refresh_token E S user family now w = (Inr raw, w') \<Longrightarrow> \<exists>row. w_db w' = (w_db w)\<lparr>refresh_tokens :=
     refresh_tokens (w_db w) @ [row]\<rparr> \<and> rtm_user_id row = u_id user \<and> rtm_token_hash row = hash_token E raw \<and>
     rtm_family_id row = family \<and> rtm_expires_at row = now + days (refresh_token_days S) \<and>
     rtm_used_at row = None \<and> rtm_revoked_at row = None"
  by (auto simp: issue_refresh_token_def bnd_apply bnd_assoc refresh_tokens_add_def generate_refresh_token_def)

definition session_of :: "'r env \<Rightarrow> settings \<Rightarrow> db \<Rightarrow> user \<Rightarrow> issued_session \<Rightarrow> db \<Rightarrow> bool" where
  "session_of E S d user session d' \<longleftrightarrow>
     (\<exists>at. issued_token E S (u_id user) at (is_access_token session)) \<and>
     (\<exists>row. d' = d\<lparr>refresh_tokens := refresh_tokens d @ [row]\<rparr> \<and> rtm_user_id row = u_id user \<and>
        rtm_token_hash row = hash_token E (is_refresh_token session) \<and>
        rtm_used_at row = None \<and> rtm_revoked_at row = None)"

lemma login_effect:
  assumes "login E S x p w = (Inr s, w')" and "wf_users (users (w_db w))"
  shows "\<exists>user. accounts (w_db w) (u_id user) = Some user \<and>
    (u_email user = py_lower (py_strip x) \<or> u_handle user = py_lower (py_strip x)) \<and>
    verify_password E p (Some (u_password_hash user)) \<and> u_is_email_verified user \<and> can_log_in user \<and>
    session_of E S (w_db w) user s (w_db w')"
proof -
  let ?x = "py_lower (py_strip x)"
  have "\<exists>user. Option.bind (List.find (\<lambda>r. um_email r = ?x \<or> um_handle r = ?x) (users (w_db w))) to_domain
      = Some user \<and> verify_password E p (Some (u_password_hash user)) \<and> can_log_in user \<and>
      u_is_email_verified user \<and> session_of E S (w_db w) user s (w_db w')"
    using assms(1) unfolding session_of_def
    by (auto simp: login_def Let_def bnd_apply elim!: bnd_InrE split: if_splits dest!: guard_lockout_db find_by_Inr
        deny_blocked_Inr not_none_Inr deny_expired_Inr reset_same_db issue_refresh_Inr issue_session_Inr) blast+
  then obtain user r where r: "List.find (\<lambda>r. um_email r = ?x \<or> um_handle r = ?x) (users (w_db w)) = Some r"
    and d: "to_domain r = Some user" and user: "verify_password E p (Some (u_password_hash user))"
      "can_log_in user" "u_is_email_verified user" "session_of E S (w_db w) user s (w_db w')"
    by (auto simp: bind_eq_Some_conv)
  have "accounts (w_db w) (u_id user) = Some user" using find_stored [OF assms(2) r] d by simp
  moreover have "u_email user = ?x \<or> u_handle user = ?x"
    using find_SomeD [OF r] d by (auto simp: to_domain_Some)
  ultimately show ?thesis using user by blast
qed

text \<open>
  C34. A login that is answered gives a session to the account whose address or handle is the identifier
  and whose password is the one given, which is verified, active and not closed. The access token is one
  of this account; the refresh token is stored under its hash, unused and not revoked, and nothing else
  of the database changed.
\<close>

theorem login_session:
  assumes "constraints (w_db w)" and "serve E S (Login identifier password) w = (r, w')"
    and "r_body r = LoginResponse l"
  shows "\<exists>user session. accounts (w_db w) (u_id user) = Some user \<and>
    (u_email user = py_lower (py_strip identifier) \<or> u_handle user = py_lower (py_strip identifier)) \<and>
    verify_password E password (Some (u_password_hash user)) \<and> u_is_email_verified user \<and> can_log_in user \<and>
    l = \<lparr> lr_access_token = is_access_token session, lr_token_type = ''bearer'',
      lr_expires_in = is_expires_in session, lr_refresh_token = Some (is_refresh_token session),
      lr_must_change_password = False \<rparr> \<and>
    session_of E S (w_db w) user session (w_db w')"
proof -
  have "route E S (Login identifier password) (begun E w) = (Inr r, w')"
    using serve_committed [OF assms(2)] assms(3) by simp
  then obtain session where run: "login E S identifier password (begun E w) = (Inr session, w')"
    and l: "LoginResponse l = session_body session"
    using assms(3)
    by (auto simp: route.simps login_route_def validated_Inr answer_def elim!: bnd_InrE dest!: required_text_same)
  have "wf_users (users (w_db (begun E w)))" using assms(1) by (simp add: wf_users_constraints)
  from login_effect [OF run this] l show ?thesis by (auto simp: session_body_def)
qed

lemma demo_login:
  "serve demo_env demo_settings (Login ''@ana1'' ''Secret12'') demo_world = (r, w') \<Longrightarrow>
     \<exists>l. r_body r = LoginResponse l"
  apply (simp add: serve_defs login_route_def schema_defs)
  apply (simp only: chain_defs method_defs login_def)
  apply (simp add: op_simps row_defs or_zero_def Let_def py_lower_def py_lower_char_def schema_defs)
  apply (auto simp: commit_defs op_simps row_defs session_body_def can_log_in_def
      temporary_password_expired_def)
  done

theorem login_session_witness:
  "\<exists>row. refresh_tokens (w_db (snd (serve demo_env demo_settings (Login ''@ana1'' ''Secret12'') demo_world))) = [row] \<and>
     rtm_used_at row = None \<and> rtm_revoked_at row = None"
proof -
  let ?s = "serve demo_env demo_settings (Login ''@ana1'' ''Secret12'') demo_world"
  have d: "constraints (w_db demo_world)" using demo_constraints by simp
  obtain l where body: "r_body (fst ?s) = LoginResponse l" using demo_login [OF prod.collapse [symmetric]] by blast
  from login_session [OF d prod.collapse [symmetric] body] obtain user session
    where "session_of demo_env demo_settings demo_db user session (w_db (snd ?s))" by auto
  then show ?thesis by (auto simp: session_of_def demo_db_def empty_db_def)
qed

section \<open>The store of the refresh tokens\<close>

text \<open>What the store is asked to do, on the table and on the map from hashes to tokens it stands for.\<close>

datatype token_op = Consume string time | RevokeFamily uuid time | RevokeAccount uuid time

fun on_table :: "token_op \<Rightarrow> ('r, refresh_token option) op" where
  "on_table (Consume h now) = refresh_tokens_consume h now"
| "on_table (RevokeFamily f now) = bnd (refresh_tokens_revoke_family f now) (\<lambda>_. ret None)"
| "on_table (RevokeAccount u now) = bnd (refresh_tokens_revoke_all u now) (\<lambda>_. ret None)"

type_synonym token_store = "string \<Rightarrow> refresh_token option"

definition revoked_if :: "(refresh_token \<Rightarrow> bool) \<Rightarrow> time \<Rightarrow> token_store \<Rightarrow> token_store" where
  "revoked_if P now s h = map_option (\<lambda>t. if P t \<and> rt_revoked_at t = None then t\<lparr>rt_revoked_at := Some now\<rparr> else t) (s h)"

fun on_store :: "token_op \<Rightarrow> token_store \<Rightarrow> refresh_token option \<times> token_store" where
  "on_store (Consume h now) s =
     (case s h of
        Some t \<Rightarrow>
          if rt_used_at t = None \<and> rt_revoked_at t = None \<and> now < rt_expires_at t
          then (Some (t\<lparr>rt_used_at := Some now\<rparr>), s(h \<mapsto> t\<lparr>rt_used_at := Some now\<rparr>)) else (None, s)
      | None \<Rightarrow> (None, s))"
| "on_store (RevokeFamily f now) s = (None, revoked_if (\<lambda>t. rt_family_id t = f) now s)"
| "on_store (RevokeAccount u now) s = (None, revoked_if (\<lambda>t. rt_user_id t = u) now s)"

fun run_table :: "token_op list \<Rightarrow> 'r world \<Rightarrow> (exn + refresh_token option) list \<times> 'r world" where
  "run_table [] w = ([], w)"
| "run_table (x # xs) w = (case on_table x w of (y, w') \<Rightarrow> case run_table xs w' of (ys, w'') \<Rightarrow> (y # ys, w''))"

fun run_store :: "token_op list \<Rightarrow> token_store \<Rightarrow> refresh_token option list \<times> token_store" where
  "run_store [] s = ([], s)"
| "run_store (x # xs) s = (case on_store x s of (y, s') \<Rightarrow> case run_store xs s' of (ys, s'') \<Rightarrow> (y # ys, s''))"

lemma step_refines:
  assumes "wf_refresh (w_db w)" and "on_table x w = (y, w')"
  shows "wf_refresh (w_db w') \<and> y = Inr (fst (on_store x (refresh_view (w_db w)))) \<and>
    refresh_view (w_db w') = snd (on_store x (refresh_view (w_db w)))"
proof (cases x)
  case (Consume h now)
  with assms(2) have "refresh_tokens_consume h now w = (y, w')" by simp
  from consume_refines [OF assms(1) this] Consume show ?thesis by (auto split: option.splits)
next
  case (RevokeFamily f now)
  obtain z w1 where r: "refresh_tokens_revoke_family f now w = (z, w1)" by fastforce
  from sql_refresh_tokens.revoke_chain_run [OF assms(1) r] r RevokeFamily assms(2) show ?thesis
    by (auto simp: bnd_Inr revoked_if_def fun_eq_iff)
next
  case (RevokeAccount u now)
  obtain z w1 where r: "refresh_tokens_revoke_all u now w = (z, w1)" by fastforce
  from sql_refresh_tokens.revoke_account_run [OF assms(1) r] r RevokeAccount assms(2) show ?thesis
    by (auto simp: bnd_Inr revoked_if_def fun_eq_iff)
qed

text \<open>
  C35. The table of refresh tokens behaves, for every sequence of exchanges and revocations, as a map from
  hashes to tokens in which an exchange tests and marks one token at once: the same answers in the same
  order, and the same tokens at the end.
\<close>

theorem refresh_store_refines:
  assumes "constraints (w_db w)" and "run_table xs w = (ys, w')"
  shows "ys = map Inr (fst (run_store xs (refresh_view (w_db w)))) \<and>
    refresh_view (w_db w') = snd (run_store xs (refresh_view (w_db w)))"
proof -
  have "run_table xs w = (ys, w') \<Longrightarrow> wf_refresh (w_db w) \<Longrightarrow> ?thesis"
  proof (induction xs arbitrary: w ys)
    case Nil
    then show ?case by simp
  next
    case (Cons x xs)
    obtain y w1 where x: "on_table x w = (y, w1)" by fastforce
    obtain zs where zs: "run_table xs w1 = (zs, w')" "ys = y # zs"
      using Cons.prems(1) x by (auto split: prod.splits)
    from Cons.IH [OF zs(1)] step_refines [OF Cons.prems(2) x] zs(2) show ?case
      by (auto simp: case_prod_beta)
  qed
  then show ?thesis using assms wf_refresh_constraints by blast
qed

lemma demo_used_constraints: "constraints (w_db demo_used_world)"
  using demo_constraints
  by (simp add: demo_used_world_def demo_refresh_def constraints_def tokens_constraints_def demo_db_def
      empty_db_def demo_row_def UserModel_def Let_def)

theorem refresh_store_refines_witness:
  "fst (run_table [Consume ''second'' 5, Consume ''second'' 6] demo_used_world) =
     map Inr (fst (run_store [Consume ''second'' 5, Consume ''second'' 6] (refresh_view (w_db demo_used_world))))"
  using refresh_store_refines [OF _ prod.collapse [symmetric], of demo_used_world] demo_used_constraints by blast

section \<open>Rows\<close>

text \<open>An account is read back from the row it was stored as, and saving it as it was read changes nothing.\<close>

lemma account_round_trip:
  "to_domain (UserModel a i t) = Some (account.extend a \<lparr> u_id = i, u_created_at = t \<rparr>) \<and>
   (\<forall>row user. to_domain row = Some user \<longrightarrow> write_row user row = row)"
  by (auto simp: to_domain_Some write_row_def)

text \<open>
  Every handle the registration accepts is stored as an at sign and four to fifteen lower case letters,
  digits or underscores, whatever spelling it was sent in.
\<close>

lemma stored_handles:
  assumes "RegisterRequest E email handle password terms = Some (e, h, p)"
  shows "\<exists>body. py_lower (py_strip h) = CHR ''@'' # body \<and> 4 \<le> length body \<and> length body \<le> 15 \<and>
    (\<forall>c \<in> set body. handle_char c \<and> \<not> py_isupper c)"
proof -
  have "handle_field handle = Some h"
    using assms by (auto simp: RegisterRequest_def split: option.splits if_splits)
  then have b: "handle_body (py_lower (py_strip h))" using accepted_handle_stored by blast
  obtain body where body: "py_lower (py_strip h) = CHR ''@'' # body"
    using b by (cases "py_lower (py_strip h)") (auto simp: handle_body_def)
  have "\<not> py_isupper c" if "c \<in> set (py_lower s)" for c s
    using that by (auto simp: py_lower_def)
  then have "\<not> py_isupper c" if "c \<in> set body" for c
    using that by (metis body list.set_intros(2))
  with b body show ?thesis by (auto simp: handle_body_def)
qed

section \<open>Every reachable database\<close>

lemma serve_storable:
  assumes "storable (w_db w)"
  shows "storable (w_db (snd (serve E S req w)))"
proof -
  obtain x w1 where run: "session_scope E (route E S req) w = (x, w1)" by fastforce
  show ?thesis
  proof (cases x)
    case (Inl e)
    with run have failed: "session_scope E (route E S req) w = (Inl e, w1)" by simp
    obtain y w2 where er: "error_response E (request_path req) e w1 = (y, w2)" by fastforce
    have "snd (serve E S req w) = w2" using failed er by (simp add: serve_def split: sum.split)
    with session_scope_storable(2) [OF failed] error_response_db [OF er] assms show ?thesis by simp
  next
    case (Inr z)
    with run have committed: "session_scope E (route E S req) w = (Inr z, w1)" by simp
    then have "snd (serve E S req w) = w1" by (simp add: serve_def)
    with session_scope_storable(1) [OF committed] show ?thesis by simp
  qed
qed

lemma settle_storable:
  assumes "storable (w_db w)"
  shows "storable (w_db (snd (settle E body w)))"
proof (cases "model_validate_json E body")
  case None
  with assms show ?thesis by (simp add: settle_malformed)
next
  case (Some ev)
  with assms show ?thesis
    by (simp add: settle_event storable_with_entry event_entry_action)
qed

lemma seed_storable: "storable (w_db w) \<Longrightarrow> storable (w_db (snd (seed_main E S w)))"
proof -
  assume d: "storable (w_db w)"
  show ?thesis
  proof (cases "seed_validate S")
    case (Inl e)
    with seed_main_bad [OF Inl, of E w] d show ?thesis by simp
  next
    case (Inr t)
    then obtain email handle password where S: "seed_validate S = Inr (email, handle, password)" by (cases t) auto
    from seed_main_run [OF d S prod.collapse [symmetric]] d show ?thesis by metis
  qed
qed

lemma later_storable:
  assumes "storable (w_db w)" and "later E S w w'"
  shows "storable (w_db w')"
  using assms(2)
proof (induction rule: later.induct)
  case start
  show ?case by (rule assms(1))
next
  case (publisher w' gone)
  then show ?case using published_constraints by (simp add: storable_def)
qed (simp_all add: serve_storable settle_storable seed_storable)

text \<open>
  C3. The handlers respect the schema. Whatever requests, events, publications and seeds came before, every
  table keeps its keys, its foreign keys and its checks, and the next handler, before the database is asked
  to commit, has written only rows with valid roles, states, languages and actions, texts of accounts that
  fit their columns, addresses and handles that no two accounts share, and tokens of accounts that exist.
  No statement of it was refused for a width, and none for a key unless a random id it drew was the id of
  an account. So a handler that ends is answered and committed, unless a random key or the
  hash of a random token was there already.
\<close>

theorem requests_respect_schema:
  assumes "fitting_values E" and "storable (w_db w)" and "later E S w w1"
    and "route E S req (begun E w1) = (x, w2)"
  shows "storable (w_db w1) \<and> sound_rows (w_db w2) \<and> x \<noteq> Inl DataError \<and>
    (x = Inl IntegrityError \<longrightarrow> id_taken E (begun E w1) w2) \<and>
    (\<forall>r. x = Inr r \<and> distinct_keys (w_db w2) \<longrightarrow> serve E S req w1 = (r, w2))"
proof -
  have d: "storable (w_db w1)" by (rule later_storable [OF assms(2,3)])
  then have "sound_rows (w_db (begun E w1))" by (simp add: storable_split)
  with admissible_route [OF assms(1), of S req] assms(4)
  have run: "sound_rows (w_db w2) \<and> x \<noteq> Inl DataError \<and> (x = Inl IntegrityError \<longrightarrow> id_taken E (begun E w1) w2)"
    unfolding admissible_def free_names_def by blast
  moreover have "serve E S req w1 = (r, w2)" if "x = Inr r" "distinct_keys (w_db w2)" for r
  proof -
    have "storable (w_db w2)" using run that(2) by (simp add: storable_split)
    then have "session_scope E (route E S req) w1 = (Inr r, w2)"
      using session_scope_Inr assms(4) that(1) by metis
    then show ?thesis by (simp add: serve_def)
  qed
  ultimately show ?thesis using d by blast
qed

text \<open>A second registration, in a world where hashes and addresses are cut to the width of their columns.\<close>

definition narrow_env :: "keyspace env" where
  "narrow_env = demo_env\<lparr>e_argon2_hash := \<lambda>n p. CHR ''$'' # take 254 p,
     e_validate_email := \<lambda>s. if CHR ''@'' \<in> set s \<and> length s \<le> 320 then Some s else None\<rparr>"

lemma narrow_fitting: "fitting_values narrow_env"
  by (simp add: fitting_values_def narrow_env_def)

lemma narrow_fields [simp]:
  "e_clock narrow_env n = int n * 1000" "e_uuid4 narrow_env n = of_nat n"
  "e_token_urlsafe narrow_env b n = ''t'' @ py_str_nat n" "e_sha256 narrow_env s = s"
  "e_argon2_hash narrow_env n p = CHR ''$'' # take 254 p"
  "e_validate_email narrow_env s = (if CHR ''@'' \<in> set s \<and> length s \<le> 320 then Some s else None)"
  by (simp_all add: narrow_env_def)

lemma narrow_register:
  "route narrow_env demo_settings (Register ''bob@x.ar'' ''@bob12'' ''Secret77'' True) (begun narrow_env demo_world) = (x, w') \<Longrightarrow>
     (\<exists>r. x = Inr r \<and> r_status r = 201) \<and> distinct_keys (w_db w')"
  apply (simp add: serve_defs register_route_def RegisterRequest_def handle_field_def enforce_handle_format_def
      HANDLE_PATTERN_match_def handle_body_def handle_char_def schema_defs py_lower_def py_lower_char_def)
  apply (simp only: chain_defs method_defs register_def)
  apply (simp add: op_simps Let_def)
  apply (auto simp: commit_defs op_simps row_defs distinct_keys_def)
  done

theorem requests_respect_schema_witness:
  "r_status (fst (serve narrow_env demo_settings (Register ''bob@x.ar'' ''@bob12'' ''Secret77'' True) demo_world)) = 201"
proof -
  let ?run = "route narrow_env demo_settings (Register ''bob@x.ar'' ''@bob12'' ''Secret77'' True)
    (begun narrow_env demo_world)"
  have d: "storable (w_db demo_world)"
    using demo_constraints by (simp add: storable_def demo_db_def users_widths_def demo_row_def UserModel_def User_def)
  from requests_respect_schema [OF narrow_fitting d later.start prod.collapse [of ?run, symmetric]]
    narrow_register [OF prod.collapse [of ?run, symmetric]]
  show ?thesis by auto
qed

end
