(* ===== verification/Logout.thy ===== *)
theory Logout
  imports Lockout
begin

text \<open>
  What a logout leaves behind: the mark of the access token in Redis, which no request takes away
  before the last second of the token, and the revoked family of the refresh token sent along.
\<close>

section \<open>Requests of one kind\<close>

text \<open>\<open>later\<close> of the theory \<open>Sessions\<close>, where every request served satisfies \<open>P\<close>.\<close>

inductive later_where :: "(request \<Rightarrow> bool) \<Rightarrow> 'r env \<Rightarrow> settings \<Rightarrow> 'r world \<Rightarrow> 'r world \<Rightarrow> bool"
  for P E S w where
  start: "later_where P E S w w"
| request: "later_where P E S w w' \<Longrightarrow> P req \<Longrightarrow> later_where P E S w (snd (serve E S req w'))"
| event: "later_where P E S w w' \<Longrightarrow> later_where P E S w (snd (settle E message w'))"
| publisher: "later_where P E S w w' \<Longrightarrow> later_where P E S w (w'\<lparr>w_db := without_outbox gone (w_db w')\<rparr>)"
| seed: "later_where P E S w w' \<Longrightarrow> later_where P E S w (snd (seed_main E S w'))"
| wait: "later_where P E S w w' \<Longrightarrow> w_draws w' \<le> n \<Longrightarrow> later_where P E S w (w'\<lparr>w_draws := n\<rparr>)"

lemma later_where_later: "later_where P E S w w' \<Longrightarrow> later E S w w'"
  by (induction rule: later_where.induct) (blast intro: later.intros)+

text \<open>
  Token ids are random. A logout with another token leaves the mark of \<open>p\<close> alone; that is, a token
  accepted at a logout that has the id of \<open>p\<close> expires when \<open>p\<close> does.
\<close>

definition id_of_its_own :: "'r env \<Rightarrow> token_payload \<Rightarrow> request \<Rightarrow> bool" where
  "id_of_its_own E p req \<longleftrightarrow>
     (\<forall>token raw iss t c. req = Logout token raw \<longrightarrow> e_jwt_decode E token iss t = Inr c \<longrightarrow>
        c_jti c = Some (pl_jti p) \<longrightarrow> c_exp c = Some (whole_seconds (pl_exp p)))"

text \<open>The instant up to which the mark of a token is sure to be there: its last second is not covered.\<close>

definition covered_until :: "token_payload \<Rightarrow> time" where
  "covered_until p = seconds (whole_seconds (pl_exp p)) - 999999"

lemma plain_token_key: "plain_key (revoked_token_key j)"
  by (auto simp: plain_key_def reset_request_key_def feedback_limit_key_def revoked_sessions_key_def
      revoked_token_key_def)

lemma door_key_other: "door E S req = Some (policy, x) \<Longrightarrow> policy_key policy y \<noteq> revoked_token_key j"
  "policy_key (current_password_policy S) y \<noteq> revoked_token_key j"
  by (cases rule: door.cases [of "(E, S, req)"])
     (auto simp: policy_key_def app_login_policy_def admin_login_policy_def current_password_policy_def
        revoked_token_key_def split: if_splits)

lemma token_key_eq [simp]: "revoked_token_key i = revoked_token_key j \<longleftrightarrow> i = j"
  by (simp add: revoked_token_key_def)

lemma marked_safe:
  assumes "id_of_its_own E p req"
  shows "safe_request E S (revoked_token_key (pl_jti p)) (shut 1 (covered_until p)) req"
proof -
  have "safe_logout E (revoked_token_key (pl_jti p)) (shut 1 (covered_until p)) token"
    if "req = Logout token raw" for token raw
    using assms that unfolding id_of_its_own_def safe_logout_def covered_until_def by fastforce
  then show ?thesis
    by (auto simp: safe_request_def safe_door_def plain_token_key door_key_other)
qed

context service_env
begin

lemma sp_kept_where:
  assumes "later_where P E S w w'" and "\<And>req. P req \<Longrightarrow> safe_request E S k F req" and "counting E k F w"
  shows "counting E k F w'"
  using assms
  by (induction rule: later_where.induct)
     (auto simp: snd_settle snd_seed_main intro: sp_serve sp_wait preservesD [OF sp_background(1)]
       preservesD [OF sp_background(2)])

end

lemma decoded_claims:
  assumes "jwt_codec E" and "e_jwt_decode E (e_jwt_encode E p) iss t = Inr c"
  shows "c = claims_of p" and "t < seconds (whole_seconds (pl_exp p))"
proof -
  obtain q where q: "e_jwt_encode E p = e_jwt_encode E q" "c = claims_of q" "t < seconds (whole_seconds (pl_exp q))"
    using assms unfolding jwt_codec_def by blast
  then have "claims_of p = claims_of q" using assms(1) unfolding jwt_codec_def by blast
  with q show "c = claims_of p" "t < seconds (whole_seconds (pl_exp p))" by (simp_all add: claims_of_def)
qed

lemma decodes:
  assumes "jwt_codec E" and "pl_iss p = iss" and "seconds (whole_seconds (pl_iat p)) \<le> t"
    and "t < seconds (whole_seconds (pl_exp p))"
  shows "e_jwt_decode E (e_jwt_encode E p) iss t = Inr (claims_of p)"
  using assms unfolding jwt_codec_def by blast

section \<open>A logout that was answered\<close>

lemma logout_run:
  assumes "logout E S token raw w = (Inr (), w')"
  obtains (expired) "e_jwt_decode E token (jwt_issuer S) (instant E w) = Inl ExpiredSignatureError"
      "revoke_refresh_family E raw None (w\<lparr>w_draws := Suc (w_draws w)\<rparr>) = (Inr (), w')"
  | (valid) c j e sub owner w1 where "e_jwt_decode E token (jwt_issuer S) (instant E w) = Inr c"
      "c_jti c = Some j" "c_exp c = Some e" "c_sub c = Some sub" "uuid_parse sub = Some owner"
      "revoke_token E j (seconds e) (e_clock E (Suc (w_draws w))) (w\<lparr>w_draws := Suc (Suc (w_draws w))\<rparr>) = (Inr (), w1)"
      "revoke_refresh_family E raw (Some owner) w1 = (Inr (), w')"
  using assms
  by (cases "e_jwt_decode E token (jwt_issuer S) (instant E w)")
     (auto simp: logout_def decode_access_token_def bnd_assoc bnd_apply subscript_def
       split: jwt_error.splits option.splits elim!: bnd_InrE)

lemma family_ended:
  assumes "revoke_refresh_family E (Some raw) owner w = (Inr (), w')" and "wf_refresh (w_db w)"
    and "refresh_view (w_db w) (hash_token E raw) = Some t" and "owner = None \<or> owner = Some (rt_user_id t)"
    and "refresh_view (w_db w) h = Some t'" and "rt_family_id t' = rt_family_id t"
  shows "dead_refresh h (w_db w')"
proof -
  have run: "refresh_tokens_revoke_family (rt_family_id t) (instant E w) (w\<lparr>w_draws := Suc (w_draws w)\<rparr>) = (Inr (), w')"
    using assms(1,3,4)
    by (auto simp: revoke_refresh_family_def refresh_tokens_find_by_hash_def refresh_view_def bnd_apply
        split: option.splits if_splits)
  from sql_refresh_tokens.revoke_chain_run [OF _ run] assms(2,5,6) show ?thesis
    by (auto simp: dead_refresh_def)
qed

lemma revoke_token_db: "revoke_token E j e now w = (x, w') \<Longrightarrow> w_db w' = w_db w"
  by (auto simp: revoke_token_def Let_def dest: redis_cmd_db)

lemma logout_ends_family:
  assumes "logout E S token (Some raw) w = (Inr (), w')" and "wf_refresh (w_db w)"
    and "refresh_view (w_db w) (hash_token E raw) = Some t"
    and "\<And>c sub owner. e_jwt_decode E token (jwt_issuer S) (instant E w) = Inr c \<Longrightarrow> c_sub c = Some sub \<Longrightarrow>
      uuid_parse sub = Some owner \<Longrightarrow> owner = rt_user_id t"
    and "refresh_view (w_db w) h = Some t'" and "rt_family_id t' = rt_family_id t"
  shows "dead_refresh h (w_db w')"
  using assms(1)
proof (cases rule: logout_run)
  case expired
  with family_ended [OF expired(2)] assms show ?thesis by simp
next
  case (valid c j e sub owner w1)
  then have "w_db w1 = w_db w" by (auto dest: revoke_token_db)
  with family_ended [OF valid(7)] assms valid show ?thesis by simp
qed

context service_env
begin

lemma marked:
  assumes "revoke_token E j (seconds e) now w = (Inr (), w')" and "now \<le> instant E w"
  shows "counting E (revoked_token_key j) (shut 1 (seconds e - 999999)) w'"
proof -
  let ?k = "revoked_token_key j" and ?ttl = "whole_seconds (seconds e - now)"
  have c: "redis_cmd E (rd_set_ex (e_redis E) ?k 1 ?ttl) w = (Inr (), w')"
    using assms(1) by (simp add: revoke_token_def)
  then obtain r' where f: "rd_set_ex (e_redis E) ?k 1 ?ttl (instant E w) (w_redis w) = (Some (), r')"
    and w': "w' = w\<lparr>w_redis := r', w_draws := Suc (w_draws w)\<rparr>" by (rule cmd_Inr)
  have "rd_live (e_redis E) r' (instant E w) ?k = Some (1, Some (instant E w + seconds ?ttl))"
    using set_effect [OF f] by simp
  moreover have "seconds e - 999999 \<le> instant E w + seconds ?ttl"
    using assms(2) whole_seconds_close [of "seconds e - now"] by linarith
  ultimately have "live_marks E w' t ?k = Some 1" if "instant E w \<le> t" "t < seconds e - 999999" for t
    using live_ages [OF that(1), of r' ?k] that w' by (simp add: live_marks_def aged_def alive_at_def)
  then show ?thesis using cmd_clk [OF c] by (force simp: counting_def shut_def)
qed

lemma logout_marks:
  assumes "jwt_codec E" and "pl_iss p = jwt_issuer S" and "seconds (whole_seconds (pl_iat p)) \<le> instant E w"
    and "logout E S (e_jwt_encode E p) raw w = (Inr (), w')"
  shows "counting E (revoked_token_key (pl_jti p)) (shut 1 (covered_until p)) w'"
proof -
  let ?k = "revoked_token_key (pl_jti p)"
  have kept: "counting E ?k F v'" if "counting E ?k F v" "revoke_refresh_family E raw owner v = (Inr (), v')"
    for F v v' owner
    using preservesD [OF sp_guards(16) [OF plain_token_key] that(1)] that(2) by (metis after_pair)
  show ?thesis
    using assms(4)
  proof (cases rule: logout_run)
    case expired
    have "seconds (whole_seconds (pl_exp p)) \<le> instant E w"
      using decodes [OF assms(1-3)] expired(1) by force
    moreover have "instant E w \<le> e_clock E (Suc (w_draws w))" by (simp add: clock_mono)
    ultimately have "counting E ?k (shut 1 (covered_until p)) (w\<lparr>w_draws := Suc (w_draws w)\<rparr>)"
      by (auto simp: counting_def shut_def covered_until_def)
    with kept expired(2) show ?thesis by blast
  next
    case (valid c j e sub owner w1)
    from decoded_claims [OF assms(1) valid(1)] valid(2,3)
    have "j = pl_jti p" "e = whole_seconds (pl_exp p)" by (simp_all add: claims_of_def)
    with marked [OF valid(6)] have "counting E ?k (shut 1 (covered_until p)) w1"
      by (simp add: covered_until_def clock_mono)
    with kept valid(7) show ?thesis by blast
  qed
qed

text \<open>A caller whose token is marked does not pass.\<close>

lemma marked_refused:
  assumes "jwt_codec E" and "counting E (revoked_token_key (pl_jti p)) (shut 1 (covered_until p)) w"
    and "seconds (whole_seconds (pl_exp p)) \<le> instant E w \<or> e_clock E (w_draws w + 2) < covered_until p"
  shows "outcome (get_current_user E S path (e_jwt_encode E p) w) \<noteq> Inr user"
proof
  let ?k = "revoked_token_key (pl_jti p)" and ?w = "w\<lparr>w_draws := Suc (w_draws w)\<rparr>"
  assume "outcome (get_current_user E S path (e_jwt_encode E p) w) = Inr user"
  then obtain w' where run: "get_current_user E S path (e_jwt_encode E p) w = (Inr user, w')"
    by (auto simp: outcome_def) (metis prod.collapse)
  then obtain c where c: "e_jwt_decode E (e_jwt_encode E p) (jwt_issuer S) (instant E w) = Inr c"
    by (auto simp: get_current_user_def decode_access_token_def bnd_assoc bnd_apply split: sum.splits)
  note claims = decoded_claims [OF assms(1) c]
  obtain owner cutoff w1 n w2 where r: "revoked_before E owner ?w = (Inr cutoff, w1)"
    and x: "is_token_revoked E (pl_jti p) w1 = (Inr False, w2)"
    using run c claims(1)
    by (auto simp: get_current_user_def decode_access_token_def bnd_assoc bnd_apply claims_of_def
        elim!: bnd_InrE split: option.splits if_splits)
  have "counting E ?k (shut 1 (covered_until p)) ?w" using sp_wait [OF assms(2), of "Suc (w_draws w)"] by simp
  then have marked: "counting E ?k (shut 1 (covered_until p)) w1"
    using preservesD [OF sp_sessions(3) [OF plain_token_key]] r by (metis after_pair)
  have draws: "w_draws w1 = w_draws w + 2"
    using r by (auto simp: revoked_before_def redis_cmd_def bnd_def split: prod.splits option.splits sum.splits)
  from x obtain m r' where m: "m \<noteq> 1" "rd_exists (e_redis E) ?k (instant E w1) (w_redis w1) = (Some m, r')"
    by (auto simp: is_token_revoked_def redis_cmd_def bnd_def split: prod.splits option.splits sum.splits)
  then have "live_marks E w1 (instant E w1) ?k = None"
    using exists_answer [OF m(2)] by (auto simp: live_marks_def split: if_splits)
  with marked draws assms(3) claims(2) show False by (auto simp: counting_def shut_def)
qed

end

end
