(* ===== verification/Logout_Properties.thy ===== *)
theory Logout_Properties
  imports Logout Example_Runs
begin

text \<open>The property of the logout, with its example.\<close>

lemma logout_request_run:
  assumes "serve E S (Logout token raw) w = (r, w')" and "r_body r = NoContent"
  shows "logout E S token raw (begun E w) = (Inr (), w') \<and> constraints (w_db w')"
  using serve_committed [OF assms(1)] assms(2)
  by (auto simp: route.simps logout_route_def answer_def elim!: bnd_InrE)

lemma demo_logout:
  "serve demo_env demo_settings (Logout (demo_token 1) None) demo_world = (r, w') \<Longrightarrow>
     r_body r = NoContent \<and> w_draws w' < 6000"
  by (simp add: serve_defs logout_route_def logout_def revoke_refresh_family_def bnd_assoc)
     (simp add: op_simps method_defs demo_decodes claims_of_def demo_payload_def whole_seconds_def bnd_def
        revoke_token_def revoke_refresh_family_def redis_cmd_def ret_def, auto simp: commit_defs)

text \<open>
  C39. A logout that is answered ends the session it came from. The access token opens nothing any more,
  whatever follows, up to its last second and from its expiry on; and no refresh token of the chain of the
  one that was sent along, when it is of the same account, is exchanged again. In the last second before
  the expiry the mark may be gone, since its life is the remaining time in whole seconds.
\<close>

theorem logout_ends_session:
  assumes "service_env E" and "jwt_codec E" and "constraints (w_db w)"
    and "pl_iss p = jwt_issuer S" and "seconds (whole_seconds (pl_iat p)) \<le> instant E w"
    and "serve E S (Logout (e_jwt_encode E p) raw) w = (r, w1)" and "r_body r = NoContent"
    and "later_where (id_of_its_own E p) E S w1 w2"
  shows "(seconds (whole_seconds (pl_exp p)) \<le> instant E w2 \<or> e_clock E (w_draws w2 + 2) < covered_until p \<longrightarrow>
      outcome (get_current_user E S path (e_jwt_encode E p) w2) \<noteq> Inr user) \<and>
    (\<forall>sent t other t' r' w3. raw = Some sent \<longrightarrow> refresh_view (w_db w) (hash_token E sent) = Some t \<longrightarrow>
      pl_sub p = uuid_str (rt_user_id t) \<longrightarrow> refresh_view (w_db w) (hash_token E other) = Some t' \<longrightarrow>
      rt_family_id t' = rt_family_id t \<longrightarrow> serve E S (Refresh other) w2 = (r', w3) \<longrightarrow>
      r_status r' \<in> {401, 422, 500})"
proof -
  have run: "logout E S (e_jwt_encode E p) raw (begun E w) = (Inr (), w1)" and good: "constraints (w_db w1)"
    using logout_request_run [OF assms(6,7)] by simp_all
  have issued: "seconds (whole_seconds (pl_iat p)) \<le> instant E (begun E w)"
    using assms(5) service_env.clock_mono [OF assms(1), of "w_draws w" "Suc (w_draws w)"] by simp
  have "counting E (revoked_token_key (pl_jti p)) (shut 1 (covered_until p)) w2"
    using service_env.sp_kept_where [OF assms(1,8) marked_safe]
      service_env.logout_marks [OF assms(1,2,4) issued run] by blast
  then have access: "outcome (get_current_user E S path (e_jwt_encode E p) w2) \<noteq> Inr user"
    if "seconds (whole_seconds (pl_exp p)) \<le> instant E w2 \<or> e_clock E (w_draws w2 + 2) < covered_until p"
    using service_env.marked_refused [OF assms(1,2)] that by blast
  have chain: "r_status r' \<in> {401, 422, 500}"
    if "raw = Some sent" "refresh_view (w_db w) (hash_token E sent) = Some t" "pl_sub p = uuid_str (rt_user_id t)"
      "refresh_view (w_db w) (hash_token E other) = Some t'" "rt_family_id t' = rt_family_id t"
      "serve E S (Refresh other) w2 = (r', w3)" for sent t other t' r' w3
  proof -
    have owner: "owner = rt_user_id t"
      if "e_jwt_decode E (e_jwt_encode E p) iss at = Inr c" "c_sub c = Some sub" "uuid_parse sub = Some owner"
      for iss at c sub owner
      using decoded_claims(1) [OF assms(2) that(1)] that(2,3) uuid_parse_str [of "rt_user_id t"] \<open>pl_sub p = _\<close>
      by (simp add: claims_of_def del: uuid_parse_str)
    have "dead_refresh (hash_token E other) (w_db w1)"
      using that wf_refresh_constraints [OF assms(3)]
      by (intro logout_ends_family [OF run [unfolded that(1)], of t _ t']) (simp_all add: owner)
    from dead.later_keeps [OF later_where_later [OF assms(8)] this good] that(6) show ?thesis
      using dead_refresh_answer wf_refresh_constraints by blast
  qed
  from access chain show ?thesis by blast
qed

theorem logout_ends_session_witness:
  "\<forall>user. outcome (get_current_user demo_env demo_settings me_path (demo_token 1)
     (snd (serve demo_env demo_settings (Logout (demo_token 1) None) demo_world))) \<noteq> Inr user"
proof
  fix user
  let ?p = "demo_payload 1 ''user'' ''@ana1''"
  let ?s = "serve demo_env demo_settings (Logout (demo_token 1) None) demo_world"
  have t: "demo_token 1 = e_jwt_encode demo_env ?p" by (simp add: demo_token_def demo_env_def)
  note run = demo_logout [OF prod.collapse [of ?s, symmetric]]
  have early: "e_clock demo_env (w_draws (snd ?s) + 2) < covered_until ?p"
    using run by (simp add: demo_env_def covered_until_def demo_payload_def whole_seconds_def)
  have fields: "constraints (w_db demo_world)" "pl_iss ?p = jwt_issuer demo_settings"
    "seconds (whole_seconds (pl_iat ?p)) \<le> instant demo_env demo_world"
    using demo_constraints by (simp_all add: demo_payload_def demo_env_def whole_seconds_def)
  from logout_ends_session [OF demo_service_env demo_jwt fields prod.collapse [of ?s, symmetric, unfolded t]
      _ later_where.start, of me_path user] run early
  show "outcome (get_current_user demo_env demo_settings me_path (demo_token 1) (snd ?s)) \<noteq> Inr user"
    by (simp add: t)
qed

end
