(* ===== verification/Migrations.thy ===== *)
theory Migrations
  imports Events
begin

text \<open>
  The migrations of \<open>migrations/versions\<close> as programs over a small PostgreSQL: its catalogue (tables,
  indexes, functions, triggers, extensions) and the rows of each table. A statement either changes the
  database or is refused, which ends the migration and leaves everything as it was. The models of
  \<open>infrastructure/database/models.py\<close> are translated to the catalogue they declare.
\<close>

section \<open>Databases\<close>

datatype col_type = T_uuid | T_varchar nat | T_text | T_boolean | T_timestamptz | T_jsonb

datatype col_default = D_text string | D_now | D_false

record column =
  cl_name :: string
  cl_type :: col_type
  cl_nullable :: bool
  cl_default :: "col_default option"

text \<open>A check of this schema limits one text column to some values.\<close>

record check =
  ck_name :: string
  ck_column :: string
  ck_values :: "string list"

record foreign_key =
  fk_column :: string
  fk_table :: string
  fk_references :: string
  fk_ondelete :: string

record db_table =
  tb_name :: string
  tb_columns :: "column list"
  tb_primary_key :: "string list"
  tb_foreign_keys :: "foreign_key list"
  tb_checks :: "check list"

text \<open>Each column of an index comes with its order or its operator class, when it has one.\<close>

record db_index =
  ix_name :: string
  ix_table :: string
  ix_columns :: "(string \<times> string) list"
  ix_unique :: bool
  ix_using :: string

text \<open>The two trigger functions: one announces the new row, the other refuses the statement.\<close>

datatype trigger_body = Notify string | Refuse

record db_function =
  fn_name :: string
  fn_body :: trigger_body

record db_trigger =
  tg_name :: string
  tg_table :: string
  tg_events :: "string list"
  tg_function :: string

datatype sql_value = V_null | V_bool bool | V_text string | V_uuid uuid | V_time time | V_event event

type_synonym db_row = "string \<rightharpoonup> sql_value"

record pg =
  pg_tables :: "db_table list"
  pg_indexes :: "db_index list"
  pg_functions :: "db_function list"
  pg_triggers :: "db_trigger list"
  pg_extensions :: "string list"
  pg_rows :: "string \<Rightarrow> db_row list"

definition empty_pg :: pg where
  "empty_pg = \<lparr> pg_tables = [], pg_indexes = [], pg_functions = [], pg_triggers = [],
     pg_extensions = [], pg_rows = (\<lambda>_. []) \<rparr>"

section \<open>Statements\<close>

text \<open>What a statement reads besides the database: \<open>now()\<close> and \<open>gen_random_uuid()\<close>.\<close>

record sql_env =
  sq_now :: time
  sq_uuid :: "nat \<Rightarrow> uuid"

datatype statement =
    Create_Table db_table
  | Drop_Table string
  | Add_Column string column
  | Drop_Column string string
  | Alter_Default string string "col_default option"
  | Create_Check string check
  | Drop_Check string string
  | Create_Index db_index
  | Drop_Index string string
  | Create_Function db_function
  | Drop_Function string
  | Create_Trigger db_trigger
  | Drop_Trigger string string
  | Create_Extension string
  | Update string "db_row \<Rightarrow> db_row"
  | Insert string "sql_env \<Rightarrow> pg \<Rightarrow> db_row list"

definition find_table :: "string \<Rightarrow> pg \<Rightarrow> db_table option" where
  "find_table t d = List.find (\<lambda>x. tb_name x = t) (pg_tables d)"

definition has_column :: "string \<Rightarrow> db_table \<Rightarrow> bool" where
  "has_column c t \<longleftrightarrow> c \<in> set (map cl_name (tb_columns t))"

definition map_table :: "string \<Rightarrow> (db_table \<Rightarrow> db_table) \<Rightarrow> pg \<Rightarrow> pg" where
  "map_table t f d = d\<lparr>pg_tables := map (\<lambda>x. if tb_name x = t then f x else x) (pg_tables d)\<rparr>"

definition set_rows :: "string \<Rightarrow> db_row list \<Rightarrow> pg \<Rightarrow> pg" where
  "set_rows t rows d = d\<lparr>pg_rows := (pg_rows d)(t := rows)\<rparr>"

definition default_value :: "sql_env \<Rightarrow> col_default option \<Rightarrow> sql_value" where
  "default_value Q x = (case x of None \<Rightarrow> V_null | Some (D_text s) \<Rightarrow> V_text s | Some D_now \<Rightarrow> V_time (sq_now Q)
     | Some D_false \<Rightarrow> V_bool False)"

text \<open>A check that comes out null does not refuse the row.\<close>

definition passes :: "check \<Rightarrow> db_row \<Rightarrow> bool" where
  "passes c r = (case r (ck_column c) of Some (V_text s) \<Rightarrow> s \<in> set (ck_values c) | Some V_null \<Rightarrow> True | _ \<Rightarrow> False)"

fun has_type :: "col_type \<Rightarrow> sql_value \<Rightarrow> bool" where
  "has_type T_uuid (V_uuid _) = True"
| "has_type (T_varchar n) (V_text s) = (length s \<le> n)"
| "has_type T_text (V_text _) = True"
| "has_type T_boolean (V_bool _) = True"
| "has_type T_timestamptz (V_time _) = True"
| "has_type T_jsonb (V_event _) = True"
| "has_type T_jsonb (V_text s) = (s = ''{}'')"
| "has_type _ _ = False"

definition fills :: "column \<Rightarrow> db_row \<Rightarrow> bool" where
  "fills c r = (case r (cl_name c) of None \<Rightarrow> False | Some V_null \<Rightarrow> cl_nullable c | Some v \<Rightarrow> has_type (cl_type c) v)"

text \<open>What a row lacks is filled from the defaults of the columns.\<close>

definition completed :: "sql_env \<Rightarrow> db_table \<Rightarrow> db_row \<Rightarrow> db_row" where
  "completed Q t r =
     foldl (\<lambda>r c. if r (cl_name c) = None then r(cl_name c \<mapsto> default_value Q (cl_default c)) else r) r (tb_columns t)"

definition row_ok :: "db_table \<Rightarrow> db_row \<Rightarrow> bool" where
  "row_ok t r \<longleftrightarrow> list_all (\<lambda>c. fills c r) (tb_columns t) \<and> list_all (\<lambda>c. passes c r) (tb_checks t)"

definition keys_distinct :: "string list \<Rightarrow> db_row list \<Rightarrow> bool" where
  "keys_distinct cs rows = distinct (map (\<lambda>r. map r cs) rows)"

definition rows_ok :: "pg \<Rightarrow> db_table \<Rightarrow> db_row list \<Rightarrow> bool" where
  "rows_ok d t rows \<longleftrightarrow> list_all (row_ok t) rows \<and> keys_distinct (tb_primary_key t) rows \<and>
     list_all (\<lambda>i. ix_table i = tb_name t \<and> ix_unique i \<longrightarrow> keys_distinct (map fst (ix_columns i)) rows) (pg_indexes d)"

definition refuses :: "pg \<Rightarrow> string \<Rightarrow> string \<Rightarrow> bool" where
  "refuses d t event \<longleftrightarrow> list_ex (\<lambda>g. tg_table g = t \<and> event \<in> set (tg_events g) \<and>
     list_ex (\<lambda>f. fn_name f = tg_function g \<and> fn_body f = Refuse) (pg_functions d)) (pg_triggers d)"

definition provided :: "bool \<Rightarrow> 'a \<Rightarrow> 'a option" where
  "provided b x = (if b then Some x else None)"

text \<open>
  Dropping a column drops the checks and the indexes on it, and dropping a table its indexes and its
  triggers. A table another one references, and a function a trigger runs, cannot be dropped.
\<close>

fun exec :: "sql_env \<Rightarrow> statement \<Rightarrow> pg \<Rightarrow> pg option" where
  "exec Q (Create_Table t) d =
     provided (find_table (tb_name t) d = None \<and> list_all (\<lambda>f. find_table (fk_table f) d \<noteq> None) (tb_foreign_keys t))
       (set_rows (tb_name t) [] (d\<lparr>pg_tables := pg_tables d @ [t]\<rparr>))"
| "exec Q (Drop_Table t) d =
     provided (find_table t d \<noteq> None \<and>
         list_all (\<lambda>x. tb_name x = t \<or> list_all (\<lambda>f. fk_table f \<noteq> t) (tb_foreign_keys x)) (pg_tables d))
       (set_rows t [] (d\<lparr>pg_tables := filter (\<lambda>x. tb_name x \<noteq> t) (pg_tables d),
          pg_indexes := filter (\<lambda>i. ix_table i \<noteq> t) (pg_indexes d),
          pg_triggers := filter (\<lambda>g. tg_table g \<noteq> t) (pg_triggers d)\<rparr>))"
| "exec Q (Add_Column t c) d =
     (case find_table t d of
        None \<Rightarrow> None
      | Some x \<Rightarrow>
          let rows = map (\<lambda>r. r(cl_name c \<mapsto> default_value Q (cl_default c))) (pg_rows d t) in
          provided (\<not> has_column (cl_name c) x \<and> list_all (fills c) rows)
            (set_rows t rows (map_table t (\<lambda>x. x\<lparr>tb_columns := tb_columns x @ [c]\<rparr>) d)))"
| "exec Q (Drop_Column t c) d =
     (case find_table t d of
        None \<Rightarrow> None
      | Some x \<Rightarrow>
          provided (has_column c x)
            (set_rows t (map (\<lambda>r. r(c := None)) (pg_rows d t))
              (map_table t (\<lambda>x. x\<lparr>tb_columns := filter (\<lambda>y. cl_name y \<noteq> c) (tb_columns x),
                  tb_checks := filter (\<lambda>k. ck_column k \<noteq> c) (tb_checks x)\<rparr>)
                (d\<lparr>pg_indexes := filter (\<lambda>i. \<not> (ix_table i = t \<and> c \<in> set (map fst (ix_columns i)))) (pg_indexes d)\<rparr>))))"
| "exec Q (Alter_Default t c x) d =
     (case find_table t d of
        None \<Rightarrow> None
      | Some y \<Rightarrow>
          provided (has_column c y)
            (map_table t (\<lambda>y. y\<lparr>tb_columns := map (\<lambda>z. if cl_name z = c then z\<lparr>cl_default := x\<rparr> else z) (tb_columns y)\<rparr>) d))"
| "exec Q (Create_Check t k) d =
     (case find_table t d of
        None \<Rightarrow> None
      | Some x \<Rightarrow>
          provided (has_column (ck_column k) x \<and> ck_name k \<notin> set (map ck_name (tb_checks x)) \<and> list_all (passes k) (pg_rows d t))
            (map_table t (\<lambda>x. x\<lparr>tb_checks := tb_checks x @ [k]\<rparr>) d))"
| "exec Q (Drop_Check t k) d =
     (case find_table t d of
        None \<Rightarrow> None
      | Some x \<Rightarrow>
          provided (k \<in> set (map ck_name (tb_checks x)))
            (map_table t (\<lambda>x. x\<lparr>tb_checks := filter (\<lambda>y. ck_name y \<noteq> k) (tb_checks x)\<rparr>) d))"
| "exec Q (Create_Index i) d =
     (case find_table (ix_table i) d of
        None \<Rightarrow> None
      | Some x \<Rightarrow>
          provided (ix_name i \<notin> set (map ix_name (pg_indexes d)) \<and> list_all (\<lambda>c. has_column (fst c) x) (ix_columns i) \<and>
              (ix_unique i \<longrightarrow> keys_distinct (map fst (ix_columns i)) (pg_rows d (ix_table i))) \<and>
              (''gin_trgm_ops'' \<in> set (map snd (ix_columns i)) \<longrightarrow> ''pg_trgm'' \<in> set (pg_extensions d)))
            (d\<lparr>pg_indexes := pg_indexes d @ [i]\<rparr>))"
| "exec Q (Drop_Index i t) d =
     provided (list_ex (\<lambda>x. ix_name x = i \<and> ix_table x = t) (pg_indexes d))
       (d\<lparr>pg_indexes := filter (\<lambda>x. ix_name x \<noteq> i) (pg_indexes d)\<rparr>)"
| "exec Q (Create_Function f) d =
     provided (fn_name f \<notin> set (map fn_name (pg_functions d))) (d\<lparr>pg_functions := pg_functions d @ [f]\<rparr>)"
| "exec Q (Drop_Function f) d =
     provided (f \<in> set (map fn_name (pg_functions d)) \<and> f \<notin> set (map tg_function (pg_triggers d)))
       (d\<lparr>pg_functions := filter (\<lambda>x. fn_name x \<noteq> f) (pg_functions d)\<rparr>)"
| "exec Q (Create_Trigger g) d =
     provided (find_table (tg_table g) d \<noteq> None \<and> tg_function g \<in> set (map fn_name (pg_functions d)) \<and>
         \<not> list_ex (\<lambda>x. tg_name x = tg_name g \<and> tg_table x = tg_table g) (pg_triggers d))
       (d\<lparr>pg_triggers := pg_triggers d @ [g]\<rparr>)"
| "exec Q (Drop_Trigger g t) d =
     provided (list_ex (\<lambda>x. tg_name x = g \<and> tg_table x = t) (pg_triggers d))
       (d\<lparr>pg_triggers := filter (\<lambda>x. \<not> (tg_name x = g \<and> tg_table x = t)) (pg_triggers d)\<rparr>)"
| "exec Q (Create_Extension e) d = Some (d\<lparr>pg_extensions := List.insert e (pg_extensions d)\<rparr>)"
| "exec Q (Update t f) d =
     (case find_table t d of
        None \<Rightarrow> None
      | Some x \<Rightarrow>
          let rows = map f (pg_rows d t) in
          provided (\<not> refuses d t ''UPDATE'' \<and> rows_ok d x rows) (set_rows t rows d))"
| "exec Q (Insert t f) d =
     (case find_table t d of
        None \<Rightarrow> None
      | Some x \<Rightarrow>
          let rows = pg_rows d t @ map (completed Q x) (f Q d) in
          provided (rows_ok d x rows) (set_rows t rows d))"

text \<open>The statements of a migration run in one transaction.\<close>

fun run :: "sql_env \<Rightarrow> statement list \<Rightarrow> pg \<Rightarrow> pg option" where
  "run Q [] d = Some d"
| "run Q (s # ss) d = Option.bind (exec Q s d) (run Q ss)"

section \<open>The migrations\<close>

text \<open>\<open>sa.Column\<close> with its arguments: name, type, nullable, server default.\<close>

definition Column :: "string \<Rightarrow> col_type \<Rightarrow> bool \<Rightarrow> col_default option \<Rightarrow> column" where
  "Column n t nullable server_default = \<lparr> cl_name = n, cl_type = t, cl_nullable = nullable, cl_default = server_default \<rparr>"

definition to_users :: foreign_key where
  "to_users = \<lparr> fk_column = ''user_id'', fk_table = ''users'', fk_references = ''id'', fk_ondelete = ''CASCADE'' \<rparr>"

definition ROLE_CHECK :: check where
  "ROLE_CHECK = \<lparr> ck_name = ''ck_users_role'', ck_column = ''role'',
     ck_values = [''user'', ''moderator'', ''superadmin''] \<rparr>"

definition PROFILE_VISIBILITY_CHECK :: check where
  "PROFILE_VISIBILITY_CHECK = \<lparr> ck_name = ''ck_users_profile_visibility'', ck_column = ''profile_visibility'',
     ck_values = [''public'', ''protected''] \<rparr>"

definition FEED_LANGUAGE_CHECK :: check where
  "FEED_LANGUAGE_CHECK = \<lparr> ck_name = ''ck_users_feed_language'', ck_column = ''feed_language'',
     ck_values = [''es'', ''en'', ''all''] \<rparr>"

definition create_index :: "string \<Rightarrow> string \<Rightarrow> string list \<Rightarrow> bool \<Rightarrow> statement" where
  "create_index n t cs unique = Create_Index
     \<lparr> ix_name = n, ix_table = t, ix_columns = map (\<lambda>c. (c, [])) cs, ix_unique = unique, ix_using = ''btree'' \<rparr>"

definition users_0001 :: "db_table" where
  "users_0001 = \<lparr> tb_name = ''users'',
     tb_columns =
       [Column ''id'' T_uuid False None,
        Column ''email'' (T_varchar 320) False None,
        Column ''handle'' (T_varchar 16) False None,
        Column ''password_hash'' (T_varchar 255) False None,
        Column ''must_change_password'' T_boolean False None,
        Column ''temporary_password_expires_at'' T_timestamptz True None,
        Column ''role'' (T_varchar 16) False (Some (D_text ''user'')),
        Column ''is_email_verified'' T_boolean False None,
        Column ''is_suspended'' T_boolean False None,
        Column ''deleted_at'' T_timestamptz True None,
        Column ''terms_accepted'' T_boolean False None,
        Column ''terms_accepted_at'' T_timestamptz True None,
        Column ''display_name'' T_text True None,
        Column ''bio'' T_text True None,
        Column ''profile_visibility'' (T_varchar 16) False (Some (D_text ''public'')),
        Column ''feed_language'' (T_varchar 16) False (Some (D_text ''all'')),
        Column ''created_at'' T_timestamptz False (Some D_now)],
     tb_primary_key = [''id''], tb_foreign_keys = [],
     tb_checks = [ROLE_CHECK, PROFILE_VISIBILITY_CHECK, FEED_LANGUAGE_CHECK] \<rparr>"

definition emailed_tokens :: "string \<Rightarrow> db_table" where
  "emailed_tokens table_name = \<lparr> tb_name = table_name,
     tb_columns =
       [Column ''id'' T_uuid False None,
        Column ''user_id'' T_uuid False None,
        Column ''token_hash'' (T_varchar 64) False None,
        Column ''expires_at'' T_timestamptz False None,
        Column ''used_at'' T_timestamptz True None,
        Column ''created_at'' T_timestamptz False (Some D_now)],
     tb_primary_key = [''id''], tb_foreign_keys = [to_users], tb_checks = [] \<rparr>"

definition upgrade_0001 :: "statement list" where
  "upgrade_0001 =
     [Create_Table users_0001,
      create_index ''ix_users_email'' ''users'' [''email''] True,
      create_index ''ix_users_handle'' ''users'' [''handle''] True] @
     concat (map (\<lambda>table_name.
       [Create_Table (emailed_tokens table_name),
        create_index (''ix_'' @ table_name @ ''_token_hash'') table_name [''token_hash''] True,
        create_index (''ix_'' @ table_name @ ''_user_id'') table_name [''user_id''] False])
       [''email_verification_tokens'', ''password_reset_tokens''])"

definition downgrade_0001 :: "statement list" where
  "downgrade_0001 =
     concat (map (\<lambda>table_name.
       [Drop_Index (''ix_'' @ table_name @ ''_user_id'') table_name,
        Drop_Index (''ix_'' @ table_name @ ''_token_hash'') table_name,
        Drop_Table table_name])
       [''password_reset_tokens'', ''email_verification_tokens'']) @
     [Drop_Index ''ix_users_handle'' ''users'', Drop_Index ''ix_users_email'' ''users'', Drop_Table ''users'']"

definition STATUS_CHECK :: check where
  "STATUS_CHECK = \<lparr> ck_name = ''ck_users_status'', ck_column = ''status'',
     ck_values = [''active'', ''suspended'', ''under_review''] \<rparr>"

text \<open>\<open>UPDATE ... WHERE is_suspended\<close> takes the rows where the condition is true, not those where it is null.\<close>

definition upgrade_0002 :: "statement list" where
  "upgrade_0002 =
     [Add_Column ''users'' (Column ''status'' (T_varchar 16) False (Some (D_text ''active''))),
      Update ''users'' (\<lambda>r. if r ''is_suspended'' = Some (V_bool True) then r(''status'' \<mapsto> V_text ''suspended'') else r),
      Create_Check ''users'' STATUS_CHECK,
      Drop_Column ''users'' ''is_suspended'']"

definition downgrade_0002 :: "statement list" where
  "downgrade_0002 =
     [Add_Column ''users'' (Column ''is_suspended'' T_boolean False (Some D_false)),
      Update ''users'' (\<lambda>r. r(''is_suspended'' \<mapsto>
        (case r ''status'' of Some (V_text s) \<Rightarrow> V_bool (s \<noteq> ''active'') | _ \<Rightarrow> V_null))),
      Alter_Default ''users'' ''is_suspended'' None,
      Drop_Check ''users'' ''ck_users_status'',
      Drop_Column ''users'' ''status'']"

definition refresh_tokens_0003 :: "db_table" where
  "refresh_tokens_0003 = \<lparr> tb_name = ''refresh_tokens'',
     tb_columns =
       [Column ''id'' T_uuid False None,
        Column ''user_id'' T_uuid False None,
        Column ''family_id'' T_uuid False None,
        Column ''token_hash'' (T_varchar 64) False None,
        Column ''expires_at'' T_timestamptz False None,
        Column ''used_at'' T_timestamptz True None,
        Column ''revoked_at'' T_timestamptz True None,
        Column ''created_at'' T_timestamptz False (Some D_now)],
     tb_primary_key = [''id''], tb_foreign_keys = [to_users], tb_checks = [] \<rparr>"

definition upgrade_0003 :: "statement list" where
  "upgrade_0003 =
     [Create_Table refresh_tokens_0003,
      create_index ''ix_refresh_tokens_token_hash'' ''refresh_tokens'' [''token_hash''] True,
      create_index ''ix_refresh_tokens_user_id'' ''refresh_tokens'' [''user_id''] False,
      create_index ''ix_refresh_tokens_family_id'' ''refresh_tokens'' [''family_id''] False]"

definition downgrade_0003 :: "statement list" where
  "downgrade_0003 =
     [Drop_Index ''ix_refresh_tokens_family_id'' ''refresh_tokens'',
      Drop_Index ''ix_refresh_tokens_user_id'' ''refresh_tokens'',
      Drop_Index ''ix_refresh_tokens_token_hash'' ''refresh_tokens'',
      Drop_Table ''refresh_tokens'']"

definition outbox_0004 :: "db_table" where
  "outbox_0004 = \<lparr> tb_name = ''outbox'',
     tb_columns =
       [Column ''id'' T_uuid False None,
        Column ''type'' T_text False None,
        Column ''payload'' T_jsonb False None,
        Column ''created_at'' T_timestamptz False (Some D_now)],
     tb_primary_key = [''id''], tb_foreign_keys = [], tb_checks = [] \<rparr>"

definition upgrade_0004 :: "statement list" where
  "upgrade_0004 =
     [Create_Table outbox_0004,
      create_index ''ix_outbox_created_at'' ''outbox'' [''created_at''] False,
      Create_Function \<lparr> fn_name = ''outbox_notify'', fn_body = Notify ''outbox'' \<rparr>,
      Create_Trigger \<lparr> tg_name = ''outbox_notify_after_insert'', tg_table = ''outbox'',
        tg_events = [''INSERT''], tg_function = ''outbox_notify'' \<rparr>]"

definition downgrade_0004 :: "statement list" where
  "downgrade_0004 =
     [Drop_Trigger ''outbox_notify_after_insert'' ''outbox'',
      Drop_Function ''outbox_notify'',
      Drop_Index ''ix_outbox_created_at'' ''outbox'',
      Drop_Table ''outbox'']"

definition upgrade_0005 :: "statement list" where
  "upgrade_0005 =
     [Add_Column ''users'' (Column ''status_reason'' T_text True None),
      Add_Column ''users'' (Column ''status_changed_at'' T_timestamptz True None)]"

definition downgrade_0005 :: "statement list" where
  "downgrade_0005 = [Drop_Column ''users'' ''status_changed_at'', Drop_Column ''users'' ''status_reason'']"

definition AUDIT_ACTION_CHECK :: check where
  "AUDIT_ACTION_CHECK = \<lparr> ck_name = ''ck_admin_audit_action'', ck_column = ''action'',
     ck_values = [''admin.created'', ''admin.temporary_password_reset'', ''user.blocked'',
       ''report.dismissed'', ''report.resolved''] \<rparr>"

definition admin_audit_log_0006 :: "db_table" where
  "admin_audit_log_0006 = \<lparr> tb_name = ''admin_audit_log'',
     tb_columns =
       [Column ''id'' T_uuid False None,
        Column ''occurred_at'' T_timestamptz False None,
        Column ''actor_id'' T_uuid False None,
        Column ''actor_email'' T_text False None,
        Column ''action'' T_text False None,
        Column ''target_type'' T_text False None,
        Column ''target_id'' T_uuid False None,
        Column ''details'' T_jsonb False (Some (D_text ''{}''))],
     tb_primary_key = [''id''], tb_foreign_keys = [], tb_checks = [AUDIT_ACTION_CHECK] \<rparr>"

definition upgrade_0006 :: "statement list" where
  "upgrade_0006 =
     [Create_Table admin_audit_log_0006,
      Create_Index \<lparr> ix_name = ''ix_admin_audit_order'', ix_table = ''admin_audit_log'',
        ix_columns = [(''occurred_at'', ''DESC''), (''id'', ''DESC'')], ix_unique = False, ix_using = ''btree'' \<rparr>,
      Create_Function \<lparr> fn_name = ''refuse_admin_audit_changes'', fn_body = Refuse \<rparr>,
      Create_Trigger \<lparr> tg_name = ''admin_audit_immutable'', tg_table = ''admin_audit_log'',
        tg_events = [''UPDATE'', ''DELETE'', ''TRUNCATE''], tg_function = ''refuse_admin_audit_changes'' \<rparr>]"

definition downgrade_0006 :: "statement list" where
  "downgrade_0006 = [Drop_Table ''admin_audit_log'', Drop_Function ''refuse_admin_audit_changes'']"

definition trigram_index :: "string \<Rightarrow> db_index" where
  "trigram_index column = \<lparr> ix_name = ''ix_users_'' @ column @ ''_trgm'', ix_table = ''users'',
     ix_columns = [(column, ''gin_trgm_ops'')], ix_unique = False, ix_using = ''gin'' \<rparr>"

definition upgrade_trigrams :: "statement list" where
  "upgrade_trigrams = Create_Extension ''pg_trgm'' #
     map (\<lambda>column. Create_Index (trigram_index column)) [''handle'', ''display_name'']"

definition downgrade_trigrams :: "statement list" where
  "downgrade_trigrams = map (\<lambda>column. Drop_Index (''ix_users_'' @ column @ ''_trgm'') ''users'') [''handle'', ''display_name'']"

text \<open>The rows \<open>INSERT ... SELECT\<close> of 0007 makes, one for each account of the subquery.\<close>

definition chosen :: "db_row \<Rightarrow> bool" where
  "chosen r \<longleftrightarrow> (case r ''feed_language'' of Some (V_text l) \<Rightarrow> l \<noteq> ''all'' | _ \<Rightarrow> False) \<and> r ''deleted_at'' = Some V_null"

definition language_event :: "sql_env \<Rightarrow> uuid \<Rightarrow> db_row \<Rightarrow> event" where
  "language_event Q i r =
     \<lparr> ev_specversion = ''1.0'', ev_id = uuid_str i, ev_source = ''users-api'', ev_type = ''preferences.changed.v1'',
       ev_time = sq_now Q div 1000,
       ev_data = [(''user_id'', case r ''id'' of Some (V_uuid u) \<Rightarrow> uuid_str u | _ \<Rightarrow> []),
         (''feed_language'', case r ''feed_language'' of Some (V_text l) \<Rightarrow> l | _ \<Rightarrow> [])] \<rparr>"

definition queued_row :: "sql_env \<Rightarrow> uuid \<Rightarrow> db_row \<Rightarrow> db_row" where
  "queued_row Q i r =
     [''id'' \<mapsto> V_uuid i, ''type'' \<mapsto> V_text ''preferences.changed.v1'', ''payload'' \<mapsto> V_event (language_event Q i r)]"

definition QUEUE_CHOSEN_LANGUAGES :: statement where
  "QUEUE_CHOSEN_LANGUAGES = Insert ''outbox'' (\<lambda>Q d.
     let rows = filter chosen (pg_rows d ''users'') in
     map (\<lambda>(n, r). queued_row Q (sq_uuid Q n) r) (List.enumerate 0 rows))"

definition upgrade_0007 :: "statement list" where
  "upgrade_0007 = [QUEUE_CHOSEN_LANGUAGES]"

definition downgrade_0007 :: "statement list" where
  "downgrade_0007 = []"

definition feedback_0008 :: "db_table" where
  "feedback_0008 = \<lparr> tb_name = ''feedback'',
     tb_columns =
       [Column ''id'' T_uuid False None,
        Column ''user_id'' T_uuid False None,
        Column ''handle'' T_text False None,
        Column ''message'' T_text False None,
        Column ''device_os'' T_text False None,
        Column ''app_version'' T_text False None,
        Column ''created_at'' T_timestamptz False None],
     tb_primary_key = [''id''], tb_foreign_keys = [], tb_checks = [] \<rparr>"

definition upgrade_0008 :: "statement list" where
  "upgrade_0008 =
     [Create_Table feedback_0008]"

definition downgrade_0008 :: "statement list" where
  "downgrade_0008 = [Drop_Table ''feedback'']"

section \<open>The chain\<close>

record revision =
  rv_id :: string
  rv_down :: "string option"
  rv_upgrade :: "statement list"
  rv_downgrade :: "statement list"

definition revision_0001 :: revision where
  "revision_0001 = \<lparr> rv_id = ''afd5e72dc2ed'', rv_down = None, rv_upgrade = upgrade_0001, rv_downgrade = downgrade_0001 \<rparr>"

definition revision_0002 :: revision where
  "revision_0002 = \<lparr> rv_id = ''5c2f8a91d3e4'', rv_down = Some ''afd5e72dc2ed'', rv_upgrade = upgrade_0002,
     rv_downgrade = downgrade_0002 \<rparr>"

definition revision_0003 :: revision where
  "revision_0003 = \<lparr> rv_id = ''9e41b7c2a6d0'', rv_down = Some ''5c2f8a91d3e4'', rv_upgrade = upgrade_0003,
     rv_downgrade = downgrade_0003 \<rparr>"

definition revision_0004 :: revision where
  "revision_0004 = \<lparr> rv_id = ''c7a3e91f5b28'', rv_down = Some ''9e41b7c2a6d0'', rv_upgrade = upgrade_0004,
     rv_downgrade = downgrade_0004 \<rparr>"

definition revision_0005 :: revision where
  "revision_0005 = \<lparr> rv_id = ''4edf59f3f5df'', rv_down = Some ''c7a3e91f5b28'', rv_upgrade = upgrade_0005,
     rv_downgrade = downgrade_0005 \<rparr>"

definition revision_0006 :: revision where
  "revision_0006 = \<lparr> rv_id = ''a61d24b07f32'', rv_down = Some ''4edf59f3f5df'', rv_upgrade = upgrade_0006,
     rv_downgrade = downgrade_0006 \<rparr>"

definition revision_trigrams :: revision where
  "revision_trigrams = \<lparr> rv_id = ''search_account_trigrams'', rv_down = Some ''a61d24b07f32'',
     rv_upgrade = upgrade_trigrams, rv_downgrade = downgrade_trigrams \<rparr>"

definition revision_0007 :: revision where
  "revision_0007 = \<lparr> rv_id = ''d14a6e2f9c07'', rv_down = Some ''search_account_trigrams'',
     rv_upgrade = upgrade_0007, rv_downgrade = downgrade_0007 \<rparr>"

definition revision_0008 :: revision where
  "revision_0008 = \<lparr> rv_id = ''b83f0c1d7e52'', rv_down = Some ''d14a6e2f9c07'', rv_upgrade = upgrade_0008,
     rv_downgrade = downgrade_0008 \<rparr>"

text \<open>The files of the directory, by name.\<close>

definition versions :: "revision list" where
  "versions = [revision_0001, revision_0002, revision_0003, revision_0004, revision_0005, revision_0006,
     revision_0007, revision_0008, revision_trigrams]"

text \<open>
  Alembic goes from a revision to the one whose \<open>down_revision\<close> it is. Two candidates are two heads,
  which it refuses. The first argument bounds the length of the path.
\<close>

fun path_from :: "nat \<Rightarrow> revision list \<Rightarrow> string option \<Rightarrow> revision list option" where
  "path_from 0 files current = None"
| "path_from (Suc n) files current =
     (case filter (\<lambda>m. rv_down m = current) files of
        [] \<Rightarrow> Some []
      | [m] \<Rightarrow> map_option ((#) m) (path_from n files (Some (rv_id m)))
      | _ \<Rightarrow> None)"

definition upgrade_path :: "revision list" where
  "upgrade_path = (case path_from (Suc (length versions)) versions None of None \<Rightarrow> [] | Some ms \<Rightarrow> ms)"

text \<open>\<open>alembic upgrade head\<close>, one transaction per call as \<open>env.py\<close> configures it, and the way back.\<close>

definition upgrade_head :: "sql_env \<Rightarrow> revision list \<Rightarrow> pg \<Rightarrow> pg option" where
  "upgrade_head Q ms d = run Q (concat (map rv_upgrade ms)) d"

definition downgrade_base :: "sql_env \<Rightarrow> revision list \<Rightarrow> pg \<Rightarrow> pg option" where
  "downgrade_base Q ms d = run Q (concat (map rv_downgrade (rev ms))) d"

lemma upgrade_path_files:
  "upgrade_path = [revision_0001, revision_0002, revision_0003, revision_0004, revision_0005, revision_0006,
     revision_trigrams, revision_0007, revision_0008]"
  by (simp add: upgrade_path_def versions_def numeral_eq_Suc revision_0001_def revision_0002_def revision_0003_def
      revision_0004_def revision_0005_def revision_0006_def revision_0007_def revision_0008_def revision_trigrams_def)

end
