(* ===== verification/Declared_Schema.thy ===== *)
theory Declared_Schema
  imports Migrations
begin

text \<open>
  The catalogue the models of \<open>infrastructure/database/models.py\<close> declare, which is what Alembic compares
  a database with. \<open>index=True\<close> names the index after the table and the column, and with \<open>unique=True\<close> it is
  the index that is unique. The defaults of Python are no part of it.
\<close>

record mapped =
  mp_column :: column
  mp_index :: bool
  mp_unique :: bool

definition mapped_column :: "string \<Rightarrow> col_type \<Rightarrow> bool \<Rightarrow> col_default option \<Rightarrow> mapped" where
  "mapped_column n t nullable server_default =
     \<lparr> mp_column = Column n t nullable server_default, mp_index = False, mp_unique = False \<rparr>"

abbreviation indexed :: "mapped \<Rightarrow> mapped" where
  "indexed m \<equiv> m\<lparr>mp_index := True\<rparr>"

abbreviation unique_indexed :: "mapped \<Rightarrow> mapped" where
  "unique_indexed m \<equiv> m\<lparr>mp_index := True, mp_unique := True\<rparr>"

record model =
  md_tablename :: string
  md_mapped :: "mapped list"
  md_foreign_keys :: "foreign_key list"
  md_checks :: "check list"
  md_indexes :: "db_index list"

definition model_table :: "model \<Rightarrow> db_table" where
  "model_table m = \<lparr> tb_name = md_tablename m, tb_columns = map mp_column (md_mapped m), tb_primary_key = [''id''],
     tb_foreign_keys = md_foreign_keys m, tb_checks = md_checks m \<rparr>"

definition model_indexes :: "model \<Rightarrow> db_index list" where
  "model_indexes m = md_indexes m @
     map (\<lambda>x. \<lparr> ix_name = ''ix_'' @ md_tablename m @ ''_'' @ cl_name (mp_column x), ix_table = md_tablename m,
         ix_columns = [(cl_name (mp_column x), [])], ix_unique = mp_unique x, ix_using = ''btree'' \<rparr>)
       (filter mp_index (md_mapped m))"

definition users_declared :: model where
  "users_declared =
     \<lparr> md_tablename = ''users'',
       md_mapped =
         [mapped_column ''id'' T_uuid False None,
          unique_indexed (mapped_column ''email'' (T_varchar 320) False None),
          unique_indexed (mapped_column ''handle'' (T_varchar 16) False None),
          mapped_column ''password_hash'' (T_varchar 255) False None,
          mapped_column ''must_change_password'' T_boolean False None,
          mapped_column ''temporary_password_expires_at'' T_timestamptz True None,
          mapped_column ''role'' (T_varchar 16) False (Some (D_text ''user'')),
          mapped_column ''is_email_verified'' T_boolean False None,
          mapped_column ''status'' (T_varchar 16) False (Some (D_text ''active'')),
          mapped_column ''status_reason'' T_text True None,
          mapped_column ''status_changed_at'' T_timestamptz True None,
          mapped_column ''deleted_at'' T_timestamptz True None,
          mapped_column ''terms_accepted'' T_boolean False None,
          mapped_column ''terms_accepted_at'' T_timestamptz True None,
          mapped_column ''display_name'' T_text True None,
          mapped_column ''bio'' T_text True None,
          mapped_column ''profile_visibility'' (T_varchar 16) False (Some (D_text ''public'')),
          mapped_column ''feed_language'' (T_varchar 16) False (Some (D_text ''all'')),
          mapped_column ''created_at'' T_timestamptz False (Some D_now)],
       md_foreign_keys = [],
       md_checks =
         [\<lparr> ck_name = ''ck_users_role'', ck_column = ''role'', ck_values = [''user'', ''moderator'', ''superadmin''] \<rparr>,
          \<lparr> ck_name = ''ck_users_profile_visibility'', ck_column = ''profile_visibility'',
            ck_values = [''public'', ''protected''] \<rparr>,
          \<lparr> ck_name = ''ck_users_feed_language'', ck_column = ''feed_language'', ck_values = [''es'', ''en'', ''all''] \<rparr>,
          \<lparr> ck_name = ''ck_users_status'', ck_column = ''status'',
            ck_values = [''active'', ''suspended'', ''under_review''] \<rparr>],
       md_indexes =
         [\<lparr> ix_name = ''ix_users_handle_trgm'', ix_table = ''users'', ix_columns = [(''handle'', ''gin_trgm_ops'')],
            ix_unique = False, ix_using = ''gin'' \<rparr>,
          \<lparr> ix_name = ''ix_users_display_name_trgm'', ix_table = ''users'',
            ix_columns = [(''display_name'', ''gin_trgm_ops'')], ix_unique = False, ix_using = ''gin'' \<rparr>] \<rparr>"

text \<open>\<open>EmailVerificationTokenModel\<close> and \<open>PasswordResetTokenModel\<close>, which have the same columns.\<close>

definition emailed_token_declared :: "string \<Rightarrow> model" where
  "emailed_token_declared tablename =
     \<lparr> md_tablename = tablename,
       md_mapped =
         [mapped_column ''id'' T_uuid False None,
          indexed (mapped_column ''user_id'' T_uuid False None),
          unique_indexed (mapped_column ''token_hash'' (T_varchar 64) False None),
          mapped_column ''expires_at'' T_timestamptz False None,
          mapped_column ''used_at'' T_timestamptz True None,
          mapped_column ''created_at'' T_timestamptz False (Some D_now)],
       md_foreign_keys = [to_users], md_checks = [], md_indexes = [] \<rparr>"

definition refresh_tokens_declared :: model where
  "refresh_tokens_declared =
     \<lparr> md_tablename = ''refresh_tokens'',
       md_mapped =
         [mapped_column ''id'' T_uuid False None,
          indexed (mapped_column ''user_id'' T_uuid False None),
          indexed (mapped_column ''family_id'' T_uuid False None),
          unique_indexed (mapped_column ''token_hash'' (T_varchar 64) False None),
          mapped_column ''expires_at'' T_timestamptz False None,
          mapped_column ''used_at'' T_timestamptz True None,
          mapped_column ''revoked_at'' T_timestamptz True None,
          mapped_column ''created_at'' T_timestamptz False (Some D_now)],
       md_foreign_keys = [to_users], md_checks = [], md_indexes = [] \<rparr>"

definition outbox_declared :: model where
  "outbox_declared =
     \<lparr> md_tablename = ''outbox'',
       md_mapped =
         [mapped_column ''id'' T_uuid False None,
          mapped_column ''type'' T_text False None,
          mapped_column ''payload'' T_jsonb False None,
          indexed (mapped_column ''created_at'' T_timestamptz False (Some D_now))],
       md_foreign_keys = [], md_checks = [], md_indexes = [] \<rparr>"

definition feedback_declared :: model where
  "feedback_declared =
     \<lparr> md_tablename = ''feedback'',
       md_mapped =
         [mapped_column ''id'' T_uuid False None,
          mapped_column ''user_id'' T_uuid False None,
          mapped_column ''handle'' T_text False None,
          mapped_column ''message'' T_text False None,
          mapped_column ''device_os'' T_text False None,
          mapped_column ''app_version'' T_text False None,
          mapped_column ''created_at'' T_timestamptz False None],
       md_foreign_keys = [], md_checks = [], md_indexes = [] \<rparr>"

definition audit_log_declared :: model where
  "audit_log_declared =
     \<lparr> md_tablename = ''admin_audit_log'',
       md_mapped =
         [mapped_column ''id'' T_uuid False None,
          mapped_column ''occurred_at'' T_timestamptz False None,
          mapped_column ''actor_id'' T_uuid False None,
          mapped_column ''actor_email'' T_text False None,
          mapped_column ''action'' T_text False None,
          mapped_column ''target_type'' T_text False None,
          mapped_column ''target_id'' T_uuid False None,
          mapped_column ''details'' T_jsonb False (Some (D_text ''{}''))],
       md_foreign_keys = [],
       md_checks =
         [\<lparr> ck_name = ''ck_admin_audit_action'', ck_column = ''action'',
            ck_values = [''admin.created'', ''admin.temporary_password_reset'', ''user.blocked'',
              ''report.dismissed'', ''report.resolved''] \<rparr>],
       md_indexes =
         [\<lparr> ix_name = ''ix_admin_audit_order'', ix_table = ''admin_audit_log'',
            ix_columns = [(''occurred_at'', ''DESC''), (''id'', ''DESC'')], ix_unique = False, ix_using = ''btree'' \<rparr>] \<rparr>"

definition metadata :: "model list" where
  "metadata = [users_declared, emailed_token_declared ''email_verification_tokens'',
     emailed_token_declared ''password_reset_tokens'', refresh_tokens_declared, outbox_declared, feedback_declared,
     audit_log_declared]"

text \<open>
  A database has the declared tables and indexes, and no others; the order of the columns is no
  difference.
\<close>

definition same_table :: "db_table \<Rightarrow> db_table \<Rightarrow> bool" where
  "same_table s t \<longleftrightarrow> tb_name s = tb_name t \<and> set (tb_columns s) = set (tb_columns t) \<and>
     tb_primary_key s = tb_primary_key t \<and> set (tb_foreign_keys s) = set (tb_foreign_keys t) \<and>
     set (tb_checks s) = set (tb_checks t)"

definition declared_by :: "model list \<Rightarrow> pg \<Rightarrow> bool" where
  "declared_by ms d \<longleftrightarrow>
     list_all (\<lambda>m. list_ex (same_table (model_table m)) (pg_tables d)) ms \<and>
     list_all (\<lambda>t. list_ex (\<lambda>m. same_table (model_table m) t) ms) (pg_tables d) \<and>
     set (concat (map model_indexes ms)) = set (pg_indexes d)"

end
