(* ===== verification/Migration_Effects.thy ===== *)
theory Migration_Effects
  imports Declared_Schema
begin

text \<open>What the migrations do to the rows of a database, and the catalogues they go through.\<close>

section \<open>Rows under statements\<close>

lemmas revision_defs = revision_0001_def revision_0002_def revision_0003_def revision_0004_def revision_0005_def
  revision_0006_def revision_trigrams_def revision_0007_def revision_0008_def

lemmas migration_defs = upgrade_0001_def upgrade_0002_def upgrade_0003_def upgrade_0004_def upgrade_0005_def
  upgrade_0006_def upgrade_trigrams_def upgrade_0007_def upgrade_0008_def downgrade_0001_def downgrade_0002_def
  downgrade_0003_def downgrade_0004_def downgrade_0005_def downgrade_0006_def downgrade_trigrams_def
  downgrade_0007_def downgrade_0008_def QUEUE_CHOSEN_LANGUAGES_def

lemmas statement_defs = find_table_def map_table_def set_rows_def provided_def rows_ok_def refuses_def Let_def
  create_index_def trigram_index_def

lemmas table_defs = users_0001_def emailed_tokens_def refresh_tokens_0003_def outbox_0004_def admin_audit_log_0006_def
  feedback_0008_def Column_def to_users_def ROLE_CHECK_def PROFILE_VISIBILITY_CHECK_def FEED_LANGUAGE_CHECK_def
  STATUS_CHECK_def AUDIT_ACTION_CHECK_def

lemma table_names [simp]:
  "tb_name users_0001 = ''users''" "tb_name (emailed_tokens t) = t" "tb_name refresh_tokens_0003 = ''refresh_tokens''"
  "tb_name outbox_0004 = ''outbox''" "tb_name admin_audit_log_0006 = ''admin_audit_log''" "tb_name feedback_0008 = ''feedback''"
  by (simp_all add: table_defs)

lemma table_references [simp]:
  "tb_foreign_keys users_0001 = []" "tb_foreign_keys (emailed_tokens t) = [to_users]"
  "tb_foreign_keys refresh_tokens_0003 = [to_users]" "tb_foreign_keys outbox_0004 = []"
  "tb_foreign_keys admin_audit_log_0006 = []" "tb_foreign_keys feedback_0008 = []" "fk_table to_users = ''users''"
  by (simp_all add: table_defs)

lemma table_keys [simp]:
  "tb_primary_key users_0001 = [''id'']" "tb_primary_key outbox_0004 = [''id'']"
  by (simp_all add: table_defs)

lemma column_fields [simp]:
  "cl_name (Column n t b x) = n" "cl_default (Column n t b x) = x"
  by (simp_all add: Column_def)

lemma nothing_updated [simp]: "(\<lambda>_. c)(x := c) = (\<lambda>_. c)"
  by (simp add: fun_eq_iff)

lemma keys_distinct_Nil [simp]: "keys_distinct cs []"
  by (simp add: keys_distinct_def)

lemma keys_distinct_map:
  "(\<And>r c. c \<in> set cs \<Longrightarrow> f r c = r c) \<Longrightarrow> keys_distinct cs (map f rows) = keys_distinct cs rows"
  by (simp add: keys_distinct_def o_def cong: map_cong)

lemma keys_written [simp]:
  "n \<notin> set cs \<Longrightarrow> keys_distinct cs (map (\<lambda>r. r(n := f r)) rows) = keys_distinct cs rows"
  by (rule keys_distinct_map) auto

lemma has_column_more [simp]:
  "has_column c (t\<lparr>tb_columns := tb_columns t @ xs\<rparr>) \<longleftrightarrow> has_column c t \<or> c \<in> cl_name ` set xs"
  "has_column c (t\<lparr>tb_checks := ks\<rparr>) = has_column c t"
  by (auto simp: has_column_def)

lemma fills_other: "cl_name c \<noteq> n \<Longrightarrow> fills c (r(n := v)) = fills c r"
  by (simp add: fills_def)

lemma passes_other: "ck_column k \<noteq> n \<Longrightarrow> passes k (r(n := v)) = passes k r"
  by (simp add: passes_def)

text \<open>A row stays right when a column outside the table is written.\<close>

lemma columns_other:
  "n \<notin> set (map cl_name cs) \<Longrightarrow> list_all (\<lambda>c. fills c (r(n := v))) cs = list_all (\<lambda>c. fills c r) cs"
  by (induction cs) (auto simp: fills_other)

lemma checks_other:
  "n \<notin> set (map ck_column ks) \<Longrightarrow> list_all (\<lambda>k. passes k (r(n := v))) ks = list_all (\<lambda>k. passes k r) ks"
  by (induction ks) (auto simp: passes_other)

section \<open>The catalogues\<close>

definition schema_0001 :: "(string \<Rightarrow> db_row list) \<Rightarrow> pg" where
  "schema_0001 R =
     \<lparr> pg_tables = [users_0001, emailed_tokens ''email_verification_tokens'', emailed_tokens ''password_reset_tokens''],
       pg_indexes =
         map (\<lambda>(n, t, c, u). \<lparr> ix_name = n, ix_table = t, ix_columns = [(c, [])], ix_unique = u, ix_using = ''btree'' \<rparr>)
           [(''ix_users_email'', ''users'', ''email'', True), (''ix_users_handle'', ''users'', ''handle'', True),
            (''ix_email_verification_tokens_token_hash'', ''email_verification_tokens'', ''token_hash'', True),
            (''ix_email_verification_tokens_user_id'', ''email_verification_tokens'', ''user_id'', False),
            (''ix_password_reset_tokens_token_hash'', ''password_reset_tokens'', ''token_hash'', True),
            (''ix_password_reset_tokens_user_id'', ''password_reset_tokens'', ''user_id'', False)],
       pg_functions = [], pg_triggers = [], pg_extensions = [], pg_rows = R \<rparr>"

lemma run_0001: "run Q upgrade_0001 empty_pg = Some (schema_0001 (\<lambda>_. []))"
  by (simp add: upgrade_0001_def schema_0001_def empty_pg_def statement_defs)
     (simp add: has_column_def table_defs)

text \<open>A database that PostgreSQL may hold: every row fits its table and no key is there twice.\<close>

definition valid_pg :: "pg \<Rightarrow> bool" where
  "valid_pg d = list_all (\<lambda>t. rows_ok d t (pg_rows d (tb_name t))) (pg_tables d)"

definition with_status :: "db_row \<Rightarrow> db_row" where
  "with_status r = (r(''status'' \<mapsto> V_text (if r ''is_suspended'' = Some (V_bool True) then ''suspended'' else ''active'')))
     (''is_suspended'' := None)"

definition users_0002 :: db_table where
  "users_0002 = users_0001\<lparr>
     tb_columns := filter (\<lambda>c. cl_name c \<noteq> ''is_suspended'') (tb_columns users_0001) @
       [Column ''status'' (T_varchar 16) False (Some (D_text ''active''))],
     tb_checks := tb_checks users_0001 @ [STATUS_CHECK]\<rparr>"

lemma users_0001_columns [simp]:
  "\<not> has_column ''status'' users_0001" "has_column ''is_suspended'' users_0001"
  "''status'' \<notin> cl_name ` set (tb_columns users_0001)" "''status'' \<notin> ck_column ` set (tb_checks users_0001)"
  "''is_suspended'' \<notin> ck_column ` set (tb_checks users_0001)" "''ck_users_status'' \<notin> ck_name ` set (tb_checks users_0001)"
  "filter (\<lambda>k. ck_column k \<noteq> ''is_suspended'') (tb_checks users_0001) = tb_checks users_0001"
  "ck_column STATUS_CHECK = ''status''" "ck_name STATUS_CHECK = ''ck_users_status''"
  by (simp_all add: has_column_def table_defs)

lemma rows_0001:
  "valid_pg (schema_0001 R) \<Longrightarrow> list_all (row_ok users_0001) (R ''users'') \<and> keys_distinct [''id''] (R ''users'') \<and>
     keys_distinct [''email''] (R ''users'') \<and> keys_distinct [''handle''] (R ''users'')"
  by (simp add: valid_pg_def schema_0001_def rows_ok_def)

lemma run_0002:
  assumes "valid_pg (schema_0001 R)"
  shows "run Q upgrade_0002 (schema_0001 R) = Some ((schema_0001 (R(''users'' := map with_status (R ''users''))))
    \<lparr>pg_tables := [users_0002, emailed_tokens ''email_verification_tokens'', emailed_tokens ''password_reset_tokens'']\<rparr>)"
proof -
  let ?r1 = "\<lambda>r. r(''status'' \<mapsto> V_text ''active'')"
    and ?r2 = "\<lambda>r. r(''status'' \<mapsto> V_text (if r ''is_suspended'' = Some (V_bool True) then ''suspended'' else ''active''))"
  have added: "list_all (fills (Column ''status'' (T_varchar 16) False (Some (D_text ''active'')))) (map ?r1 rows)" for rows
    by (simp add: list_all_iff fills_def Column_def)
  have updated: "(\<lambda>r. if r ''is_suspended'' = Some (V_bool True) then r(''status'' \<mapsto> V_text ''suspended'') else r) \<circ> ?r1 = ?r2"
    by (simp add: fun_eq_iff)
  have right: "list_all (row_ok (users_0001\<lparr>tb_columns := tb_columns users_0001 @
      [Column ''status'' (T_varchar 16) False (Some (D_text ''active''))]\<rparr>)) (map ?r2 (R ''users''))" (is "list_all ?ok _")
    unfolding list.pred_map
  proof (rule list.pred_mono_strong [OF rows_0001 [OF assms, THEN conjunct1]])
    fix r assume "row_ok users_0001 r"
    moreover have "fills (Column ''status'' (T_varchar 16) False (Some (D_text ''active''))) (?r2 r)"
      by (simp add: fills_def Column_def)
    ultimately show "(?ok \<circ> ?r2) r"
      by (simp add: row_ok_def columns_other checks_other)
  qed
  have checked: "list_all (passes STATUS_CHECK) (map ?r2 (R ''users''))"
    by (simp add: list_all_iff passes_def STATUS_CHECK_def)
  have dropped: "(\<lambda>r. r(''is_suspended'' := None)) \<circ> ?r2 = with_status"
    by (simp add: fun_eq_iff with_status_def)
  show ?thesis
    using rows_0001 [OF assms] added right checked
    by (simp add: upgrade_0002_def schema_0001_def statement_defs default_value_def updated users_0002_def
        dropped del: list.pred_map)
qed

section \<open>The rest of the way\<close>

lemma run_append: "run Q (xs @ ys) d = Option.bind (run Q xs d) (run Q ys)"
  by (induction xs arbitrary: d) (auto simp: bind_eq_Some_conv split: option.splits Option.bind_splits)

lemma users_0002_facts [simp]:
  "tb_name users_0002 = ''users''" "tb_foreign_keys users_0002 = []" "has_column ''handle'' users_0002"
  "has_column ''display_name'' users_0002" "\<not> has_column ''status_reason'' users_0002"
  "\<not> has_column ''status_changed_at'' users_0002"
  by (simp_all add: users_0002_def has_column_def table_defs)

lemma created_columns [simp]:
  "has_column ''token_hash'' refresh_tokens_0003" "has_column ''user_id'' refresh_tokens_0003"
  "has_column ''family_id'' refresh_tokens_0003" "has_column ''created_at'' outbox_0004"
  "has_column ''occurred_at'' admin_audit_log_0006" "has_column ''id'' admin_audit_log_0006"
  by (simp_all add: has_column_def table_defs)

lemma fills_null: "fills (Column n t True x) (r(n \<mapsto> V_null))"
  by (simp add: fills_def Column_def)

definition with_reason :: "db_row \<Rightarrow> db_row" where
  "with_reason r = r(''status_reason'' \<mapsto> V_null, ''status_changed_at'' \<mapsto> V_null)"

lemma run_middle:
  "\<exists>d. run Q (upgrade_0003 @ upgrade_0004 @ upgrade_0005 @ upgrade_0006 @ upgrade_trigrams)
       ((schema_0001 R)\<lparr>pg_tables := [users_0002, emailed_tokens ''email_verification_tokens'',
         emailed_tokens ''password_reset_tokens'']\<rparr>) = Some d \<and>
     pg_rows d = R(''users'' := map with_reason (R ''users''), ''refresh_tokens'' := [], ''outbox'' := [],
       ''admin_audit_log'' := []) \<and>
     find_table ''outbox'' d = Some outbox_0004 \<and> find_table ''feedback'' d = None \<and>
     list_all (\<lambda>i. ix_table i = ''outbox'' \<longrightarrow> \<not> ix_unique i) (pg_indexes d)"
proof -
  have reasons: "(\<lambda>r. r(''status_changed_at'' \<mapsto> V_null)) \<circ> (\<lambda>r. r(''status_reason'' \<mapsto> V_null)) = with_reason"
    by (simp add: fun_eq_iff with_reason_def)
  have "fills (Column ''status_changed_at'' T_timestamptz True None) (with_reason r)" for r
    unfolding with_reason_def by (rule fills_null)
  then show ?thesis
    by (simp add: upgrade_0003_def upgrade_0004_def upgrade_0005_def upgrade_0006_def upgrade_trigrams_def
        schema_0001_def statement_defs default_value_def list_all_iff fills_null reasons fun_upd_twist)
qed

text \<open>The events 0007 queues.\<close>

definition queued :: "sql_env \<Rightarrow> db_row list \<Rightarrow> db_row list" where
  "queued Q rows = map (\<lambda>(n, r). (queued_row Q (sq_uuid Q n) r)(''created_at'' \<mapsto> V_time (sq_now Q)))
     (List.enumerate 0 (filter chosen rows))"

lemma completed_outbox: "completed Q outbox_0004 (queued_row Q i r) = (queued_row Q i r)(''created_at'' \<mapsto> V_time (sq_now Q))"
  by (simp add: completed_def table_defs queued_row_def default_value_def fun_eq_iff)

lemma outbox_row_ok: "row_ok outbox_0004 ((queued_row Q i r)(''created_at'' \<mapsto> V_time t))"
  by (simp add: row_ok_def table_defs fills_def queued_row_def)

lemma queued_keys:
  assumes "inj_on (sq_uuid Q) {..<length (filter chosen rows)}"
  shows "keys_distinct [''id''] (queued Q rows)"
proof -
  have "map (\<lambda>r. map r [''id'']) (queued Q rows) =
      map (\<lambda>n. [Some (V_uuid (sq_uuid Q n))]) (map fst (List.enumerate 0 (filter chosen rows)))"
    by (simp add: queued_def queued_row_def o_def case_prod_beta del: map_fst_enumerate)
  moreover have "inj_on (\<lambda>n. [Some (V_uuid (sq_uuid Q n))]) {0..<length (filter chosen rows)}"
    using assms by (auto simp: inj_on_def)
  ultimately show ?thesis
    by (simp add: keys_distinct_def distinct_map)
qed

lemma run_0007:
  assumes "inj_on (sq_uuid Q) {..<length (filter chosen (pg_rows d ''users''))}" and "find_table ''outbox'' d = Some outbox_0004" and "pg_rows d ''outbox'' = []"
    and "list_all (\<lambda>i. ix_table i = ''outbox'' \<longrightarrow> \<not> ix_unique i) (pg_indexes d)"
  shows "run Q upgrade_0007 d = Some (set_rows ''outbox'' (queued Q (pg_rows d ''users'')) d)"
proof -
  have rows: "map (completed Q outbox_0004 \<circ> (\<lambda>(n, y). queued_row Q (sq_uuid Q n) y)) (List.enumerate 0 (filter chosen us)) =
      queued Q us" for us
    by (simp add: queued_def completed_outbox case_prod_beta o_def)
  have "list_all (row_ok outbox_0004) (queued Q rows)" for rows
    by (auto simp: list_all_iff queued_def outbox_row_ok)
  then have "rows_ok d outbox_0004 (queued Q (pg_rows d ''users''))"
    using queued_keys [OF assms(1)] assms(4) by (auto simp: rows_ok_def list_all_iff)
  then show ?thesis
    using assms(2,3) by (simp add: upgrade_0007_def QUEUE_CHOSEN_LANGUAGES_def rows provided_def Let_def)
qed

lemma chosen_same: "chosen (with_reason (with_status r)) = chosen r"
  by (simp add: chosen_def with_reason_def with_status_def)

lemma enumerate_map: "List.enumerate n (map f xs) = map (\<lambda>(k, x). (k, f x)) (List.enumerate n xs)"
  by (induction xs arbitrary: n) simp_all

lemma queued_same: "queued Q (map (with_reason \<circ> with_status) rows) = queued Q rows"
proof -
  have "queued_row Q i (with_reason (with_status r)) = queued_row Q i r" for i r
    by (simp add: queued_row_def language_event_def with_reason_def with_status_def)
  then show ?thesis
    by (simp add: queued_def filter_map o_def chosen_same enumerate_map case_prod_beta)
qed

text \<open>The queued event is the one the service publishes when the account chooses its language.\<close>

lemma language_event_published:
  assumes "r ''id'' = Some (V_uuid (u_id user))" and "r ''feed_language'' = Some (V_text (language_value (u_feed_language user)))"
  shows "preferences_changed E user (sq_now Q) w =
    (Inr (language_event Q (e_uuid4 E (w_draws w)) r), w\<lparr>w_draws := Suc (w_draws w)\<rparr>)"
  using assms
  by (simp add: preferences_changed_def build_event_def bnd_apply uuid4_def language_event_def SPEC_VERSION_def
      SOURCE_def PREFERENCES_CHANGED_def)

lemma run_upgrades:
  assumes "valid_pg (schema_0001 R)" and "inj_on (sq_uuid Q) {..<length (filter chosen (R ''users''))}"
  shows "\<exists>d. run Q (concat (map rv_upgrade (tl upgrade_path))) (schema_0001 R) = Some d \<and>
    pg_rows d = R(''users'' := map (with_reason \<circ> with_status) (R ''users''), ''refresh_tokens'' := [],
      ''outbox'' := queued Q (R ''users''), ''admin_audit_log'' := [], ''feedback'' := [])"
proof -
  let ?R = "R(''users'' := map with_status (R ''users''))"
  obtain d where d: "run Q (upgrade_0003 @ upgrade_0004 @ upgrade_0005 @ upgrade_0006 @ upgrade_trigrams)
       ((schema_0001 ?R)\<lparr>pg_tables := [users_0002, emailed_tokens ''email_verification_tokens'',
         emailed_tokens ''password_reset_tokens'']\<rparr>) = Some d"
    and rows: "pg_rows d = ?R(''users'' := map with_reason (?R ''users''), ''refresh_tokens'' := [], ''outbox'' := [],
       ''admin_audit_log'' := [])"
    and tables: "find_table ''outbox'' d = Some outbox_0004" "find_table ''feedback'' d = None"
    and indexes: "list_all (\<lambda>i. ix_table i = ''outbox'' \<longrightarrow> \<not> ix_unique i) (pg_indexes d)"
    using run_middle [of Q ?R] by blast
  let ?d = "set_rows ''outbox'' (queued Q (pg_rows d ''users'')) d"
  have "pg_rows d ''outbox'' = []" by (simp add: rows)
  moreover have "filter chosen (pg_rows d ''users'') = map (with_reason \<circ> with_status) (filter chosen (R ''users''))"
    by (simp add: rows filter_map o_def chosen_same)
  ultimately have last: "run Q upgrade_0007 d = Some ?d"
    using run_0007 [OF _ tables(1) _ indexes] assms(2) by simp
  have "find_table ''feedback'' ?d = None" using tables(2) by (simp add: find_table_def set_rows_def)
  then have "run Q upgrade_0008 ?d = Some (set_rows ''feedback'' [] (?d\<lparr>pg_tables := pg_tables ?d @ [feedback_0008]\<rparr>))"
    by (simp add: upgrade_0008_def provided_def)
  moreover have "concat (map rv_upgrade (tl upgrade_path)) = upgrade_0002 @
      (upgrade_0003 @ upgrade_0004 @ upgrade_0005 @ upgrade_0006 @ upgrade_trigrams) @ upgrade_0007 @ upgrade_0008"
    by (simp add: upgrade_path_files revision_defs)
  ultimately have "run Q (concat (map rv_upgrade (tl upgrade_path))) (schema_0001 R) =
      Some (set_rows ''feedback'' [] (?d\<lparr>pg_tables := pg_tables ?d @ [feedback_0008]\<rparr>))"
    using run_0002 [OF assms(1)] d last by (simp only: run_append bind.simps)
  then show ?thesis
    by (simp add: set_rows_def rows queued_same fun_upd_twist)
qed

end
