(* ===== verification/Migration_Properties.thy ===== *)
theory Migration_Properties
  imports Migration_Effects
begin

text \<open>The properties of the migrations.\<close>

text \<open>
  C36. Bringing a database of the first revision up to date keeps every account, whatever the accounts are.
  A suspended account is suspended under the new status and the others are active; every other column, and
  the tokens, stay as they were. And each open account that had chosen a language gets one event in the
  outbox, the one the service would publish for that choice.
\<close>

theorem migration_keeps_accounts:
  assumes "upgrade_head Q0 [revision_0001] empty_pg = Some d1" and "valid_pg (d1\<lparr>pg_rows := R\<rparr>)"
    and "inj_on (sq_uuid Q) {..<length (filter chosen (R ''users''))}"
  shows "(\<exists>d. upgrade_head Q (tl upgrade_path) (d1\<lparr>pg_rows := R\<rparr>) = Some d \<and>
      pg_rows d = R(''users'' := map (with_reason \<circ> with_status) (R ''users''), ''refresh_tokens'' := [],
        ''outbox'' := queued Q (R ''users''), ''admin_audit_log'' := [], ''feedback'' := [])) \<and>
    (\<forall>r E user w. r ''id'' = Some (V_uuid (u_id user)) \<longrightarrow>
      r ''feed_language'' = Some (V_text (language_value (u_feed_language user))) \<longrightarrow>
      preferences_changed E user (sq_now Q) w =
        (Inr (language_event Q (e_uuid4 E (w_draws w)) r), w\<lparr>w_draws := Suc (w_draws w)\<rparr>))"
proof -
  have "d1\<lparr>pg_rows := R\<rparr> = schema_0001 R"
    using assms(1) by (simp add: upgrade_head_def revision_0001_def run_0001) (auto simp: schema_0001_def)
  with run_upgrades [of R Q] assms(2,3) language_event_published show ?thesis
    by (auto simp: upgrade_head_def)
qed

definition old_account :: db_row where
  "old_account = [''id'' \<mapsto> V_uuid 1, ''email'' \<mapsto> V_text ''ana@x.ar'', ''handle'' \<mapsto> V_text ''@ana1'',
     ''password_hash'' \<mapsto> V_text ''hash'', ''must_change_password'' \<mapsto> V_bool False,
     ''temporary_password_expires_at'' \<mapsto> V_null, ''role'' \<mapsto> V_text ''user'', ''is_email_verified'' \<mapsto> V_bool True,
     ''is_suspended'' \<mapsto> V_bool True, ''deleted_at'' \<mapsto> V_null, ''terms_accepted'' \<mapsto> V_bool True,
     ''terms_accepted_at'' \<mapsto> V_time 0, ''display_name'' \<mapsto> V_null, ''bio'' \<mapsto> V_null,
     ''profile_visibility'' \<mapsto> V_text ''public'', ''feed_language'' \<mapsto> V_text ''es'', ''created_at'' \<mapsto> V_time 0]"

theorem migration_keeps_accounts_witness:
  "\<exists>d. upgrade_head \<lparr> sq_now = 5, sq_uuid = of_nat \<rparr> (tl upgrade_path)
      (schema_0001 ((\<lambda>_. [])(''users'' := [old_account]))) = Some d \<and>
    map (\<lambda>r. r ''status'') (pg_rows d ''users'') = [Some (V_text ''suspended'')] \<and> length (pg_rows d ''outbox'') = 1"
proof -
  let ?Q = "\<lparr> sq_now = 5, sq_uuid = of_nat \<rparr>" and ?R = "(\<lambda>_. [])(''users'' := [old_account])"
  have first: "upgrade_head ?Q [revision_0001] empty_pg = Some (schema_0001 (\<lambda>_. []))"
    by (simp add: upgrade_head_def revision_0001_def run_0001)
  have d: "(schema_0001 (\<lambda>_. []))\<lparr>pg_rows := ?R\<rparr> = schema_0001 ?R" by (simp add: schema_0001_def)
  have chosen: "filter chosen [old_account] = [old_account]" by (simp add: chosen_def old_account_def)
  have "valid_pg (schema_0001 ?R)"
    by (simp add: valid_pg_def schema_0001_def rows_ok_def row_ok_def table_defs fills_def passes_def old_account_def
        keys_distinct_def)
  moreover have "inj_on (sq_uuid ?Q) {..<length (filter chosen (?R ''users''))}" by (simp add: chosen inj_on_def)
  ultimately show ?thesis
    using migration_keeps_accounts [OF first, of ?R ?Q] unfolding d
    by (auto simp: with_reason_def with_status_def old_account_def queued_def chosen_def)
qed

text \<open>
  C40. The migrations form one chain, and from an empty database it leads to exactly the tables, columns,
  keys, checks and indexes the models declare. The way back removes everything but the extension.
\<close>

theorem migrated_schema_is_declared:
  "\<exists>d. upgrade_head Q upgrade_path empty_pg = Some d \<and> declared_by metadata d \<and>
     downgrade_base Q upgrade_path d = Some (empty_pg\<lparr>pg_extensions := [''pg_trgm'']\<rparr>)"
proof -
  have "map_option (declared_by metadata) (upgrade_head Q upgrade_path empty_pg) = Some True"
    by code_simp
  moreover have "Option.bind (upgrade_head Q upgrade_path empty_pg) (downgrade_base Q upgrade_path) =
      Some (empty_pg\<lparr>pg_extensions := [''pg_trgm'']\<rparr>)"
    by (simp add: upgrade_path_files upgrade_head_def downgrade_base_def revision_defs migration_defs
        statement_defs empty_pg_def default_value_def has_column_def table_defs row_ok_def)
  ultimately show ?thesis by (auto simp: bind_eq_Some_conv)
qed

end
