(* ===== verification/Publisher_Life.thy ===== *)
theory Publisher_Life
  imports Outbox_Publisher Database_Invariants
begin

text \<open>
  The life of the publisher, \<open>infrastructure/rabbitmq/outbox_publisher.py\<close>: \<open>run\<close>, \<open>listen\<close>, \<open>drain\<close>,
  \<open>publish_batch\<close> and \<open>close\<close> as a step relation whose steps are what happens between two \<open>await\<close>s, so
  that requests may commit between any two of them. The passes of \<open>Outbox_Publisher\<close> are its runs
  without such an interruption (\<open>rows_run\<close>). The invariants at the end are that no event is lost
  and that no event is overlooked while the publisher waits.
\<close>

section \<open>The state\<close>

text \<open>
  Where \<open>run\<close> is. \<open>Sending\<close> holds the rows of the batch that are left and those deleted so far, in a
  transaction that \<open>Committing\<close> is about to end, and whether the batch was interrupted.
\<close>

datatype publisher_activity =
    Looping | Opening | Selecting
  | Sending "outbox_model list" "outbox_model list"
  | Committing "outbox_model list" bool
  | Waiting | Ending | Ended

text \<open>Where \<open>listen\<close> is: it connects, adds its listener, waits for the loss of the connection, closes it, pauses.\<close>

datatype listener_activity = Dialing | Adding | Listening | Hanging_up | Pausing | Silent

text \<open>
  \<open>pp_listening\<close> is whether the database has the listener's session registered, and \<open>pp_notified\<close> how many
  notifications are on their way to it. The last three fields are histories: the rows there
  ever were, the rows in the table when the last batch was selected, and whether the last pass was cut
  short. The broker also keeps what it confirmed (\<open>recording\<close>).
\<close>

record ('b, 'r) publisher =
  pp_run :: publisher_activity
  pp_wake :: bool
  pp_listener :: listener_activity
  pp_listening :: bool
  pp_notified :: nat
  pp_connected :: bool
  pp_broker :: "'b \<times> message list"
  pp_service :: "'r world"
  pp_ever :: "outbox_model set"
  pp_seen :: "outbox_model set"
  pp_cut_short :: bool

abbreviation pp_outbox :: "('b, 'r) publisher \<Rightarrow> outbox_model list" where
  "pp_outbox c \<equiv> outbox (w_db (pp_service c))"

text \<open>The rows a transaction deleted, gone when it commits.\<close>

definition without_rows :: "outbox_model list \<Rightarrow> 'r world \<Rightarrow> 'r world" where
  "without_rows rows w =
     w\<lparr>w_db := (w_db w)\<lparr>outbox := filter (\<lambda>r. om_id r \<notin> om_id ` set rows) (outbox (w_db w))\<rparr>\<rparr>"

text \<open>The session of the listener ends, and with it what was on its way.\<close>

definition deaf :: "('b, 'r) publisher \<Rightarrow> ('b, 'r) publisher" where
  "deaf c = c\<lparr>pp_listening := False, pp_notified := 0\<rparr>"

text \<open>A transaction of the service commits; the trigger of the table notifies of its new rows.\<close>

definition committed_elsewhere :: "'r world \<Rightarrow> ('b, 'r) publisher \<Rightarrow> ('b, 'r) publisher" where
  "committed_elsewhere w c =
     c\<lparr>pp_service := w, pp_ever := pp_ever c \<union> set (outbox (w_db w)),
       pp_notified := if pp_listening c \<and> outbox (w_db w) \<noteq> pp_outbox c then Suc (pp_notified c)
                      else pp_notified c\<rparr>"

text \<open>The arguments of the listener's own connection, from the parts of the URL of the database.\<close>

record url =
  url_host :: "string option"
  url_port :: "int option"
  url_username :: "string option"
  url_password :: "string option"
  url_database :: "string option"
  url_query :: "string \<Rightarrow> string option"

datatype connection_arg = Text_arg "string option" | Port_arg "int option"

definition listen_connection_args :: "url \<Rightarrow> (string \<times> connection_arg) list" where
  "listen_connection_args u =
     [(''host'', Text_arg (url_host u)), (''port'', Port_arg (url_port u)),
      (''user'', Text_arg (url_username u)), (''password'', Text_arg (url_password u)),
      (''database'', Text_arg (url_database u)), (''ssl'', Text_arg (url_query u ''ssl''))]"

text \<open>What a notification does, and what \<open>close\<close> leaves.\<close>

definition make_waker :: "('b, 'r) publisher \<Rightarrow> ('b, 'r) publisher" where
  "make_waker c = c\<lparr>pp_wake := True\<rparr>"

definition close_publisher :: "('b, 'r) publisher \<Rightarrow> ('b, 'r) publisher" where
  "close_publisher c = c\<lparr>pp_connected := False\<rparr>"

text \<open>Rows this pass holds locked.\<close>

fun locked_rows :: "publisher_activity \<Rightarrow> outbox_model list" where
  "locked_rows (Sending rows gone) = rows @ gone"
| "locked_rows (Committing gone interrupted) = gone"
| "locked_rows _ = []"

section \<open>Its steps\<close>

text \<open>
  In the order of the rules: the loop of \<open>run\<close> with \<open>connect\<close>; a batch, row by row; the ways a
  pass can fail in a transaction, which rolls back or, when the answer to its commit was lost, may
  not; the waiting; the cancellation with \<open>close\<close>, and the death of the process; the listener; another instance of the service, which publishes rows this one has not locked; and
  the transactions of the service.
\<close>

inductive publisher_step ::
  "'r env \<Rightarrow> settings \<Rightarrow> 'b broker \<Rightarrow> ('b, 'r) publisher \<Rightarrow> ('b, 'r) publisher \<Rightarrow> bool" for E S B where
  pass_begun: "pp_run c = Looping \<Longrightarrow>
    publisher_step E S B c (c\<lparr>pp_wake := False, pp_run := Opening\<rparr>)"
| connected: "pp_run c = Opening \<Longrightarrow>
    connect (recording B) (pp_connected c) (pp_broker c) = (True, is_open, b) \<Longrightarrow>
    publisher_step E S B c (c\<lparr>pp_connected := is_open, pp_broker := b, pp_run := Selecting\<rparr>)"
| connect_failed: "pp_run c = Opening \<Longrightarrow>
    connect (recording B) (pp_connected c) (pp_broker c) = (False, is_open, b) \<Longrightarrow>
    publisher_step E S B c
      (c\<lparr>pp_connected := is_open, pp_broker := b, pp_run := Waiting, pp_cut_short := True\<rparr>)"
| selected: "pp_run c = Selecting \<Longrightarrow>
    publisher_step E S B c (c\<lparr>pp_run := Sending (batch locked (pp_outbox c)) [], pp_seen := set (pp_outbox c)\<rparr>)"
| row_confirmed: "pp_run c = Sending (row # rows) gone \<Longrightarrow>
    publish (recording B) row (pp_broker c) = (Confirmed, b) \<Longrightarrow>
    publisher_step E S B c (c\<lparr>pp_broker := b, pp_run := Sending rows (gone @ [row])\<rparr>)"
| row_returned: "pp_run c = Sending (row # rows) gone \<Longrightarrow>
    publish (recording B) row (pp_broker c) = (Delivery_Error, b) \<Longrightarrow>
    publisher_step E S B c (c\<lparr>pp_broker := b, pp_run := Sending rows gone\<rparr>)"
| row_interrupted: "pp_run c = Sending (row # rows) gone \<Longrightarrow>
    publish (recording B) row (pp_broker c) = (Other_Error, b) \<Longrightarrow>
    publisher_step E S B c (c\<lparr>pp_broker := b, pp_run := Committing gone True\<rparr>)"
| batch_over: "pp_run c = Sending [] gone \<Longrightarrow>
    publisher_step E S B c (c\<lparr>pp_run := Committing gone False\<rparr>)"
| batch_committed: "pp_run c = Committing gone interrupted \<Longrightarrow>
    publisher_step E S B c
      (c\<lparr>pp_service := without_rows gone (pp_service c), pp_cut_short := interrupted,
         pp_run := if interrupted \<or> length gone < BATCH_SIZE then Waiting else Selecting\<rparr>)"
| batch_failed: "pp_run c = Selecting \<or> pp_run c = Sending rows gone \<or> pp_run c = Committing gone interrupted \<Longrightarrow>
    publisher_step E S B c (c\<lparr>pp_run := Waiting, pp_cut_short := True\<rparr>)"
| commit_unanswered: "pp_run c = Committing gone interrupted \<Longrightarrow>
    publisher_step E S B c
      (c\<lparr>pp_service := without_rows gone (pp_service c), pp_run := Waiting, pp_cut_short := True\<rparr>)"
| woken: "pp_run c = Waiting \<Longrightarrow> pp_wake c \<Longrightarrow>
    publisher_step E S B c (c\<lparr>pp_run := Looping\<rparr>)"
| poll_elapsed: "pp_run c = Waiting \<Longrightarrow>
    publisher_step E S B c (c\<lparr>pp_run := Looping\<rparr>)"
| publisher_cancelled: "pp_run c \<noteq> Ended \<Longrightarrow>
    publisher_step E S B c (c\<lparr>pp_run := Ending\<rparr>)"
| publisher_closed: "pp_run c = Ending \<Longrightarrow>
    publisher_step E S B c
      (close_publisher ((deaf c)\<lparr>pp_run := Ended, pp_listener := Silent\<rparr>))"
| publisher_died: "publisher_step E S B c
      ((deaf c)\<lparr>pp_run := Looping, pp_wake := False, pp_listener := Dialing, pp_connected := False\<rparr>)"
| dialed: "pp_listener c = Dialing \<Longrightarrow>
    publisher_step E S B c (c\<lparr>pp_listener := Adding\<rparr>)"
| dial_failed: "pp_listener c = Dialing \<Longrightarrow>
    publisher_step E S B c (c\<lparr>pp_listener := Pausing\<rparr>)"
| listen_registered: "pp_listener c = Adding \<Longrightarrow>
    publisher_step E S B c (c\<lparr>pp_listening := True\<rparr>)"
| listener_added: "pp_listener c = Adding \<Longrightarrow>
    publisher_step E S B c (c\<lparr>pp_listener := Listening, pp_wake := True\<rparr>)"
| add_failed: "pp_listener c = Adding \<Longrightarrow>
    publisher_step E S B c (c\<lparr>pp_listener := Hanging_up\<rparr>)"
| session_lost: "publisher_step E S B c (deaf c)"
| loss_noticed: "pp_listener c = Listening \<Longrightarrow> \<not> pp_listening c \<Longrightarrow>
    publisher_step E S B c (c\<lparr>pp_listener := Hanging_up\<rparr>)"
| hung_up: "pp_listener c = Hanging_up \<Longrightarrow>
    publisher_step E S B c ((deaf c)\<lparr>pp_listener := Pausing\<rparr>)"
| paused: "pp_listener c = Pausing \<Longrightarrow>
    publisher_step E S B c (c\<lparr>pp_listener := Dialing\<rparr>)"
| notification: "pp_notified c = Suc n \<Longrightarrow>
    publisher_step E S B c ((if pp_listener c = Listening then make_waker c else c)\<lparr>pp_notified := n\<rparr>)"
| other_instance: "set rows \<subseteq> set (pp_outbox c) - set (locked_rows (pp_run c)) \<Longrightarrow>
    publisher_step E S B c
      (c\<lparr>pp_service := without_rows rows (pp_service c),
         pp_broker := (fst (pp_broker c), snd (pp_broker c) @ map outbox_message rows)\<rparr>)"
| request_served: "publisher_step E S B c (committed_elsewhere (snd (serve E S req (pp_service c))) c)"
| event_settled: "publisher_step E S B c (committed_elsewhere (snd (settle E body (pp_service c))) c)"
| seeded: "publisher_step E S B c (committed_elsewhere (snd (seed_main E S (pp_service c))) c)"
| time_passed: "w_draws (pp_service c) \<le> n \<Longrightarrow>
    publisher_step E S B c (c\<lparr>pp_service := (pp_service c)\<lparr>w_draws := n\<rparr>\<rparr>)"

definition publisher_runs ::
  "'r env \<Rightarrow> settings \<Rightarrow> 'b broker \<Rightarrow> ('b, 'r) publisher \<Rightarrow> ('b, 'r) publisher \<Rightarrow> bool" where
  "publisher_runs E S B = (publisher_step E S B)\<^sup>*\<^sup>*"

text \<open>A publisher just started, by a service that finds some rows in its outbox.\<close>

definition fresh_publisher :: "('b, 'r) publisher \<Rightarrow> bool" where
  "fresh_publisher c \<longleftrightarrow>
     pp_run c = Looping \<and> \<not> pp_wake c \<and> pp_listener c = Dialing \<and> \<not> pp_listening c \<and> pp_notified c = 0 \<and>
     \<not> pp_connected c \<and> snd (pp_broker c) = [] \<and> pp_ever c = set (pp_outbox c) \<and> pp_seen c = {} \<and>
     \<not> pp_cut_short c"

section \<open>A batch nothing interrupts\<close>

text \<open>Without anything in between, the steps of a batch are the function \<open>publish_batch\<close>.\<close>

lemma publisher_runs_step:
  "publisher_step E S B c c' \<Longrightarrow> publisher_runs E S B c' c'' \<Longrightarrow> publisher_runs E S B c c''"
  unfolding publisher_runs_def by (rule converse_rtranclp_into_rtranclp)

lemma publisher_runs_last: "publisher_step E S B c c' \<Longrightarrow> publisher_runs E S B c c'"
  unfolding publisher_runs_def by (rule r_into_rtranclp)

lemma publisher_runs_trans:
  "publisher_runs E S B c c' \<Longrightarrow> publisher_runs E S B c' c'' \<Longrightarrow> publisher_runs E S B c c''"
  unfolding publisher_runs_def by (rule rtranclp_trans)

lemma rows_run:
  assumes "publish_rows (recording B) rows n table (pp_broker c) = ((n', i), table', b')"
    and "pp_run c = Sending rows gone" and "n = length gone"
  shows "\<exists>new. publisher_runs E S B c (c\<lparr>pp_broker := b', pp_run := Committing (gone @ new) i\<rparr>) \<and>
    n' = length (gone @ new) \<and> table' = filter (\<lambda>r. om_id r \<notin> om_id ` set new) table"
  using assms
proof (induction rows arbitrary: c n gone table)
  case Nil
  then show ?case
    using publisher_runs_last [OF batch_over [OF Nil.prems(2), of E S B]] by (intro exI [of _ "[]"]) auto
next
  case (Cons row rows)
  obtain y b where p: "publish (recording B) row (pp_broker c) = (y, b)"
    by (cases "publish (recording B) row (pp_broker c)")
  show ?case
  proof (cases y)
    case Confirmed
    let ?c = "c\<lparr>pp_broker := b, pp_run := Sending rows (gone @ [row])\<rparr>"
    obtain new where "publisher_runs E S B ?c (?c\<lparr>pp_broker := b', pp_run := Committing ((gone @ [row]) @ new) i\<rparr>)"
      "n' = length ((gone @ [row]) @ new)" "table' = filter (\<lambda>r. om_id r \<notin> om_id ` set new) (delete_row row table)"
      using Cons.IH [of "n + 1" "delete_row row table" ?c "gone @ [row]"] Cons.prems p Confirmed by auto
    moreover have "publisher_step E S B c ?c" using row_confirmed [OF Cons.prems(2)] p Confirmed by simp
    ultimately show ?thesis
      by (intro exI [of _ "row # new"]) (auto simp: delete_row_def intro: publisher_runs_step intro!: filter_cong)
  next
    case Delivery_Error
    let ?c = "c\<lparr>pp_broker := b, pp_run := Sending rows gone\<rparr>"
    have "publisher_step E S B c ?c" using row_returned [OF Cons.prems(2)] p Delivery_Error by simp
    moreover have "\<exists>new. publisher_runs E S B ?c (?c\<lparr>pp_broker := b', pp_run := Committing (gone @ new) i\<rparr>) \<and>
      n' = length (gone @ new) \<and> table' = filter (\<lambda>r. om_id r \<notin> om_id ` set new) table"
      using Cons.IH [of n table ?c gone] Cons.prems p Delivery_Error by simp
    ultimately show ?thesis by (auto intro: publisher_runs_step)
  next
    case Other_Error
    then have "publisher_step E S B c (c\<lparr>pp_broker := b, pp_run := Committing gone True\<rparr>)"
      using row_interrupted [OF Cons.prems(2)] p by simp
    with Cons.prems p Other_Error show ?thesis
      by (intro exI [of _ "[]"]) (auto intro: publisher_runs_last)
  qed
qed

lemma batch_run:
  assumes "pp_run c = Selecting"
    and "publish_batch (recording B) locked (pp_outbox c) (pp_broker c) = ((n, i), table, b)"
  shows "publisher_runs E S B c
    (c\<lparr>pp_seen := set (pp_outbox c), pp_broker := b,
       pp_service := (pp_service c)\<lparr>w_db := (w_db (pp_service c))\<lparr>outbox := table\<rparr>\<rparr>, pp_cut_short := i,
       pp_run := if i \<or> n < BATCH_SIZE then Waiting else Selecting\<rparr>)"
proof -
  let ?c = "c\<lparr>pp_run := Sending (batch locked (pp_outbox c)) [], pp_seen := set (pp_outbox c)\<rparr>"
  have first: "publisher_step E S B c ?c" using selected [OF assms(1)] .
  obtain new where new: "publisher_runs E S B ?c (?c\<lparr>pp_broker := b, pp_run := Committing ([] @ new) i\<rparr>)"
    "n = length ([] @ new)" "table = filter (\<lambda>r. om_id r \<notin> om_id ` set new) (pp_outbox c)"
    using rows_run [of B "batch locked (pp_outbox c)" 0 "pp_outbox c" ?c n i table b "[]" E S] assms(2)
    by (auto simp: publish_batch_def)
  let ?d = "?c\<lparr>pp_broker := b, pp_run := Committing ([] @ new) i\<rparr>"
  have last: "publisher_step E S B ?d (?d\<lparr>pp_service := without_rows new (pp_service ?d), pp_cut_short := i,
      pp_run := if i \<or> length new < BATCH_SIZE then Waiting else Selecting\<rparr>)"
    by (rule batch_committed) simp
  from publisher_runs_step [OF first publisher_runs_trans [OF new(1) publisher_runs_last [OF last]]]
    new(2,3) show ?thesis by (simp add: without_rows_def split del: if_split)
qed

section \<open>No event is lost\<close>

fun deleted_rows :: "publisher_activity \<Rightarrow> outbox_model list" where
  "deleted_rows (Sending rows gone) = gone"
| "deleted_rows (Committing gone interrupted) = gone"
| "deleted_rows _ = []"

text \<open>A row that is gone was confirmed, and what this pass deletes was.\<close>

definition kept_rows :: "('b, 'r) publisher \<Rightarrow> bool" where
  "kept_rows c \<longleftrightarrow>
     constraints (w_db (pp_service c)) \<and> set (pp_outbox c) \<subseteq> pp_ever c \<and>
     (\<forall>row \<in> pp_ever c. row \<in> set (pp_outbox c) \<or> outbox_message row \<in> set (snd (pp_broker c))) \<and>
     set (locked_rows (pp_run c)) \<subseteq> set (pp_outbox c) \<and>
     outbox_message ` set (deleted_rows (pp_run c)) \<subseteq> set (snd (pp_broker c))"

lemma kept_constraints: "kept_rows c \<Longrightarrow> constraints (w_db (pp_service c))"
  by (simp add: kept_rows_def)

lemma outbox_ids: "constraints d \<Longrightarrow> distinct (map om_id (outbox d))"
  by (simp add: constraints_def)

lemma constraints_without_rows: "constraints (w_db w) \<Longrightarrow> constraints (w_db (without_rows rows w))"
  using published_constraints [of "w_db w" "\<lambda>r. om_id r \<in> om_id ` set rows"]
  by (simp add: without_rows_def)

lemma without_rows_outbox:
  assumes "constraints (w_db w)" and "set rows \<subseteq> set (outbox (w_db w))"
  shows "outbox (w_db (without_rows rows w)) = filter (\<lambda>r. r \<notin> set rows) (outbox (w_db w))"
  using ids_of_rows [OF outbox_ids [OF assms(1)] assms(2)] by (simp add: without_rows_def)

lemma connect_log:
  "connect (recording B) on b = (ok, is_open, b') \<Longrightarrow> snd b' = snd b"
  by (cases b) (auto simp: connect_def recording_def split: if_splits prod.splits)

lemma publish_log:
  "publish (recording B) row b = (y, b') \<Longrightarrow>
     snd b' = (if y = Confirmed then snd b @ [outbox_message row] else snd b)"
  by (cases b) (auto simp: publish_recording split: prod.splits)

lemma serve_grows:
  assumes "constraints (w_db w)"
  shows "prefix (outbox (w_db w)) (outbox (w_db (snd (serve E S req w))))"
    and "constraints (w_db (snd (serve E S req w)))"
  using outbox_rows.serve_keeps [of E S req w "fst (serve E S req w)" "snd (serve E S req w)" "outbox (w_db w)"] assms
  by (simp_all add: outbox_grown_def)

lemma background_grows:
  fixes E :: "'r env"
  assumes "constraints (w_db w)"
  shows "prefix (outbox (w_db w)) (outbox (w_db (snd (settle E body w))))"
    and "constraints (w_db (snd (settle E body w)))"
    and "prefix (outbox (w_db w)) (outbox (w_db (snd (seed_main E S w))))"
    and "constraints (w_db (snd (seed_main E S w)))"
  using outbox_rows.background_keeps [of "outbox (w_db w)" w E] assms
  by (simp_all add: outbox_grown_def)

lemma elsewhere_kept:
  assumes "kept_rows c" and "prefix (pp_outbox c) (outbox (w_db w))" and "constraints (w_db w)"
  shows "kept_rows (committed_elsewhere w c)"
  using assms by (auto simp: kept_rows_def committed_elsewhere_def prefix_def)

lemma deleted_kept:
  assumes "kept_rows c" and "set rows \<subseteq> set (pp_outbox c)" and "outbox_message ` set rows \<subseteq> set (snd b)"
    and "set (snd (pp_broker c)) \<subseteq> set (snd b)" and "set (locked_rows a) \<subseteq> set (pp_outbox c) - set rows"
    and "outbox_message ` set (deleted_rows a) \<subseteq> set (snd b)"
  shows "kept_rows (c\<lparr>pp_service := without_rows rows (pp_service c), pp_broker := b, pp_run := a\<rparr>)"
proof -
  have c: "constraints (w_db (pp_service c))" using assms(1) by (simp add: kept_rows_def)
  show ?thesis
    using assms without_rows_outbox [OF c assms(2)] constraints_without_rows [OF c]
    by (auto simp: kept_rows_def)
qed

lemma step_kept:
  assumes "publisher_step E S B c c'" and "kept_rows c"
  shows "kept_rows c'"
  using assms
proof (cases rule: publisher_step.cases)
  case (batch_committed gone interrupted)
  with deleted_kept [OF assms(2), of gone "pp_broker c" "if interrupted \<or> length gone < BATCH_SIZE then Waiting else Selecting"]
    assms(2)
  show ?thesis by (simp add: kept_rows_def)
next
  case (commit_unanswered gone interrupted)
  with deleted_kept [OF assms(2), of gone "pp_broker c" Waiting] assms(2)
  show ?thesis by (simp add: kept_rows_def)
next
  case (other_instance rows)
  let ?b = "(fst (pp_broker c), snd (pp_broker c) @ map outbox_message rows)"
  have "kept_rows (c\<lparr>pp_service := without_rows rows (pp_service c), pp_broker := ?b, pp_run := pp_run c\<rparr>)"
    by (rule deleted_kept [OF assms(2)]) (use assms(2) other_instance(2) in \<open>auto simp: kept_rows_def\<close>)
  with other_instance(1) show ?thesis by simp
next
  case (request_served req)
  with elsewhere_kept [OF assms(2) serve_grows [OF kept_constraints [OF assms(2)]]] show ?thesis by simp
next
  case (event_settled body)
  with elsewhere_kept [OF assms(2) background_grows(1,2) [OF kept_constraints [OF assms(2)]]] show ?thesis by simp
next
  case seeded
  with elsewhere_kept [OF assms(2) background_grows(3,4) [OF kept_constraints [OF assms(2)]]] show ?thesis by simp
qed (auto simp: kept_rows_def deaf_def make_waker_def close_publisher_def dest!: connect_log publish_log dest: subsetD [OF batch_rows])

section \<open>No event is overlooked\<close>

text \<open>
  The rows that were not there when the last batch was selected have woken the publisher, or are about
  to, or there is no listener to tell of them.
\<close>

definition noticed :: "('b, 'r) publisher \<Rightarrow> bool" where
  "noticed c \<longleftrightarrow>
     pp_wake c \<or> pp_notified c \<noteq> 0 \<or> \<not> pp_listening c \<or> pp_listener c \<noteq> Listening \<or>
     set (pp_outbox c) \<subseteq> pp_seen c"

fun past_selection :: "publisher_activity \<Rightarrow> bool \<Rightarrow> bool" where
  "past_selection (Sending rows gone) short \<longleftrightarrow> True"
| "past_selection (Committing gone interrupted) short \<longleftrightarrow> True"
| "past_selection Waiting short \<longleftrightarrow> \<not> short"
| "past_selection _ short \<longleftrightarrow> False"

definition nothing_overlooked :: "('b, 'r) publisher \<Rightarrow> bool" where
  "nothing_overlooked c \<longleftrightarrow> (past_selection (pp_run c) (pp_cut_short c) \<longrightarrow> noticed c)"

lemma step_noticed:
  assumes "publisher_step E S B c c'" and "nothing_overlooked c"
  shows "nothing_overlooked c'"
  using assms
  by (cases rule: publisher_step.cases)
     (auto simp: nothing_overlooked_def noticed_def deaf_def make_waker_def close_publisher_def committed_elsewhere_def without_rows_def)

lemma publisher_invariants:
  assumes "publisher_runs E S B c c'" and "kept_rows c" and "nothing_overlooked c"
  shows "kept_rows c' \<and> nothing_overlooked c'"
  using assms unfolding publisher_runs_def
  by (induction rule: rtranclp_induct) (auto dest: step_kept step_noticed)

lemma fresh_publisher_invariants:
  "fresh_publisher c \<Longrightarrow> constraints (w_db (pp_service c)) \<Longrightarrow> kept_rows c \<and> nothing_overlooked c"
  by (simp add: fresh_publisher_def kept_rows_def nothing_overlooked_def)

end
