(* ===== verification/Publisher_Properties.thy ===== *)
theory Publisher_Properties
  imports Publisher_Life Messaging_Properties
begin

text \<open>The property of the publisher over its whole life.\<close>

text \<open>
  C18. Whatever happens, in any order - requests that commit in the middle of a batch, transactions of the
  publisher that fail, connections that break, another instance at work, cancellations, a process that
  dies - an event that was ever in the outbox is still there or the broker confirmed it. And a
  publisher that waits without having been woken overlooks nothing: unless its last pass was cut short,
  as long as its listener is at work and no notification is on its way, every row in the outbox was
  there when the last batch was selected. This is why \<open>wake\<close> is cleared before a pass and set once the
  listener is in place.
\<close>

theorem no_event_overlooked:
  assumes "fresh_publisher c" and "constraints (w_db (pp_service c))" and "publisher_runs E S B c c'"
  shows "(\<forall>row \<in> pp_ever c'. row \<in> set (pp_outbox c') \<or> outbox_message row \<in> set (snd (pp_broker c'))) \<and>
    (pp_run c' = Waiting \<and> \<not> pp_cut_short c' \<and> \<not> pp_wake c' \<and> pp_listener c' = Listening \<and>
       pp_listening c' \<and> pp_notified c' = 0 \<longrightarrow> set (pp_outbox c') \<subseteq> pp_seen c')"
  using publisher_invariants [OF assms(3)] fresh_publisher_invariants [OF assms(1,2)]
  by (auto simp: kept_rows_def nothing_overlooked_def noticed_def)

definition demo_publisher :: "keyspace world \<Rightarrow> (unit, keyspace) publisher" where
  "demo_publisher w =
     \<lparr> pp_run = Looping, pp_wake = False, pp_listener = Dialing, pp_listening = False, pp_notified = 0,
       pp_connected = False, pp_broker = ((), []), pp_service = w, pp_ever = set (outbox (w_db w)),
       pp_seen = {}, pp_cut_short = False \<rparr>"

text \<open>The listener is in place, then a pass gets its two events back, and the publisher waits.\<close>

lemma demo_pass:
  fixes kind :: "nat \<Rightarrow> string"
  defines "w \<equiv> demo_outbox kind 2" and "B \<equiv> demo_broker {}"
  shows "\<exists>b. publisher_runs demo_env demo_settings B (demo_publisher w)
    ((demo_publisher w)\<lparr>pp_listener := Listening, pp_listening := True, pp_run := Waiting, pp_connected := True,
      pp_seen := set (outbox (w_db w)), pp_broker := b\<rparr>)"
proof -
  let ?runs = "publisher_runs demo_env demo_settings B" and ?c = "demo_publisher w"
  let ?c1 = "?c\<lparr>pp_listener := Adding\<rparr>"
  let ?c2 = "?c1\<lparr>pp_listening := True\<rparr>"
  let ?c3 = "?c2\<lparr>pp_listener := Listening, pp_wake := True\<rparr>"
  let ?c4 = "?c3\<lparr>pp_wake := False, pp_run := Opening\<rparr>"
  let ?c5 = "?c4\<lparr>pp_connected := True, pp_broker := ((), []), pp_run := Selecting\<rparr>"
  have "?runs ?c ?c5"
  proof (intro publisher_runs_step [OF dialed [of ?c]] publisher_runs_step [OF listen_registered [of ?c1]]
      publisher_runs_step [OF listener_added [of ?c2]] publisher_runs_step [OF pass_begun [of ?c3]]
      publisher_runs_last connected)
    show "connect (recording B) (pp_connected ?c4) (pp_broker ?c4) = (True, True, ((), []))"
      by (simp add: connect_def recording_def B_def demo_broker_def demo_publisher_def)
  qed (simp_all add: demo_publisher_def)
  moreover have "fst (publish (recording B) row b) = Delivery_Error" for row b
    by (cases b) (simp add: publish_def recording_def B_def demo_broker_def)
  then obtain b where "publish_batch (recording B) (\<lambda>_. False) (pp_outbox ?c5) (pp_broker ?c5) =
      ((0, False), pp_outbox ?c5, b)"
    using publish_rows_none [of _ "recording B"] unfolding publish_batch_def by blast
  from batch_run [OF _ this] have "?runs ?c5 (?c5\<lparr>pp_seen := set (pp_outbox ?c5), pp_broker := b,
      pp_cut_short := False, pp_run := Waiting\<rparr>)"
    by (simp add: BATCH_SIZE_def)
  ultimately show ?thesis
    using publisher_runs_trans by (intro exI [of _ b]) (fastforce simp: demo_publisher_def)
qed

theorem no_event_overlooked_witness:
  "\<exists>c'. publisher_runs demo_env demo_settings (demo_broker {}) (demo_publisher (demo_outbox (\<lambda>_. ''a'') 2)) c' \<and>
     length (pp_outbox c') = 2 \<and> set (pp_outbox c') \<subseteq> pp_seen c'"
proof -
  let ?w = "demo_outbox (\<lambda>_. ''a'') 2"
  obtain b where run: "publisher_runs demo_env demo_settings (demo_broker {}) (demo_publisher ?w)
    ((demo_publisher ?w)\<lparr>pp_listener := Listening, pp_listening := True, pp_run := Waiting, pp_connected := True,
      pp_seen := set (outbox (w_db ?w)), pp_broker := b\<rparr>)" (is "publisher_runs _ _ _ _ ?c'")
    using demo_pass by blast
  have "fresh_publisher (demo_publisher ?w)" by (simp add: fresh_publisher_def demo_publisher_def)
  from no_event_overlooked [OF this _ run] demo_outbox_two [of "\<lambda>_. ''a''"]
  have "set (pp_outbox ?c') \<subseteq> pp_seen ?c'" by (simp add: demo_publisher_def)
  moreover have "length (pp_outbox ?c') = 2" by (simp add: demo_publisher_def demo_outbox_def)
  ultimately show ?thesis using run by blast
qed

end
