(* ===== verification/Event_Delivery.thy ===== *)
theory Event_Delivery
  imports Access_Control "HOL-Library.Multiset"
begin

text \<open>
  The life of the event consumer, \<open>infrastructure/rabbitmq/event_consumer.py\<close>: \<open>run\<close>, \<open>_consume\<close>,
  \<open>_on_message\<close>, \<open>_settle\<close> and \<open>close\<close> as a step relation whose steps are what happens between two
  \<open>await\<close>s, with the failures and cancellations that each \<open>await\<close> may end in. The broker is a
  parameter; the locale \<open>amqp_queue\<close> states what RabbitMQ documents about a quorum queue with
  explicit acknowledgements, its delivery limit included. The invariant at the end is that no message is
  lost, and the execution at the end one in which a valid event becomes a dead letter.
\<close>

section \<open>The broker\<close>

text \<open>
  The queue of this service, as the broker keeps it. A message is its body with its delivery count: how
  often the queue took it back, because it was asked to or because the channel it was delivered on closed.
  A queue may have a limit: what was taken back more often becomes a dead letter. The
  repository declares none, and then RabbitMQ 4 sets one of 20, earlier versions none; a policy may set
  another. The dead letters are the messages given to the dead letter exchange. The deliveries
  are numbered over all the channels there have been, so an answer to a delivery of a channel that
  is gone has no effect.
\<close>

type_synonym message = "string \<times> nat"

record 'q amqp =
  aq_limit :: "nat option"
  aq_arrive :: "string \<Rightarrow> 'q \<Rightarrow> 'q"
  aq_deliver :: "nat \<Rightarrow> 'q \<Rightarrow> ((nat \<times> message) \<times> 'q) option"
  aq_ack :: "nat \<Rightarrow> 'q \<Rightarrow> 'q"
  aq_reject :: "nat \<Rightarrow> 'q \<Rightarrow> 'q"
  aq_nack :: "nat \<Rightarrow> 'q \<Rightarrow> 'q"
  aq_closed :: "'q \<Rightarrow> 'q"
  aq_ready :: "'q \<Rightarrow> message multiset"
  aq_unacked :: "'q \<Rightarrow> (nat \<times> message) list"
  aq_dead :: "'q \<Rightarrow> message multiset"
  aq_deliveries :: "'q \<Rightarrow> nat"

definition delivery_messages :: "'q amqp \<Rightarrow> nat \<Rightarrow> 'q \<Rightarrow> message multiset" where
  "delivery_messages Q tag q = mset (map snd (filter (\<lambda>d. fst d = tag) (aq_unacked Q q)))"

definition unacked_messages :: "'q amqp \<Rightarrow> 'q \<Rightarrow> message multiset" where
  "unacked_messages Q q = mset (map snd (aq_unacked Q q))"

definition without_delivery :: "'q amqp \<Rightarrow> nat \<Rightarrow> 'q \<Rightarrow> (nat \<times> message) list" where
  "without_delivery Q tag q = filter (\<lambda>d. fst d \<noteq> tag) (aq_unacked Q q)"

text \<open>Taking messages back: which are ready again, and which have reached the limit.\<close>

definition over_limit :: "nat option \<Rightarrow> message \<Rightarrow> bool" where
  "over_limit limit m = (case limit of None \<Rightarrow> False | Some l \<Rightarrow> l < snd m)"

definition taken_back :: "message \<Rightarrow> message" where
  "taken_back m = (fst m, Suc (snd m))"

definition ready_again :: "nat option \<Rightarrow> message multiset \<Rightarrow> message multiset" where
  "ready_again limit M = filter_mset (\<lambda>m. \<not> over_limit limit m) (image_mset taken_back M)"

definition given_up :: "nat option \<Rightarrow> message multiset \<Rightarrow> message multiset" where
  "given_up limit M = filter_mset (over_limit limit) (image_mset taken_back M)"

text \<open>Everything the broker has of this queue, with its dead letters.\<close>

definition at_broker :: "'q amqp \<Rightarrow> 'q \<Rightarrow> message multiset" where
  "at_broker Q q = aq_ready Q q + unacked_messages Q q + aq_dead Q q"

definition bodies :: "message multiset \<Rightarrow> string multiset" where
  "bodies M = image_mset fst M"

locale amqp_queue =
  fixes Q :: "'q amqp"
  assumes arrive:
      "aq_ready Q (aq_arrive Q body q) = add_mset (body, 0) (aq_ready Q q)"
      "aq_unacked Q (aq_arrive Q body q) = aq_unacked Q q"
      "aq_dead Q (aq_arrive Q body q) = aq_dead Q q"
      "aq_deliveries Q (aq_arrive Q body q) = aq_deliveries Q q"
    and deliver:
      "aq_deliver Q n q = Some ((tag, m), q') \<Longrightarrow>
         length (aq_unacked Q q) < n \<and> tag = aq_deliveries Q q \<and> aq_deliveries Q q' = Suc tag \<and>
         aq_ready Q q = add_mset m (aq_ready Q q') \<and>
         aq_unacked Q q' = aq_unacked Q q @ [(tag, m)] \<and> aq_dead Q q' = aq_dead Q q"
    and ack:
      "aq_ready Q (aq_ack Q tag q) = aq_ready Q q"
      "aq_unacked Q (aq_ack Q tag q) = without_delivery Q tag q"
      "aq_dead Q (aq_ack Q tag q) = aq_dead Q q"
      "aq_deliveries Q (aq_ack Q tag q) = aq_deliveries Q q"
    and reject:
      "aq_ready Q (aq_reject Q tag q) = aq_ready Q q"
      "aq_unacked Q (aq_reject Q tag q) = without_delivery Q tag q"
      "aq_dead Q (aq_reject Q tag q) = aq_dead Q q + delivery_messages Q tag q"
      "aq_deliveries Q (aq_reject Q tag q) = aq_deliveries Q q"
    and nack:
      "aq_ready Q (aq_nack Q tag q) = aq_ready Q q + ready_again (aq_limit Q) (delivery_messages Q tag q)"
      "aq_unacked Q (aq_nack Q tag q) = without_delivery Q tag q"
      "aq_dead Q (aq_nack Q tag q) = aq_dead Q q + given_up (aq_limit Q) (delivery_messages Q tag q)"
      "aq_deliveries Q (aq_nack Q tag q) = aq_deliveries Q q"
    and closed:
      "aq_ready Q (aq_closed Q q) = aq_ready Q q + ready_again (aq_limit Q) (unacked_messages Q q)"
      "aq_unacked Q (aq_closed Q q) = []"
      "aq_dead Q (aq_closed Q q) = aq_dead Q q + given_up (aq_limit Q) (unacked_messages Q q)"
      "aq_deliveries Q (aq_closed Q q) = aq_deliveries Q q"

text \<open>The laws have a model: a queue as a list, a channel as the list of what it has not answered.\<close>

record listed_queue =
  lq_ready :: "message list"
  lq_unacked :: "(nat \<times> message) list"
  lq_dead :: "message list"
  lq_deliveries :: nat

definition lq_settled :: "nat \<Rightarrow> listed_queue \<Rightarrow> listed_queue" where
  "lq_settled tag q = q\<lparr>lq_unacked := filter (\<lambda>d. fst d \<noteq> tag) (lq_unacked q)\<rparr>"

definition lq_messages :: "nat \<Rightarrow> listed_queue \<Rightarrow> message list" where
  "lq_messages tag q = map snd (filter (\<lambda>d. fst d = tag) (lq_unacked q))"

text \<open>Messages come back to the front of the queue, or go to the dead letters.\<close>

definition lq_take_back :: "nat option \<Rightarrow> message list \<Rightarrow> listed_queue \<Rightarrow> listed_queue" where
  "lq_take_back limit ms q =
     q\<lparr>lq_ready := filter (\<lambda>m. \<not> over_limit limit m) (map taken_back ms) @ lq_ready q,
       lq_dead := lq_dead q @ filter (over_limit limit) (map taken_back ms)\<rparr>"

definition listed_amqp :: "nat option \<Rightarrow> listed_queue amqp" where
  "listed_amqp limit =
     \<lparr> aq_limit = limit,
       aq_arrive = (\<lambda>body q. q\<lparr>lq_ready := lq_ready q @ [(body, 0)]\<rparr>),
       aq_deliver = (\<lambda>n q. case lq_ready q of
           [] \<Rightarrow> None
         | m # rest \<Rightarrow>
             if length (lq_unacked q) < n
             then Some ((lq_deliveries q, m),
               q\<lparr>lq_ready := rest, lq_unacked := lq_unacked q @ [(lq_deliveries q, m)],
                 lq_deliveries := Suc (lq_deliveries q)\<rparr>)
             else None),
       aq_ack = lq_settled,
       aq_reject = (\<lambda>tag q. (lq_settled tag q)\<lparr>lq_dead := lq_dead q @ lq_messages tag q\<rparr>),
       aq_nack = (\<lambda>tag q. lq_take_back limit (lq_messages tag q) (lq_settled tag q)),
       aq_closed = (\<lambda>q. lq_take_back limit (map snd (lq_unacked q)) (q\<lparr>lq_unacked := []\<rparr>)),
       aq_ready = (\<lambda>q. mset (lq_ready q)), aq_unacked = lq_unacked,
       aq_dead = (\<lambda>q. mset (lq_dead q)), aq_deliveries = lq_deliveries \<rparr>"

lemmas listed_defs =
  listed_amqp_def delivery_messages_def unacked_messages_def without_delivery_def lq_settled_def lq_messages_def
  lq_take_back_def ready_again_def given_up_def

interpretation listed: amqp_queue "listed_amqp limit" for limit
  by unfold_locales (auto simp: listed_defs mset_filter image_mset.compositionality o_def split: list.splits if_splits)

section \<open>The consumer\<close>

definition PREFETCH :: nat where "PREFETCH = 10"

text \<open>
  What \<open>_consume\<close> declares before it asks for messages. Every declaration is idempotent; the last two
  arguments of a queue are durability and the arguments of the broker.
\<close>

definition EXCHANGE :: string where "EXCHANGE = ''udesa-x.events''"

definition DEAD_LETTER_EXCHANGE :: string where "DEAD_LETTER_EXCHANGE = ''users-api.dlx''"

definition QUEUE :: string where "QUEUE = ''users-api''"

definition DEAD_LETTER_QUEUE :: string where "DEAD_LETTER_QUEUE = ''users-api.dlq''"

definition BINDINGS :: "string list" where "BINDINGS = [ADMIN_ACTION_RECORDED]"

datatype exchange_type = TOPIC | FANOUT

datatype broker_declaration =
    Set_qos nat
  | Declare_exchange string exchange_type bool
  | Declare_queue string bool "(string \<times> string) list"
  | Bind string string string

definition consume_declarations :: "broker_declaration list" where
  "consume_declarations =
     [Set_qos PREFETCH,
      Declare_exchange EXCHANGE TOPIC True,
      Declare_exchange DEAD_LETTER_EXCHANGE FANOUT True,
      Declare_queue DEAD_LETTER_QUEUE True [(''x-queue-type'', ''quorum'')],
      Bind DEAD_LETTER_QUEUE DEAD_LETTER_EXCHANGE [],
      Declare_queue QUEUE True
        [(''x-queue-type'', ''quorum''), (''x-dead-letter-exchange'', DEAD_LETTER_EXCHANGE)]] @
     map (Bind QUEUE EXCHANGE) BINDINGS"

text \<open>
  The queues a message reaches: all that are bound to a fanout exchange, and for a topic exchange
  those bound with its key, when the keys of the bindings have no wildcards. A rejected message goes
  to the exchange its queue names.
\<close>

definition reaches :: "broker_declaration list \<Rightarrow> string \<Rightarrow> string \<Rightarrow> string set" where
  "reaches ds exchange key =
     {queue. \<exists>bound d. Bind queue exchange bound \<in> set ds \<and>
        (Declare_exchange exchange FANOUT d \<in> set ds \<or>
         Declare_exchange exchange TOPIC d \<in> set ds \<and> bound = key)}"

definition dead_lettered :: "broker_declaration list \<Rightarrow> string \<Rightarrow> string \<Rightarrow> string set" where
  "dead_lettered ds queue key =
     {q. \<exists>d args dlx. Declare_queue queue d args \<in> set ds \<and> map_of args ''x-dead-letter-exchange'' = Some dlx \<and>
        q \<in> reaches ds dlx key}"

lemma consumed_keys:
  "reaches consume_declarations EXCHANGE key = (if key = ADMIN_ACTION_RECORDED then {QUEUE} else {})"
  by (auto simp: reaches_def consume_declarations_def BINDINGS_def EXCHANGE_def DEAD_LETTER_EXCHANGE_def)

lemma rejected_kept: "dead_lettered consume_declarations QUEUE key = {DEAD_LETTER_QUEUE}"
  by (auto simp: dead_lettered_def reaches_def consume_declarations_def BINDINGS_def EXCHANGE_def
      DEAD_LETTER_EXCHANGE_def QUEUE_def DEAD_LETTER_QUEUE_def)

text \<open>How a message is answered to the broker.\<close>

fun answer_delivery :: "'q amqp \<Rightarrow> settlement \<Rightarrow> nat \<Rightarrow> 'q \<Rightarrow> 'q" where
  "answer_delivery Q Acked = aq_ack Q"
| "answer_delivery Q Rejected = aq_reject Q"
| "answer_delivery Q Requeued = aq_nack Q"

text \<open>
  Where \<open>run\<close> is. \<open>close\<close> is called when the start failed, and then \<open>run\<close> goes on (\<open>Retry\<close>), or when
  \<open>run\<close> ends (\<open>Finish\<close>); \<open>Draining\<close> remembers the tasks it waits for.
\<close>

datatype after_close = Retry | Finish

datatype activity =
    Starting | Connecting | Subscribing | Consuming
  | Unsubscribing after_close | Draining "nat set" after_close | Disconnecting after_close
  | Sleeping | Stopped

text \<open>
  Where the task of a message is: not begun, waiting for the handler, holding the message back for
  \<open>retry_seconds\<close>, or answering the broker.
\<close>

datatype progress = Delivered | Handling | Holding | Replying settlement

text \<open>
  \<open>ec_attached\<close> is whether the broker has this consumer registered, \<open>ec_arrived\<close> the messages that
  were ever in the queue, \<open>ec_returns\<close> how often the queue took messages back, and \<open>ec_service\<close> the world the
  handler works on.
\<close>

record ('q, 'r) consumer =
  ec_run :: activity
  ec_connection :: bool
  ec_subscription :: bool
  ec_ready :: bool
  ec_in_flight :: "nat set"
  ec_tasks :: "nat \<Rightarrow> (string \<times> progress) option"
  ec_attached :: bool
  ec_queue :: 'q
  ec_arrived :: "string multiset"
  ec_returns :: nat
  ec_service :: "'r world"

fun closed_activity :: "after_close \<Rightarrow> activity" where
  "closed_activity Retry = Sleeping"
| "closed_activity Finish = Stopped"

definition begin_drain :: "after_close \<Rightarrow> ('q, 'r) consumer \<Rightarrow> ('q, 'r) consumer" where
  "begin_drain k c =
     c\<lparr>ec_run := if ec_in_flight c = {} then Disconnecting k else Draining (ec_in_flight c) k\<rparr>"

text \<open>The beginning of \<open>close\<close>, up to its first \<open>await\<close>.\<close>

definition begin_close :: "after_close \<Rightarrow> ('q, 'r) consumer \<Rightarrow> ('q, 'r) consumer" where
  "begin_close k c =
     (if \<not> ec_connection c then c\<lparr>ec_run := closed_activity k\<rparr>
      else if ec_subscription c
      then c\<lparr>ec_connection := False, ec_subscription := False, ec_run := Unsubscribing k\<rparr>
      else begin_drain k (c\<lparr>ec_connection := False\<rparr>))"

definition set_progress :: "nat \<Rightarrow> string \<Rightarrow> progress \<Rightarrow> ('q, 'r) consumer \<Rightarrow> ('q, 'r) consumer" where
  "set_progress tag body p c = c\<lparr>ec_tasks := (ec_tasks c)(tag \<mapsto> (body, p))\<rparr>"

text \<open>The tasks of these messages are over; their \<open>finally\<close> takes them out of the set.\<close>

definition end_tasks :: "nat set \<Rightarrow> ('q, 'r) consumer \<Rightarrow> ('q, 'r) consumer" where
  "end_tasks ts c = c\<lparr>ec_tasks := (ec_tasks c) |` (- ts), ec_in_flight := ec_in_flight c - ts\<rparr>"

text \<open>The broker saw the connection close: what was not answered comes back.\<close>

definition channel_closed :: "'q amqp \<Rightarrow> ('q, 'r) consumer \<Rightarrow> ('q, 'r) consumer" where
  "channel_closed Q c = c\<lparr>ec_queue := aq_closed Q (ec_queue c), ec_returns := Suc (ec_returns c)\<rparr>"

text \<open>The process died and another one began: its memory is new, and the broker saw the connection close.\<close>

definition restarted :: "'q amqp \<Rightarrow> ('q, 'r) consumer \<Rightarrow> ('q, 'r) consumer" where
  "restarted Q c =
     (channel_closed Q c)\<lparr>ec_run := Starting, ec_connection := False, ec_subscription := False,
       ec_ready := False, ec_in_flight := {}, ec_tasks := Map.empty, ec_attached := False\<rparr>"

text \<open>A message is answered to the broker.\<close>

definition replied_with :: "'q amqp \<Rightarrow> settlement \<Rightarrow> nat \<Rightarrow> ('q, 'r) consumer \<Rightarrow> ('q, 'r) consumer" where
  "replied_with Q s tag c =
     c\<lparr>ec_queue := answer_delivery Q s tag (ec_queue c),
       ec_returns := (if s = Requeued then Suc (ec_returns c) else ec_returns c)\<rparr>"

section \<open>Its steps\<close>

text \<open>
  The steps are, in the order of the rules: \<open>_consume\<close> opens the connection, is registered by the broker and
  keeps the subscription; its failures and the cancellation of \<open>run\<close>, which lead to \<open>close\<close>; the rest of
  \<open>close\<close>, each part ended, failed, timed out or cancelled; the pause before another start; the
  loss of the connection, which the library opens again, and the death of the process; the delivery
  of a message and the steps of its task; a message that arrives, and whatever else the service does.
  A handler whose dependency failed left the world as it was, or had committed already.
\<close>

inductive consumer_step ::
  "'r env \<Rightarrow> settings \<Rightarrow> 'q amqp \<Rightarrow> ('q, 'r) consumer \<Rightarrow> ('q, 'r) consumer \<Rightarrow> bool" for E S Q where
  connection_opened: "ec_run c = Starting \<Longrightarrow>
    consumer_step E S Q c (c\<lparr>ec_run := Connecting, ec_connection := True\<rparr>)"
| registered: "ec_run c = Connecting \<Longrightarrow>
    consumer_step E S Q c (c\<lparr>ec_run := Subscribing, ec_attached := True\<rparr>)"
| subscribed: "ec_run c = Subscribing \<Longrightarrow>
    consumer_step E S Q c (c\<lparr>ec_run := Consuming, ec_subscription := True, ec_ready := True\<rparr>)"
| start_failed: "ec_run c = Connecting \<or> ec_run c = Subscribing \<Longrightarrow>
    consumer_step E S Q c (begin_close Retry c)"
| cancelled: "ec_run c \<in> {Starting, Connecting, Subscribing, Consuming, Sleeping} \<Longrightarrow>
    consumer_step E S Q c (begin_close Finish c)"
| unsubscribed: "ec_run c = Unsubscribing k \<Longrightarrow>
    consumer_step E S Q c (begin_drain k (c\<lparr>ec_attached := False\<rparr>))"
| unsubscribe_failed: "ec_run c = Unsubscribing k \<Longrightarrow>
    consumer_step E S Q c (begin_drain k c)"
| unsubscribe_cancelled: "ec_run c = Unsubscribing k \<Longrightarrow>
    consumer_step E S Q c (c\<lparr>ec_run := Stopped\<rparr>)"
| drained: "ec_run c = Draining ts k \<Longrightarrow> ts \<inter> ec_in_flight c = {} \<Longrightarrow>
    consumer_step E S Q c (c\<lparr>ec_run := Disconnecting k\<rparr>)"
| drain_timeout: "ec_run c = Draining ts k \<Longrightarrow>
    consumer_step E S Q c ((end_tasks ts c)\<lparr>ec_run := Disconnecting k\<rparr>)"
| drain_cancelled: "ec_run c = Draining ts k \<Longrightarrow>
    consumer_step E S Q c ((end_tasks ts c)\<lparr>ec_run := Stopped\<rparr>)"
| disconnected: "ec_run c = Disconnecting k \<Longrightarrow>
    consumer_step E S Q c
      ((channel_closed Q c)\<lparr>ec_run := closed_activity k, ec_attached := False\<rparr>)"
| disconnect_failed: "ec_run c = Disconnecting k \<Longrightarrow>
    consumer_step E S Q c (c\<lparr>ec_run := Stopped\<rparr>)"
| slept: "ec_run c = Sleeping \<Longrightarrow>
    consumer_step E S Q c (c\<lparr>ec_run := Starting\<rparr>)"
| connection_lost:
    "consumer_step E S Q c (channel_closed Q c)"
| process_died:
    "consumer_step E S Q c (restarted Q c)"
| delivered: "ec_attached c \<Longrightarrow> aq_deliver Q PREFETCH (ec_queue c) = Some ((tag, body, n), q') \<Longrightarrow>
    consumer_step E S Q c (set_progress tag body Delivered (c\<lparr>ec_queue := q'\<rparr>))"
| on_message: "ec_tasks c tag = Some (body, Delivered) \<Longrightarrow>
    consumer_step E S Q c
      (set_progress tag body Handling (c\<lparr>ec_in_flight := insert tag (ec_in_flight c)\<rparr>))"
| handled: "ec_tasks c tag = Some (body, Handling) \<Longrightarrow> settle E body (ec_service c) = (s, w') \<Longrightarrow>
    consumer_step E S Q c
      (set_progress tag body (if s = Requeued then Holding else Replying s) (c\<lparr>ec_service := w'\<rparr>))"
| dependency_failed: "ec_tasks c tag = Some (body, Handling) \<Longrightarrow>
    w' = ec_service c \<or> w' = snd (settle E body (ec_service c)) \<Longrightarrow>
    consumer_step E S Q c (set_progress tag body Holding (c\<lparr>ec_service := w'\<rparr>))"
| held_back: "ec_tasks c tag = Some (body, Holding) \<Longrightarrow>
    consumer_step E S Q c (set_progress tag body (Replying Requeued) c)"
| replied: "ec_tasks c tag = Some (body, Replying s) \<Longrightarrow>
    consumer_step E S Q c (end_tasks {tag} (replied_with Q s tag c))"
| reply_failed: "ec_tasks c tag = Some (body, Replying s) \<Longrightarrow>
    consumer_step E S Q c (end_tasks {tag} c)"
| arrived:
    "consumer_step E S Q c
      (c\<lparr>ec_queue := aq_arrive Q body (ec_queue c), ec_arrived := add_mset body (ec_arrived c)\<rparr>)"
| meanwhile: "later E S (ec_service c) w' \<Longrightarrow>
    consumer_step E S Q c (c\<lparr>ec_service := w'\<rparr>)"

definition consumer_runs ::
  "'r env \<Rightarrow> settings \<Rightarrow> 'q amqp \<Rightarrow> ('q, 'r) consumer \<Rightarrow> ('q, 'r) consumer \<Rightarrow> bool" where
  "consumer_runs E S Q = (consumer_step E S Q)\<^sup>*\<^sup>*"

text \<open>A consumer just built, on a queue nothing was delivered from yet.\<close>

definition fresh_consumer :: "'q amqp \<Rightarrow> ('q, 'r) consumer \<Rightarrow> bool" where
  "fresh_consumer Q c \<longleftrightarrow>
     ec_run c = Starting \<and> \<not> ec_connection c \<and> \<not> ec_subscription c \<and> \<not> ec_ready c \<and>
     ec_in_flight c = {} \<and> ec_tasks c = Map.empty \<and> \<not> ec_attached c \<and>
     aq_unacked Q (ec_queue c) = [] \<and> aq_dead Q (ec_queue c) = {#} \<and>
     (\<forall>m. m \<in># aq_ready Q (ec_queue c) \<longrightarrow> snd m = 0) \<and>
     ec_arrived c = bodies (aq_ready Q (ec_queue c))"

section \<open>No message is lost\<close>

text \<open>The event of this message is in the audit log.\<close>

definition recorded :: "'r env \<Rightarrow> string \<Rightarrow> 'r world \<Rightarrow> bool" where
  "recorded E body w \<longleftrightarrow>
     (\<exists>ev. model_validate_json E body = Some ev \<and> av_id ev \<in> ae_id ` set (admin_audit_log (w_db w)))"

lemma settle_later: "settle E body w = (s, w') \<Longrightarrow> later E S w w'"
  using later.event [OF later.start, of E S w body] by simp

lemma recorded_later:
  assumes "later E S w w'" and "constraints (w_db w)" and "recorded E body w"
  shows "recorded E body w'"
proof -
  have "prefix (admin_audit_log (w_db w)) (admin_audit_log (w_db w'))"
    using audit.later_keeps [OF assms(1), of "admin_audit_log (w_db w)"] assms(2) by (simp add: logged_def)
  with assms(3) show ?thesis by (auto simp: recorded_def prefix_def)
qed

lemma constraints_later: "later E S w w' \<Longrightarrow> constraints (w_db w) \<Longrightarrow> constraints (w_db w')"
  using audit.later_keeps [of E S w w' "[]"] by (simp add: logged_def)

lemma settle_Acked:
  assumes "settle E body w = (Acked, w')"
  shows "recorded E body w'"
proof -
  obtain ev where ev: "model_validate_json E body = Some ev"
    using assms by (cases "model_validate_json E body") (auto simp: settle_malformed)
  with assms have "session_scope E (audit_add (event_entry ev)) w = (Inr (), w')"
    by (auto simp: settle_def handle_event_def split: prod.splits sum.splits elim!: bnd_InrE)
  then have "ae_id (event_entry ev) \<in> ae_id ` set (admin_audit_log (w_db w'))"
    by (auto simp: session_scope_def audit_add_def Let_def split: prod.splits sum.splits if_splits)
  with ev show ?thesis by (auto simp: recorded_def event_entry_def)
qed

lemma settle_Rejected:
  assumes "settle E body w = (Rejected, w')"
  shows "model_validate_json E body = None"
  using assms
  by (cases "model_validate_json E body")
     (auto simp: settle_def handle_event_def split: prod.splits sum.splits event_outcome.splits elim!: bnd_InrE)

text \<open>
  What the task of a delivery may assume, and the accounts of the broker: \<open>returns\<close> bounds how often any
  of its messages was taken back.
\<close>

definition task_invariant ::
  "'r env \<Rightarrow> 'q amqp \<Rightarrow> 'q \<Rightarrow> 'r world \<Rightarrow> nat \<Rightarrow> string \<Rightarrow> progress \<Rightarrow> bool" where
  "task_invariant E Q q w tag body p \<longleftrightarrow>
     tag < aq_deliveries Q q \<and> (\<forall>m. (tag, m) \<in> set (aq_unacked Q q) \<longrightarrow> fst m = body) \<and>
     (p = Replying Acked \<longrightarrow> recorded E body w) \<and>
     (p = Replying Rejected \<longrightarrow> model_validate_json E body = None)"

definition broker_invariant ::
  "'r env \<Rightarrow> 'q amqp \<Rightarrow> 'q \<Rightarrow> string multiset \<Rightarrow> nat \<Rightarrow> 'r world \<Rightarrow> bool" where
  "broker_invariant E Q q arrived returns w \<longleftrightarrow>
     constraints (w_db w) \<and>
     (\<forall>body. recorded E body w \<or> count arrived body = count (bodies (at_broker Q q)) body) \<and>
     (\<forall>m. m \<in># aq_dead Q q \<longrightarrow> model_validate_json E (fst m) = None \<or> over_limit (aq_limit Q) m) \<and>
     (\<forall>m. m \<in># at_broker Q q \<longrightarrow> snd m \<le> returns) \<and>
     length (aq_unacked Q q) \<le> PREFETCH \<and>
     (\<forall>d \<in> set (aq_unacked Q q). fst d < aq_deliveries Q q)"

definition delivery_invariant :: "'r env \<Rightarrow> 'q amqp \<Rightarrow> ('q, 'r) consumer \<Rightarrow> bool" where
  "delivery_invariant E Q c \<longleftrightarrow>
     broker_invariant E Q (ec_queue c) (ec_arrived c) (ec_returns c) (ec_service c) \<and>
     (\<forall>tag body p. ec_tasks c tag = Some (body, p) \<longrightarrow>
        task_invariant E Q (ec_queue c) (ec_service c) tag body p)"

text \<open>What \<open>run\<close> and \<open>close\<close> know about the connection and the tasks.\<close>

definition control_invariant :: "'q amqp \<Rightarrow> ('q, 'r) consumer \<Rightarrow> bool" where
  "control_invariant Q c \<longleftrightarrow>
     (ec_run c \<in> {Connecting, Subscribing, Consuming} \<longrightarrow> ec_connection c) \<and>
     (ec_run c \<in> {Starting, Connecting, Sleeping} \<longrightarrow> \<not> ec_attached c \<and> aq_unacked Q (ec_queue c) = []) \<and>
     (ec_subscription c \<longleftrightarrow> ec_run c = Consuming)"

lemma bodies_simps [simp]:
  "bodies (M + N) = bodies M + bodies N" "bodies (add_mset m M) = add_mset (fst m) (bodies M)" "bodies {#} = {#}"
  by (simp_all add: bodies_def)

text \<open>Taking messages back loses none, and counts each once more.\<close>

lemma bodies_taken_back: "bodies (ready_again limit M) + bodies (given_up limit M) = bodies M"
proof -
  let ?M = "image_mset taken_back M"
  have "ready_again limit M + given_up limit M = ?M"
    unfolding ready_again_def given_up_def by (subst (3) multiset_partition [of _ "over_limit limit"]) simp
  then have "bodies (ready_again limit M) + bodies (given_up limit M) = bodies ?M" by (metis bodies_simps(1))
  also have "\<dots> = bodies M" by (simp add: bodies_def taken_back_def image_mset.compositionality o_def)
  finally show ?thesis .
qed

lemma taken_back_members:
  "m \<in># ready_again limit M \<Longrightarrow> \<exists>m0. m0 \<in># M \<and> snd m = Suc (snd m0)"
  "m \<in># given_up limit M \<Longrightarrow> (\<exists>m0. m0 \<in># M \<and> snd m = Suc (snd m0)) \<and> over_limit limit m"
  by (auto simp: ready_again_def given_up_def taken_back_def)

lemma unacked_split:
  "unacked_messages Q q = mset (map snd (without_delivery Q tag q)) + delivery_messages Q tag q"
proof -
  have "mset (map snd ds) = mset (map snd (filter (\<lambda>d. fst d \<noteq> tag) ds)) +
      mset (map snd (filter (\<lambda>d. fst d = tag) ds))" for ds :: "(nat \<times> message) list"
    by (induction ds) auto
  then show ?thesis by (simp add: unacked_messages_def without_delivery_def delivery_messages_def)
qed

lemma without_delivery_subset: "set (without_delivery Q tag q) \<subseteq> set (aq_unacked Q q)"
  "length (without_delivery Q tag q) \<le> length (aq_unacked Q q)"
  by (auto simp: without_delivery_def)

lemma task_messages:
  assumes "task_invariant E Q q w tag body p" and "m \<in># delivery_messages Q tag q"
  shows "fst m = body"
proof -
  have "(tag, m) \<in> set (aq_unacked Q q)" using assms(2) by (auto simp: delivery_messages_def)
  with assms(1) show ?thesis unfolding task_invariant_def by blast
qed

lemma task_invariant_less:
  assumes "task_invariant E Q q w tag body p"
    and "set (aq_unacked Q q') \<subseteq> set (aq_unacked Q q)" and "aq_deliveries Q q' = aq_deliveries Q q"
  shows "task_invariant E Q q' w tag body p"
  using assms by (auto simp: task_invariant_def)

lemma task_invariant_later:
  "task_invariant E Q q w tag body p \<Longrightarrow> later E S w w' \<Longrightarrow> constraints (w_db w) \<Longrightarrow>
     task_invariant E Q q w' tag body p"
  by (auto simp: task_invariant_def intro: recorded_later)

lemma broker_invariant_later:
  "broker_invariant E Q q a n w \<Longrightarrow> later E S w w' \<Longrightarrow> broker_invariant E Q q a n w'"
  unfolding broker_invariant_def by (blast intro: constraints_later recorded_later)

text \<open>A queue that has settled some deliveries, and lost no message that is not recorded.\<close>

lemma broker_invariant_settled:
  assumes "broker_invariant E Q q a n w"
    and "\<And>b. recorded E b w \<or> count (bodies (at_broker Q q')) b = count (bodies (at_broker Q q)) b"
    and "\<And>m. m \<in># aq_dead Q q' \<Longrightarrow> m \<in># aq_dead Q q \<or> model_validate_json E (fst m) = None \<or> over_limit (aq_limit Q) m"
    and "\<And>m. m \<in># at_broker Q q' \<Longrightarrow> snd m \<le> n'"
    and "set (aq_unacked Q q') \<subseteq> set (aq_unacked Q q)" and "length (aq_unacked Q q') \<le> length (aq_unacked Q q)"
    and "aq_deliveries Q q' = aq_deliveries Q q"
  shows "broker_invariant E Q q' a n' w"
proof -
  note inv = assms(1) [unfolded broker_invariant_def]
  have "recorded E b w \<or> count a b = count (bodies (at_broker Q q')) b" for b
    using inv assms(2) [of b] by auto
  moreover have "model_validate_json E (fst m) = None \<or> over_limit (aq_limit Q) m" if "m \<in># aq_dead Q q'" for m
    using inv assms(3) [OF that] by blast
  moreover have "fst d < aq_deliveries Q q'" if "d \<in> set (aq_unacked Q q')" for d
    using inv assms(5,7) that by auto
  moreover have "length (aq_unacked Q q') \<le> PREFETCH" using inv assms(6) by linarith
  ultimately show ?thesis using inv assms(4) unfolding broker_invariant_def by blast
qed

text \<open>The count of the returns after an answer.\<close>

definition returns_after :: "settlement \<Rightarrow> nat \<Rightarrow> nat" where
  "returns_after s n = (if s = Requeued then Suc n else n)"

context amqp_queue begin

lemmas queue_laws = arrive ack reject nack closed

lemma answer_shape:
  "aq_unacked Q (answer_delivery Q s tag q) = without_delivery Q tag q"
  "aq_deliveries Q (answer_delivery Q s tag q) = aq_deliveries Q q"
  by (cases s; simp add: queue_laws)+

lemma at_broker_ack: "at_broker Q q = at_broker Q (aq_ack Q tag q) + delivery_messages Q tag q"
  by (simp add: at_broker_def ack unacked_split [of Q q tag] unacked_messages_def [of Q "aq_ack Q tag q"])

lemma at_broker_reject: "at_broker Q (aq_reject Q tag q) = at_broker Q q"
  by (simp add: at_broker_def reject unacked_split [of Q q tag] unacked_messages_def [of Q "aq_reject Q tag q"])

lemma at_broker_nack:
  "at_broker Q (aq_nack Q tag q) = aq_ready Q q + mset (map snd (without_delivery Q tag q)) + aq_dead Q q +
     ready_again (aq_limit Q) (delivery_messages Q tag q) + given_up (aq_limit Q) (delivery_messages Q tag q)"
  by (simp add: at_broker_def nack unacked_messages_def)

lemma at_broker_closed:
  "at_broker Q (aq_closed Q q) = aq_ready Q q + aq_dead Q q +
     ready_again (aq_limit Q) (unacked_messages Q q) + given_up (aq_limit Q) (unacked_messages Q q)"
  by (simp add: at_broker_def closed unacked_messages_def)

lemma bodies_nack: "bodies (at_broker Q (aq_nack Q tag q)) = bodies (at_broker Q q)"
proof -
  have "bodies (at_broker Q (aq_nack Q tag q)) = bodies (aq_ready Q q) + bodies (mset (map snd (without_delivery Q tag q))) +
      bodies (aq_dead Q q) + (bodies (ready_again (aq_limit Q) (delivery_messages Q tag q)) +
      bodies (given_up (aq_limit Q) (delivery_messages Q tag q)))"
    by (simp only: at_broker_nack bodies_simps ac_simps)
  also have "\<dots> = bodies (at_broker Q q)"
    by (subst bodies_taken_back) (simp only: at_broker_def unacked_split [of Q q tag] bodies_simps ac_simps)
  finally show ?thesis .
qed

lemma bodies_closed: "bodies (at_broker Q (aq_closed Q q)) = bodies (at_broker Q q)"
proof -
  have "bodies (at_broker Q (aq_closed Q q)) = bodies (aq_ready Q q) + bodies (aq_dead Q q) +
      (bodies (ready_again (aq_limit Q) (unacked_messages Q q)) + bodies (given_up (aq_limit Q) (unacked_messages Q q)))"
    by (simp only: at_broker_closed bodies_simps ac_simps)
  also have "\<dots> = bodies (at_broker Q q)"
    by (subst bodies_taken_back) (simp only: at_broker_def bodies_simps ac_simps)
  finally show ?thesis .
qed

text \<open>What was counted up to \<open>n\<close> times is counted up to \<open>Suc n\<close> times when it comes back.\<close>

lemma counts_taken_back:
  assumes "\<And>m. m \<in># M \<Longrightarrow> snd m \<le> n" and "m \<in># ready_again limit M \<or> m \<in># given_up limit M"
  shows "snd m \<le> Suc n"
  using assms(2) taken_back_members [of m limit M] assms(1) by fastforce

lemma counts_returned:
  assumes "\<And>m. m \<in># at_broker Q q \<Longrightarrow> snd m \<le> n"
  shows "m \<in># at_broker Q (aq_nack Q tag q) \<Longrightarrow> snd m \<le> Suc n"
    and "m \<in># at_broker Q (aq_closed Q q) \<Longrightarrow> snd m \<le> Suc n"
proof -
  have all: "m \<in># aq_ready Q q \<or> m \<in># aq_dead Q q \<or> m \<in># unacked_messages Q q \<Longrightarrow> snd m \<le> n" for m
    using assms [of m] by (auto simp: at_broker_def)
  have parts: "m \<in># delivery_messages Q tag q \<or> m \<in># mset (map snd (without_delivery Q tag q)) \<Longrightarrow> snd m \<le> n" for m
    using all [of m] unacked_split [of Q q tag] by auto
  show "m \<in># at_broker Q (aq_nack Q tag q) \<Longrightarrow> snd m \<le> Suc n"
    unfolding at_broker_nack union_iff
    using counts_taken_back [of "delivery_messages Q tag q" n m "aq_limit Q"] all [of m] parts by (meson le_SucI)
  show "m \<in># at_broker Q (aq_closed Q q) \<Longrightarrow> snd m \<le> Suc n"
    unfolding at_broker_closed union_iff
    using counts_taken_back [of "unacked_messages Q q" n m "aq_limit Q"] all by (meson le_SucI)
qed

lemma broker_counts: "broker_invariant E Q q a n w \<Longrightarrow> m \<in># at_broker Q q \<Longrightarrow> snd m \<le> n"
  unfolding broker_invariant_def by blast

lemma answer_keeps:
  assumes inv: "broker_invariant E Q q a n w" and task: "task_invariant E Q q w tag body (Replying s)"
  shows "broker_invariant E Q (answer_delivery Q s tag q) a (returns_after s n) w"
proof (cases s)
  case Acked
  have "count (bodies (at_broker Q (aq_ack Q tag q))) b = count (bodies (at_broker Q q)) b" if "b \<noteq> body" for b
  proof -
    have "b \<notin># bodies (delivery_messages Q tag q)" using task_messages [OF task] that by (auto simp: bodies_def)
    then show ?thesis by (simp add: at_broker_ack [of q tag] not_in_iff)
  qed
  moreover have "recorded E body w" using task Acked by (simp add: task_invariant_def)
  ultimately have "recorded E b w \<or> count (bodies (at_broker Q (aq_ack Q tag q))) b = count (bodies (at_broker Q q)) b"
    for b by metis
  moreover have "m \<in># at_broker Q (aq_ack Q tag q) \<Longrightarrow> snd m \<le> n" for m
    using broker_counts [OF inv, of m] at_broker_ack [of q tag] by simp
  ultimately show ?thesis
    using Acked without_delivery_subset [of Q tag q]
    by (intro broker_invariant_settled [OF inv]) (auto simp: ack returns_after_def)
next
  case Rejected
  have "model_validate_json E body = None" using task Rejected by (simp add: task_invariant_def)
  then have "m \<in># delivery_messages Q tag q \<Longrightarrow> model_validate_json E (fst m) = None" for m
    using task_messages [OF task] by metis
  then show ?thesis
    using Rejected without_delivery_subset [of Q tag q] broker_counts [OF inv]
    by (intro broker_invariant_settled [OF inv]) (auto simp: reject at_broker_reject returns_after_def)
next
  case Requeued
  have "m \<in># at_broker Q (aq_nack Q tag q) \<Longrightarrow> snd m \<le> Suc n" for m
    using counts_returned(1) [OF broker_counts [OF inv]] .
  then show ?thesis
    using Requeued without_delivery_subset [of Q tag q]
    by (intro broker_invariant_settled [OF inv])
       (auto simp: nack bodies_nack returns_after_def dest: taken_back_members(2))
qed

lemma closed_keeps:
  assumes inv: "broker_invariant E Q q a n w"
  shows "broker_invariant E Q (aq_closed Q q) a (Suc n) w"
proof (rule broker_invariant_settled [OF inv])
  show "m \<in># at_broker Q (aq_closed Q q) \<Longrightarrow> snd m \<le> Suc n" for m
    using counts_returned(2) [OF broker_counts [OF inv]] .
qed (auto simp: bodies_closed closed dest: taken_back_members(2))

lemma arrive_keeps:
  "broker_invariant E Q q a n w \<Longrightarrow> broker_invariant E Q (aq_arrive Q body q) (add_mset body a) n w"
  by (auto simp: broker_invariant_def arrive at_broker_def unacked_messages_def)

lemma deliver_keeps:
  assumes "broker_invariant E Q q a n w" and "aq_deliver Q PREFETCH q = Some ((tag, body, k), q')"
  shows "broker_invariant E Q q' a n w" and "task_invariant E Q q' w tag body Delivered"
    and "task_invariant E Q q w tag' b p \<Longrightarrow> tag' \<noteq> tag \<and> task_invariant E Q q' w tag' b p"
proof -
  note q' = deliver [OF assms(2)]
  then have "at_broker Q q' = at_broker Q q" by (simp add: at_broker_def unacked_messages_def)
  with assms(1) q' show "broker_invariant E Q q' a n w"
    by (auto simp: broker_invariant_def less_Suc_eq)
  from assms(1) q' show "task_invariant E Q q' w tag body Delivered"
    by (fastforce simp: broker_invariant_def task_invariant_def)
  from q' show "task_invariant E Q q w tag' b p \<Longrightarrow> tag' \<noteq> tag \<and> task_invariant E Q q' w tag' b p"
    by (auto simp: task_invariant_def)
qed

end

text \<open>The parts of a state that \<open>delivery_invariant\<close> speaks of, one changed at a time.\<close>

lemma fewer_tasks:
  assumes "delivery_invariant E Q c" and "ec_tasks c' \<subseteq>\<^sub>m ec_tasks c"
    and "ec_queue c' = ec_queue c" and "ec_arrived c' = ec_arrived c" and "ec_returns c' = ec_returns c"
    and "ec_service c' = ec_service c"
  shows "delivery_invariant E Q c'"
proof -
  have "ec_tasks c tag = Some x" if "ec_tasks c' tag = Some x" for tag x
    using assms(2) that by (auto simp: map_le_def dest: bspec [where x = tag])
  with assms show ?thesis by (auto simp: delivery_invariant_def)
qed

lemma service_later:
  assumes "delivery_invariant E Q c" and "later E S (ec_service c) w'"
  shows "delivery_invariant E Q (c\<lparr>ec_service := w'\<rparr>)"
proof -
  have "constraints (w_db (ec_service c))"
    using assms(1) by (simp add: delivery_invariant_def broker_invariant_def)
  note tasks = task_invariant_later [OF _ assms(2) this]
  from assms(1) show ?thesis
    by (simp add: delivery_invariant_def tasks broker_invariant_later [OF _ assms(2)])
qed

lemma progress_set:
  "delivery_invariant E Q c \<Longrightarrow> task_invariant E Q (ec_queue c) (ec_service c) tag body p \<Longrightarrow>
     delivery_invariant E Q (set_progress tag body p c)"
  by (simp add: delivery_invariant_def set_progress_def)

lemma next_progress:
  assumes "delivery_invariant E Q c" and "ec_tasks c tag = Some (body, p)"
    and "later E S (ec_service c) w'"
    and "p' = Replying Acked \<Longrightarrow> recorded E body w'"
    and "p' = Replying Rejected \<Longrightarrow> model_validate_json E body = None"
  shows "delivery_invariant E Q (set_progress tag body p' (c\<lparr>ec_service := w'\<rparr>))"
proof (rule progress_set [OF service_later [OF assms(1,3)]])
  have "task_invariant E Q (ec_queue c) w' tag body p"
    using service_later [OF assms(1,3)] assms(2) by (simp add: delivery_invariant_def)
  then show "task_invariant E Q (ec_queue (c\<lparr>ec_service := w'\<rparr>)) (ec_service (c\<lparr>ec_service := w'\<rparr>)) tag body p'"
    using assms(4,5) by (simp add: task_invariant_def)
qed

lemma same_service:
  assumes "delivery_invariant E Q c" and "ec_tasks c tag = Some (body, p)"
    and "p' = Handling \<or> p' = Holding \<or> p' = Replying Requeued"
  shows "delivery_invariant E Q (set_progress tag body p' (c\<lparr>ec_in_flight := F\<rparr>))"
proof -
  have "delivery_invariant E Q (set_progress tag body p' (c\<lparr>ec_service := ec_service c\<rparr>))"
    using assms(3) by (intro next_progress [OF assms(1,2) later.start]) auto
  then show ?thesis by (rule fewer_tasks) (simp_all add: set_progress_def)
qed

lemma queue_changed:
  assumes "delivery_invariant E Q c" and "broker_invariant E Q q (ec_arrived c) n (ec_service c)"
    and "set (aq_unacked Q q) \<subseteq> set (aq_unacked Q (ec_queue c))"
    and "aq_deliveries Q q = aq_deliveries Q (ec_queue c)"
  shows "delivery_invariant E Q (c\<lparr>ec_queue := q, ec_returns := n\<rparr>)"
  using assms task_invariant_less by (fastforce simp: delivery_invariant_def)

lemma begin_close_fields [simp]:
  "ec_tasks (begin_close k c) = ec_tasks c" "ec_queue (begin_close k c) = ec_queue c"
  "ec_arrived (begin_close k c) = ec_arrived c" "ec_service (begin_close k c) = ec_service c"
  "ec_returns (begin_close k c) = ec_returns c" "ec_returns (begin_drain k c) = ec_returns c"
  "ec_tasks (begin_drain k c) = ec_tasks c" "ec_queue (begin_drain k c) = ec_queue c"
  "ec_arrived (begin_drain k c) = ec_arrived c" "ec_service (begin_drain k c) = ec_service c"
  by (simp_all add: begin_close_def begin_drain_def)

lemma restricted_le [simp]: "m |` A \<subseteq>\<^sub>m m"
  by (auto simp: map_le_def)

lemma end_tasks_fields [simp]:
  "ec_tasks (end_tasks ts c) = ec_tasks c |` (- ts)" "ec_queue (end_tasks ts c) = ec_queue c"
  "ec_arrived (end_tasks ts c) = ec_arrived c" "ec_service (end_tasks ts c) = ec_service c"
  "ec_returns (end_tasks ts c) = ec_returns c"
  by (simp_all add: end_tasks_def)

lemma fresh_invariant:
  assumes "fresh_consumer Q c" and "constraints (w_db (ec_service c))"
  shows "delivery_invariant E Q c" and "control_invariant Q c"
  using assms
  by (auto simp: fresh_consumer_def delivery_invariant_def broker_invariant_def control_invariant_def at_broker_def
      unacked_messages_def)

context amqp_queue begin

lemma closed_delivery: "delivery_invariant E Q c \<Longrightarrow> delivery_invariant E Q (channel_closed Q c)"
  unfolding channel_closed_def by (rule queue_changed) (simp_all add: closed closed_keeps delivery_invariant_def)

lemma arrive_delivery:
  assumes "delivery_invariant E Q c"
  shows "delivery_invariant E Q
    (c\<lparr>ec_queue := aq_arrive Q body (ec_queue c), ec_arrived := add_mset body (ec_arrived c)\<rparr>)"
proof -
  have "task_invariant E Q (aq_arrive Q body q) w tag b p" if "task_invariant E Q q w tag b p"
    for q w tag b p
    by (rule task_invariant_less [OF that]) (simp_all add: arrive)
  with assms show ?thesis by (simp add: delivery_invariant_def arrive_keeps)
qed

lemma deliver_delivery:
  assumes "delivery_invariant E Q c" and "aq_deliver Q PREFETCH (ec_queue c) = Some ((tag, body, k), q')"
  shows "delivery_invariant E Q (set_progress tag body Delivered (c\<lparr>ec_queue := q'\<rparr>))"
proof -
  have b: "broker_invariant E Q (ec_queue c) (ec_arrived c) (ec_returns c) (ec_service c)"
    using assms(1) by (simp add: delivery_invariant_def)
  note kept = deliver_keeps [OF b assms(2)]
  have "task_invariant E Q q' (ec_service c) t b p" if "ec_tasks c t = Some (b, p)" for t b p
    using kept(3) assms(1) that by (simp add: delivery_invariant_def)
  with kept(1) have "delivery_invariant E Q (c\<lparr>ec_queue := q'\<rparr>)" by (simp add: delivery_invariant_def)
  from progress_set [OF this] kept(2) show ?thesis by simp
qed

lemma step_delivery:
  assumes "consumer_step E S Q c c'" and "delivery_invariant E Q c"
  shows "delivery_invariant E Q c'"
  using assms
proof (cases rule: consumer_step.cases)
  case (handled tag body s w')
  then show ?thesis
    by (auto intro!: next_progress [OF assms(2) _ settle_later] dest: settle_Acked settle_Rejected)
next
  case (dependency_failed tag body w')
  then have "later E S (ec_service c) w'"
    using settle_later [of E body "ec_service c", OF prod.collapse [symmetric]] later.start by blast
  with dependency_failed show ?thesis by (auto intro!: next_progress [OF assms(2)])
next
  case (replied tag body s)
  have "task_invariant E Q (ec_queue c) (ec_service c) tag body (Replying s)"
    using assms(2) replied(2) by (simp add: delivery_invariant_def)
  from answer_keeps [OF _ this] assms(2) have "delivery_invariant E Q (replied_with Q s tag c)"
    unfolding replied_with_def returns_after_def [symmetric]
    by (intro queue_changed) (auto simp: answer_shape without_delivery_def delivery_invariant_def)
  then show ?thesis unfolding replied(1) by (rule fewer_tasks) simp_all
next
  case (delivered tag body k q')
  with deliver_delivery [OF assms(2)] show ?thesis by simp
next
  case (arrived body)
  with arrive_delivery [OF assms(2)] show ?thesis by simp
next
  case (meanwhile w')
  with service_later [OF assms(2)] show ?thesis by simp
next
  case process_died
  show ?thesis unfolding process_died
    by (rule fewer_tasks [OF closed_delivery [OF assms(2)]]) (simp_all add: restarted_def)
next
  case (disconnected k)
  then show ?thesis by (intro fewer_tasks [OF closed_delivery [OF assms(2)]]) simp_all
next
  case connection_lost
  with closed_delivery [OF assms(2)] show ?thesis by simp
next
  case (on_message tag body)
  with same_service [OF assms(2)] show ?thesis by simp
next
  case (held_back tag body)
  with same_service [OF assms(2), of tag body Holding "Replying Requeued" "ec_in_flight c"] show ?thesis by simp
qed (rule fewer_tasks [OF assms(2)], simp_all)+

lemma unacked_none: "aq_unacked Q q = [] \<Longrightarrow> aq_unacked Q (answer_delivery Q s tag q) = []"
  by (simp add: answer_shape without_delivery_def)

lemma step_control:
  assumes "consumer_step E S Q c c'" and "control_invariant Q c"
  shows "control_invariant Q c'"
  using assms
  by (cases rule: consumer_step.cases)
     (auto simp: control_invariant_def begin_close_def begin_drain_def set_progress_def end_tasks_def
        restarted_def channel_closed_def replied_with_def closed arrive unacked_none elim!: closed_activity.elims)

lemma runs_invariant:
  assumes "consumer_runs E S Q c c'" and "delivery_invariant E Q c" and "control_invariant Q c"
  shows "delivery_invariant E Q c' \<and> control_invariant Q c'"
  using assms unfolding consumer_runs_def
  by (induction rule: rtranclp_induct) (auto dest: step_delivery step_control)

end

end
