(* ===== verification/Delivery_Properties.thy ===== *)
theory Delivery_Properties
  imports Event_Delivery Messaging_Properties
begin

text \<open>
  The property of the event consumer over its whole life, and the outage after which a valid event is a dead
  letter.
\<close>

text \<open>
  C37. The consumer loses no message. Whatever happens, in any order - deliveries, handlers that fail before
  or after their commit, answers that do not reach the broker, lost connections, starts that fail,
  timeouts, cancellations, a process that dies, and everything else the service does - a message that
  arrived has its event in the audit log, or every copy of it that arrived is still at the broker: in the
  queue, delivered and not answered, or among the dead letters. A dead letter is not a valid event, or
  the queue has a delivery limit and took the message back more often than that; so a valid event becomes
  one only when the queue has taken messages back, for failures of the handler, lost connections and
  restarts together, more often than its limit. At most \<open>PREFETCH\<close> messages are delivered and not
  answered, and none while the consumer is not connected and waits to start again.
\<close>

theorem no_message_lost:
  assumes "amqp_queue Q" and "fresh_consumer Q c" and "constraints (w_db (ec_service c))"
    and "consumer_runs E S Q c c'"
  shows "(\<forall>body. recorded E body (ec_service c') \<or>
      count (ec_arrived c') body = count (bodies (at_broker Q (ec_queue c'))) body) \<and>
    (\<forall>body n. (body, n) \<in># aq_dead Q (ec_queue c') \<longrightarrow> model_validate_json E body = None \<or>
      (\<exists>limit. aq_limit Q = Some limit \<and> limit < n \<and> n \<le> ec_returns c')) \<and>
    length (aq_unacked Q (ec_queue c')) \<le> PREFETCH \<and>
    (ec_run c' \<in> {Starting, Connecting, Sleeping} \<longrightarrow> aq_unacked Q (ec_queue c') = [])"
proof -
  from amqp_queue.runs_invariant [OF assms(1,4) fresh_invariant [OF assms(2,3)]]
  have inv: "broker_invariant E Q (ec_queue c') (ec_arrived c') (ec_returns c') (ec_service c')"
    and "control_invariant Q c'" by (auto simp: delivery_invariant_def)
  moreover have "model_validate_json E body = None \<or> (\<exists>limit. aq_limit Q = Some limit \<and> limit < n \<and> n \<le> ec_returns c')"
    if dead: "(body, n) \<in># aq_dead Q (ec_queue c')" for body n
  proof -
    have "(body, n) \<in># at_broker Q (ec_queue c')" using dead by (simp add: at_broker_def)
    then have "n \<le> ec_returns c'" using inv by (auto dest: amqp_queue.broker_counts [OF assms(1)])
    moreover have "model_validate_json E body = None \<or> over_limit (aq_limit Q) (body, n)"
      using inv dead by (fastforce simp: broker_invariant_def)
    ultimately show ?thesis by (auto simp: over_limit_def split: option.splits)
  qed
  ultimately show ?thesis by (simp add: broker_invariant_def control_invariant_def)
qed

text \<open>What RabbitMQ 4 does with a quorum queue that declares no limit.\<close>

definition DELIVERY_LIMIT :: nat where "DELIVERY_LIMIT = 20"

abbreviation rabbitmq :: "listed_queue amqp" where
  "rabbitmq \<equiv> listed_amqp (Some DELIVERY_LIMIT)"

definition demo_consumer :: "string list \<Rightarrow> (listed_queue, keyspace) consumer" where
  "demo_consumer ready =
     \<lparr> ec_run = Starting, ec_connection = False, ec_subscription = False, ec_ready = False,
       ec_in_flight = {}, ec_tasks = Map.empty, ec_attached = False,
       ec_queue = \<lparr> lq_ready = map (\<lambda>b. (b, 0)) ready, lq_unacked = [], lq_dead = [], lq_deliveries = 0 \<rparr>,
       ec_arrived = mset ready, ec_returns = 0, ec_service = demo_world \<rparr>"

lemma demo_fresh: "fresh_consumer (listed_amqp limit) (demo_consumer ready)"
  by (auto simp: fresh_consumer_def demo_consumer_def listed_amqp_def bodies_def image_mset.compositionality o_def)

text \<open>The process dies while it handles its first message, which is then in the queue again.\<close>

definition demo_died :: "(listed_queue, keyspace) consumer" where
  "demo_died = restarted rabbitmq
     (set_progress 0 ''event'' Delivered ((demo_consumer [''event''])\<lparr>ec_run := Connecting,
        ec_connection := True, ec_run := Subscribing, ec_attached := True, ec_queue := \<lparr> lq_ready = [], lq_unacked = [(0, ''event'', 0)], lq_dead = [],
          lq_deliveries = 1 \<rparr>\<rparr>))"

lemma demo_died_runs: "consumer_runs delivering_env demo_settings rabbitmq (demo_consumer [''event'']) demo_died"
proof -
  let ?step = "consumer_step delivering_env demo_settings rabbitmq"
  let ?c = "demo_consumer [''event'']"
  let ?c1 = "?c\<lparr>ec_run := Connecting, ec_connection := True\<rparr>"
  let ?c2 = "?c1\<lparr>ec_run := Subscribing, ec_attached := True\<rparr>"
  let ?q = "\<lparr> lq_ready = [], lq_unacked = [(0, ''event'', 0)], lq_dead = [], lq_deliveries = 1 \<rparr>"
  let ?c3 = "set_progress 0 ''event'' Delivered (?c2\<lparr>ec_queue := ?q\<rparr>)"
  have "?step ?c ?c1" by (rule connection_opened) (simp add: demo_consumer_def)
  moreover have "?step ?c1 ?c2" by (rule registered) simp
  moreover have "?step ?c2 ?c3"
    by (rule delivered) (simp_all add: listed_amqp_def demo_consumer_def PREFETCH_def)
  moreover have "?step ?c3 demo_died"
    unfolding demo_died_def by (rule process_died)
  ultimately show ?thesis
    unfolding consumer_runs_def by (meson converse_rtranclp_into_rtranclp rtranclp.rtrancl_refl)
qed

theorem no_message_lost_witness:
  "count (bodies (at_broker rabbitmq (ec_queue demo_died))) ''event'' = 1 \<and>
   filter_mset (\<lambda>m. model_validate_json delivering_env (fst m) \<noteq> None) (aq_dead rabbitmq (ec_queue demo_died)) = {#}"
proof -
  have d: "constraints (w_db (ec_service (demo_consumer [''event''])))"
    using demo_constraints by (simp add: demo_consumer_def)
  have died: "\<not> recorded delivering_env ''event'' (ec_service demo_died)"
      "count (ec_arrived demo_died) ''event'' = 1" "ec_returns demo_died = 1"
    by (simp_all add: recorded_def demo_died_def restarted_def channel_closed_def set_progress_def demo_consumer_def
        demo_db_def empty_db_def)
  note kept = no_message_lost [OF listed.amqp_queue_axioms demo_fresh d demo_died_runs]
  have "count (bodies (at_broker rabbitmq (ec_queue demo_died))) ''event'' = 1"
    using kept [THEN conjunct1] died(1,2) by metis
  moreover have "model_validate_json delivering_env body = None"
    if "(body, n) \<in># aq_dead rabbitmq (ec_queue demo_died)" for body n
    using kept [THEN conjunct2, THEN conjunct1, rule_format, OF that] died(3)
    by (auto simp: listed_amqp_def DELIVERY_LIMIT_def)
  ultimately show ?thesis by (auto simp: filter_mset_eq_mempty_iff)
qed

section \<open>An outage that lasts\<close>

text \<open>
  A consumer that waits with one message in the queue, taken back \<open>n\<close> times so far, in a service whose
  database does not answer.
\<close>

definition waiting :: "string \<Rightarrow> nat \<Rightarrow> (listed_queue, 'r) consumer \<Rightarrow> bool" where
  "waiting body n c \<longleftrightarrow>
     ec_attached c \<and> ec_tasks c = Map.empty \<and> ec_in_flight c = {} \<and>
     lq_ready (ec_queue c) = [(body, n)] \<and> lq_unacked (ec_queue c) = [] \<and> lq_dead (ec_queue c) = []"

text \<open>One more delivery: the handler fails, the task holds the message back and returns it.\<close>

lemma outage_round:
  assumes "waiting body n c"
  shows "\<exists>c'. consumer_runs E S (listed_amqp (Some limit)) c c' \<and> ec_service c' = ec_service c \<and>
    (if n < limit then waiting body (Suc n) c' else lq_dead (ec_queue c') = [(body, Suc n)])"
proof -
  let ?Q = "listed_amqp (Some limit)" and ?tag = "lq_deliveries (ec_queue c)"
  let ?step = "consumer_step E S ?Q"
  let ?q = "(ec_queue c)\<lparr>lq_ready := [], lq_unacked := [(?tag, body, n)], lq_deliveries := Suc ?tag\<rparr>"
  let ?c1 = "set_progress ?tag body Delivered (c\<lparr>ec_queue := ?q\<rparr>)"
  let ?c2 = "set_progress ?tag body Handling (?c1\<lparr>ec_in_flight := insert ?tag (ec_in_flight ?c1)\<rparr>)"
  let ?c3 = "set_progress ?tag body Holding (?c2\<lparr>ec_service := ec_service ?c2\<rparr>)"
  let ?c4 = "set_progress ?tag body (Replying Requeued) ?c3"
  let ?c5 = "end_tasks {?tag} (replied_with ?Q Requeued ?tag ?c4)"
  have "?step c ?c1"
    using assms by (intro delivered [where n = n]) (simp_all add: waiting_def listed_amqp_def PREFETCH_def)
  moreover have "?step ?c1 ?c2" by (rule on_message) (simp add: set_progress_def)
  moreover have "?step ?c2 ?c3" by (rule dependency_failed) (simp_all add: set_progress_def)
  moreover have "?step ?c3 ?c4" by (rule held_back) (simp add: set_progress_def)
  moreover have "?step ?c4 ?c5" by (rule replied) (simp add: set_progress_def)
  ultimately have "consumer_runs E S ?Q c ?c5"
    unfolding consumer_runs_def by (meson converse_rtranclp_into_rtranclp rtranclp.rtrancl_refl)
  moreover have "ec_service ?c5 = ec_service c" by (simp add: replied_with_def set_progress_def)
  moreover have "if n < limit then waiting body (Suc n) ?c5 else lq_dead (ec_queue ?c5) = [(body, Suc n)]"
    using assms
    by (auto simp: waiting_def end_tasks_def replied_with_def set_progress_def listed_defs over_limit_def
        taken_back_def restrict_map_def)
  ultimately show ?thesis by blast
qed

text \<open>
  With the limit of RabbitMQ 4, twenty-one failures of the handler in a row, each held back for
  \<open>retry_seconds\<close>, make a dead letter of a valid event that was never recorded: an outage of the database of
  less than two minutes is enough.
\<close>

lemma outage_dead_letters:
  assumes "waiting body 0 c"
  shows "\<exists>c'. consumer_runs E S rabbitmq c c' \<and> ec_service c' = ec_service c \<and>
    lq_dead (ec_queue c') = [(body, Suc DELIVERY_LIMIT)]"
proof -
  have "n \<le> DELIVERY_LIMIT \<Longrightarrow>
      \<exists>c'. consumer_runs E S rabbitmq c c' \<and> ec_service c' = ec_service c \<and> waiting body n c'" for n
  proof (induction n)
    case 0
    with assms show ?case by (auto simp: consumer_runs_def)
  next
    case (Suc n)
    then obtain c1 where c1: "consumer_runs E S rabbitmq c c1" "ec_service c1 = ec_service c" "waiting body n c1" by auto
    from outage_round [OF c1(3), of E S DELIVERY_LIMIT] c1 Suc.prems show ?case
      unfolding consumer_runs_def by (auto intro: rtranclp_trans)
  qed
  then obtain c1 where c1: "consumer_runs E S rabbitmq c c1" "ec_service c1 = ec_service c"
      "waiting body DELIVERY_LIMIT c1" by blast
  from outage_round [OF c1(3), of E S DELIVERY_LIMIT] c1 show ?thesis
    unfolding consumer_runs_def by (auto intro: rtranclp_trans)
qed

end
