(* ===== verification/Url_Routing.thy ===== *)
theory Url_Routing
  imports Access_Control
begin

text \<open>
  From a method and a path to a handler: the prefixes and decorators of the routers in \<open>api/*.py\<close>, the
  order \<open>main.py\<close> includes them in, and how Starlette chooses among the routes: the first whose method
  and path both match. A request of \<open>Routes\<close> is what arrives at a handler; here it is shown to be
  the handler its own method and path lead to. The redirection of a path with a slash at its end is
  left out.
\<close>

section \<open>Paths and patterns\<close>

datatype http_method = GET | POST | PATCH | DELETE

datatype segment = Literal string | Path_parameter

fun split_on :: "char \<Rightarrow> string \<Rightarrow> string list" where
  "split_on c [] = [[]]"
| "split_on c (x # xs) =
     (if x = c then [] # split_on c xs
      else (case split_on c xs of [] \<Rightarrow> [[x]] | part # parts \<Rightarrow> (x # part) # parts))"

text \<open>A part in braces stands for any text without a slash, of at least one character.\<close>

definition segment_of :: "string \<Rightarrow> segment" where
  "segment_of part =
     (if part \<noteq> [] \<and> hd part = CHR ''{'' \<and> last part = CHR ''}'' then Path_parameter else Literal part)"

definition compile_path :: "string \<Rightarrow> segment list" where
  "compile_path pattern = map segment_of (split_on (CHR ''/'') pattern)"

fun match_segments :: "segment list \<Rightarrow> string list \<Rightarrow> string list option" where
  "match_segments [] [] = Some []"
| "match_segments (Literal s # ss) (p # ps) = (if p = s then match_segments ss ps else None)"
| "match_segments (Path_parameter # ss) (p # ps) =
     (if p = [] then None else map_option ((#) p) (match_segments ss ps))"
| "match_segments _ _ = None"

section \<open>The routes\<close>

type_synonym routes = "(http_method \<times> string \<times> string) list"

text \<open>\<open>APIRouter(prefix=...)\<close> and \<open>include_router(..., prefix=...)\<close> put a prefix before every path.\<close>

definition prefixed :: "string \<Rightarrow> routes \<Rightarrow> routes" where
  "prefixed start table = map (\<lambda>(m, path, handler). (m, start @ path, handler)) table"

definition health_router :: routes where
  "health_router = [(GET, ''/healthcheck'', ''healthcheck''), (GET, ''/livez'', ''livez'')]"

definition internal_router :: routes where
  "internal_router = prefixed ''/internal''
     [(POST, ''/users/{user_id}/review'', ''put_under_review''),
      (DELETE, ''/users/{user_id}/review'', ''lift_review''),
      (GET, ''/users/{user_id}/profile'', ''get_public_profile''),
      (GET, ''/administrators/{actor_id}/identity'', ''administrator_identity'')]"

definition auth_router :: routes where
  "auth_router = prefixed ''/auth''
     [(POST, ''/register'', ''register''), (POST, ''/verify'', ''verify''), (GET, ''/verify'', ''verify_from_link''),
      (POST, ''/resend-verification'', ''resend_verification''), (POST, ''/login'', ''login''),
      (POST, ''/refresh'', ''refresh''), (POST, ''/logout'', ''logout'')]"

definition admin_auth_router :: routes where
  "admin_auth_router = prefixed ''/admin/auth'' [(POST, ''/login'', ''admin_login'')]"

definition admin_users_router :: routes where
  "admin_users_router = prefixed ''/admin/users''
     [(POST, [], ''create_administrator''),
      (POST, ''/{user_id}/reset-temporary-password'', ''reset_temporary_password''),
      (GET, [], ''list_administrators'')]"

definition admin_user_accounts_router :: routes where
  "admin_user_accounts_router = prefixed ''/admin/users''
     [(GET, ''/search'', ''search_accounts''), (GET, ''/{user_id}'', ''account_detail''),
      (POST, ''/{user_id}/block'', ''block_account'')]"

definition admin_metrics_router :: routes where
  "admin_metrics_router = prefixed ''/admin/metrics'' [(GET, [], ''account_metrics'')]"

definition password_reset_router :: routes where
  "password_reset_router = prefixed ''/auth''
     [(POST, ''/forgot-password'', ''forgot_password''), (POST, ''/reset-password'', ''reset_password'')]"

definition password_change_router :: routes where
  "password_change_router = prefixed ''/me'' [(POST, ''/change-password'', ''change_password'')]"

definition account_deletion_router :: routes where
  "account_deletion_router = prefixed ''/me'' [(DELETE, [], ''delete_account'')]"

definition feedback_router :: routes where
  "feedback_router = prefixed ''/me'' [(POST, ''/feedback'', ''submit_feedback'')]"

definition profile_router :: routes where
  "profile_router = prefixed ''/me'' [(GET, [], ''get_profile''), (PATCH, [], ''update_profile'')]"

definition search_router :: routes where
  "search_router = prefixed ''/search'' [(GET, ''/users'', ''search_users'')]"

definition preferences_router :: routes where
  "preferences_router = prefixed ''/me/preferences''
     [(GET, [], ''get_preferences''), (PATCH, [], ''update_preferences'')]"

definition audit_router :: routes where
  "audit_router = prefixed ''/admin/audit'' [(GET, [], ''list_audit_entries'')]"

text \<open>The routes of the application, in the order of \<open>main.py\<close>.\<close>

definition app_routes :: routes where
  "app_routes =
     health_router @ internal_router @
     concat (map (prefixed API_PREFIX)
       [auth_router, admin_auth_router, admin_users_router, admin_user_accounts_router,
        admin_metrics_router, password_reset_router, password_change_router, account_deletion_router,
        feedback_router, profile_router, search_router, preferences_router, audit_router])"

text \<open>Starlette reads the pattern of a route when it is added.\<close>

type_synonym compiled = "(http_method \<times> segment list \<times> string) list"

definition compiled_routes :: compiled where
  "compiled_routes = map (\<lambda>(m, pattern, handler). (m, compile_path pattern, handler)) app_routes"

section \<open>Choosing a route\<close>

datatype dispatched = Handler string "string list" | Method_not_allowed | Path_not_found

fun dispatch :: "compiled \<Rightarrow> http_method \<Rightarrow> string \<Rightarrow> dispatched" where
  "dispatch [] m path = Path_not_found"
| "dispatch ((m', pattern, handler) # table) m path =
     (case match_segments pattern (split_on (CHR ''/'') path) of
        None \<Rightarrow> dispatch table m path
      | Some arguments \<Rightarrow>
          if m' = m then Handler handler arguments
          else (case dispatch table m path of
                  Path_not_found \<Rightarrow> Method_not_allowed
                | found \<Rightarrow> found))"

text \<open>The method of a request, the handler that \<open>route\<close> gives it to, and the parameters of its path.\<close>

fun request_line :: "request \<Rightarrow> http_method \<times> string \<times> uuid list" where
  "request_line (Register _ _ _ _) = (POST, ''register'', [])"
| "request_line (Verify _) = (POST, ''verify'', [])"
| "request_line (VerifyFromLink _) = (GET, ''verify_from_link'', [])"
| "request_line (ResendVerification _) = (POST, ''resend_verification'', [])"
| "request_line (Login _ _) = (POST, ''login'', [])"
| "request_line (Refresh _) = (POST, ''refresh'', [])"
| "request_line (Logout _ _) = (POST, ''logout'', [])"
| "request_line (AdminLogin _ _) = (POST, ''admin_login'', [])"
| "request_line (ForgotPassword _) = (POST, ''forgot_password'', [])"
| "request_line (ResetPassword _ _ _) = (POST, ''reset_password'', [])"
| "request_line (ChangePassword _ _ _ _) = (POST, ''change_password'', [])"
| "request_line (DeleteAccount _ _) = (DELETE, ''delete_account'', [])"
| "request_line (SubmitFeedback _ _ _ _) = (POST, ''submit_feedback'', [])"
| "request_line (GetProfile _) = (GET, ''get_profile'', [])"
| "request_line (UpdateProfile _ _) = (PATCH, ''update_profile'', [])"
| "request_line (GetPreferences _) = (GET, ''get_preferences'', [])"
| "request_line (UpdatePreferences _ _) = (PATCH, ''update_preferences'', [])"
| "request_line (CreateAdministrator _ _ _ _) = (POST, ''create_administrator'', [])"
| "request_line (ResetTemporaryPassword _ i) = (POST, ''reset_temporary_password'', [i])"
| "request_line (ListAdministrators _) = (GET, ''list_administrators'', [])"
| "request_line (AccountDetail _ i) = (GET, ''account_detail'', [i])"
| "request_line (BlockAccount _ i _) = (POST, ''block_account'', [i])"
| "request_line (AccountMetrics _) = (GET, ''account_metrics'', [])"
| "request_line (ListAuditEntries _ _ _) = (GET, ''list_audit_entries'', [])"
| "request_line (PutUnderReview _ i) = (POST, ''put_under_review'', [i])"
| "request_line (LiftReview _ i) = (DELETE, ''lift_review'', [i])"
| "request_line (GetPublicProfile _ i) = (GET, ''get_public_profile'', [i])"
| "request_line (AdministratorIdentity _ i) = (GET, ''administrator_identity'', [i])"
| "request_line (SearchUsers _ _ _) = (GET, ''search_users'', [])"
| "request_line (SearchAccounts _ _ _) = (GET, ''search_accounts'', [])"

section \<open>Facts\<close>

lemma split_on_absent: "c \<notin> set s \<Longrightarrow> split_on c s = [s]"
  by (induction s) auto

lemma split_on_append: "c \<notin> set s \<Longrightarrow> split_on c (s @ c # t) = s # split_on c t"
  by (induction s) auto

lemma uuid_no_slash: "CHR ''/'' \<notin> set (uuid_str i)"
  by (rule uuid_str_absent) auto

lemmas split_uuid =
  split_on_absent [OF uuid_no_slash] split_on_append [OF uuid_no_slash]

text \<open>The patterns of the whole table, as they are read.\<close>

lemma compiled_routes_table:
  "compiled_routes =
     [(GET, [Literal [], Literal ''healthcheck''], ''healthcheck''),
      (GET, [Literal [], Literal ''livez''], ''livez''),
      (POST, [Literal [], Literal ''internal'', Literal ''users'', Path_parameter, Literal ''review''], ''put_under_review''),
      (DELETE, [Literal [], Literal ''internal'', Literal ''users'', Path_parameter, Literal ''review''], ''lift_review''),
      (GET, [Literal [], Literal ''internal'', Literal ''users'', Path_parameter, Literal ''profile''], ''get_public_profile''),
      (GET, [Literal [], Literal ''internal'', Literal ''administrators'', Path_parameter, Literal ''identity''], ''administrator_identity''),
      (POST, [Literal [], Literal ''api'', Literal ''auth'', Literal ''register''], ''register''),
      (POST, [Literal [], Literal ''api'', Literal ''auth'', Literal ''verify''], ''verify''),
      (GET, [Literal [], Literal ''api'', Literal ''auth'', Literal ''verify''], ''verify_from_link''),
      (POST, [Literal [], Literal ''api'', Literal ''auth'', Literal ''resend-verification''], ''resend_verification''),
      (POST, [Literal [], Literal ''api'', Literal ''auth'', Literal ''login''], ''login''),
      (POST, [Literal [], Literal ''api'', Literal ''auth'', Literal ''refresh''], ''refresh''),
      (POST, [Literal [], Literal ''api'', Literal ''auth'', Literal ''logout''], ''logout''),
      (POST, [Literal [], Literal ''api'', Literal ''admin'', Literal ''auth'', Literal ''login''], ''admin_login''),
      (POST, [Literal [], Literal ''api'', Literal ''admin'', Literal ''users''], ''create_administrator''),
      (POST, [Literal [], Literal ''api'', Literal ''admin'', Literal ''users'', Path_parameter, Literal ''reset-temporary-password''], ''reset_temporary_password''),
      (GET, [Literal [], Literal ''api'', Literal ''admin'', Literal ''users''], ''list_administrators''),
      (GET, [Literal [], Literal ''api'', Literal ''admin'', Literal ''users'', Literal ''search''], ''search_accounts''),
      (GET, [Literal [], Literal ''api'', Literal ''admin'', Literal ''users'', Path_parameter], ''account_detail''),
      (POST, [Literal [], Literal ''api'', Literal ''admin'', Literal ''users'', Path_parameter, Literal ''block''], ''block_account''),
      (GET, [Literal [], Literal ''api'', Literal ''admin'', Literal ''metrics''], ''account_metrics''),
      (POST, [Literal [], Literal ''api'', Literal ''auth'', Literal ''forgot-password''], ''forgot_password''),
      (POST, [Literal [], Literal ''api'', Literal ''auth'', Literal ''reset-password''], ''reset_password''),
      (POST, [Literal [], Literal ''api'', Literal ''me'', Literal ''change-password''], ''change_password''),
      (DELETE, [Literal [], Literal ''api'', Literal ''me''], ''delete_account''),
      (POST, [Literal [], Literal ''api'', Literal ''me'', Literal ''feedback''], ''submit_feedback''),
      (GET, [Literal [], Literal ''api'', Literal ''me''], ''get_profile''),
      (PATCH, [Literal [], Literal ''api'', Literal ''me''], ''update_profile''),
      (GET, [Literal [], Literal ''api'', Literal ''search'', Literal ''users''], ''search_users''),
      (GET, [Literal [], Literal ''api'', Literal ''me'', Literal ''preferences''], ''get_preferences''),
      (PATCH, [Literal [], Literal ''api'', Literal ''me'', Literal ''preferences''], ''update_preferences''),
      (GET, [Literal [], Literal ''api'', Literal ''admin'', Literal ''audit''], ''list_audit_entries'')]"
  by code_simp

lemma uuid_not_search: "uuid_str i \<noteq> ''search''" "uuid_str i \<noteq> []"
proof -
  have "CHR ''s'' \<notin> set (uuid_str i)" by (rule uuid_str_absent) auto
  then show "uuid_str i \<noteq> ''search''" by auto
  show "uuid_str i \<noteq> []" by (simp add: uuid_str_def Let_def)
qed

lemma dispatch_request:
  "dispatch compiled_routes (fst (request_line req)) (request_path req) =
     Handler (fst (snd (request_line req))) (map uuid_str (snd (snd (request_line req))))"
  by (cases req)
     (simp_all add: compiled_routes_table API_PREFIX_def me_path_def admin_users_path_def split_uuid uuid_not_search)

lemma prefix_of_request:
  "prefix API_PREFIX (request_path req) \<longleftrightarrow> internal_token req = None"
  by (cases req) (simp_all add: API_PREFIX_def me_path_def admin_users_path_def)

end
