(* ===== verification/Service_Shell.thy ===== *)
theory Service_Shell
  imports Url_Routing
begin

text \<open>
  What surrounds the requests: the log of every request and the filters of
  \<open>infrastructure/telemetry.py\<close>, the signing key, and the end of the lifespan in \<open>main.py\<close>. The providers and exporters of
  OpenTelemetry are calls into a library and not part of the model.
\<close>

section \<open>Logs and spans\<close>

definition PROBE_PATHS :: "string list" where
  "PROBE_PATHS = [''/healthcheck'', ''/livez'']"

text \<open>The bounds of the duration histogram, in milliseconds.\<close>

definition HTTP_DURATION_BUCKETS :: "int list" where
  "HTTP_DURATION_BUCKETS =
     [5, 10, 25, 50, 75, 100, 250, 300, 400, 500, 750, 800, 1000, 2500, 5000, 7500, 10000]"

text \<open>
  \<open>log_request\<close>: what the middleware logs once the inner application answered. An exception nobody
  handled passes through it and leaves no line. \<open>'d\<close> is the measured duration.
\<close>

record 'd request_log =
  rl_method :: http_method
  rl_path :: string
  rl_status :: int
  rl_duration_ms :: 'd

definition log_request :: "http_method \<Rightarrow> string \<Rightarrow> 'd \<Rightarrow> exn + response \<Rightarrow> 'd request_log option" where
  "log_request m path duration result =
     (if path \<in> set PROBE_PATHS then None
      else case result of
             Inl e \<Rightarrow> None
           | Inr r \<Rightarrow> Some \<lparr> rl_method = m, rl_path = path, rl_status = r_status r, rl_duration_ms = duration \<rparr>)"

text \<open>The regular expression of \<open>excluded_urls\<close>: a scheme, a host and exactly the path of a probe.\<close>

definition excluded_url :: "string \<Rightarrow> bool" where
  "excluded_url url \<longleftrightarrow>
     (\<exists>scheme host path. url = scheme @ ''://'' @ host @ path \<and> scheme \<noteq> [] \<and> CHR '':'' \<notin> set scheme \<and>
        host \<noteq> [] \<and> CHR ''/'' \<notin> set host \<and> path \<in> set PROBE_PATHS)"

text \<open>The records of the exporter itself are not exported.\<close>

definition exported_record :: "string \<Rightarrow> bool" where
  "exported_record logger_name \<longleftrightarrow> \<not> prefix ''opentelemetry'' logger_name"

lemma requests_are_no_probes: "request_path req \<notin> set PROBE_PATHS"
  by (cases req) (simp_all add: PROBE_PATHS_def API_PREFIX_def me_path_def admin_users_path_def)

lemma request_logged:
  "log_request (fst (request_line req)) (request_path req) d (Inr r) =
     Some \<lparr> rl_method = fst (request_line req), rl_path = request_path req, rl_status = r_status r, rl_duration_ms = d \<rparr>"
  by (simp add: log_request_def requests_are_no_probes)

text \<open>A span is left out for the same paths a line is, whatever the scheme and the host.\<close>

lemma scheme_unique:
  assumes "a @ ''://'' @ b = a' @ ''://'' @ b'" and "CHR '':'' \<notin> set a" and "CHR '':'' \<notin> set a'"
  shows "a = a' \<and> b = b'"
proof -
  have "takeWhile (\<lambda>c. c \<noteq> CHR '':'') (x @ ''://'' @ y) = x" if "CHR '':'' \<notin> set x" for x y
    using that by (simp add: takeWhile_append)
  from this [OF assms(2), of b] this [OF assms(3), of b'] assms(1) show ?thesis by simp
qed

lemma excluded_url_iff:
  assumes "scheme \<noteq> []" and "CHR '':'' \<notin> set scheme" and "host \<noteq> []" and "CHR ''/'' \<notin> set host"
    and "prefix ''/'' path"
  shows "excluded_url (scheme @ ''://'' @ host @ path) \<longleftrightarrow> path \<in> set PROBE_PATHS"
proof
  assume "excluded_url (scheme @ ''://'' @ host @ path)"
  then obtain s h p where e: "scheme @ ''://'' @ host @ path = s @ ''://'' @ h @ p" "CHR '':'' \<notin> set s"
    "CHR ''/'' \<notin> set h" "p \<in> set PROBE_PATHS" unfolding excluded_url_def by blast
  from scheme_unique [OF e(1) assms(2) e(2)] have rest: "host @ path = h @ p" by blast
  have drop: "dropWhile (\<lambda>c. c \<noteq> CHR ''/'') (x @ y) = y" if "CHR ''/'' \<notin> set x" "prefix ''/'' y" for x y
    using that by (cases y) (simp_all add: dropWhile_append)
  have "prefix ''/'' p" using e(4) by (auto simp: PROBE_PATHS_def)
  from drop [OF assms(4,5)] drop [OF e(3) this] rest have "path = p" by simp
  with e(4) show "path \<in> set PROBE_PATHS" by simp
next
  assume "path \<in> set PROBE_PATHS"
  with assms show "excluded_url (scheme @ ''://'' @ host @ path)" unfolding excluded_url_def by blast
qed

section \<open>The signing key\<close>

text \<open>
  \<open>load_signing_key\<close> (\<open>app/security.py\<close>), at the start of the lifespan. Reading a PEM, which may raise, telling
  an Ed25519 key and generating one are the cryptography library's, and parameters.
\<close>

definition load_signing_key ::
  "(string \<Rightarrow> exn + 'k) \<Rightarrow> ('k \<Rightarrow> bool) \<Rightarrow> 'k \<Rightarrow> string option \<Rightarrow> exn + 'k" where
  "load_signing_key load_pem_private_key is_ed25519 generated pem =
     (case pem of
        None \<Rightarrow> Inr generated
      | Some text \<Rightarrow>
          if text = [] then Inr generated
          else (case load_pem_private_key text of
                  Inl e \<Rightarrow> Inl e
                | Inr key \<Rightarrow> if is_ed25519 key then Inr key else Inl ValueError))"

text \<open>A service that starts signs with an Ed25519 key, and with an ephemeral one only if none is configured.\<close>

lemma signing_key:
  assumes "load_signing_key load is_ed25519 generated pem = Inr key" and "is_ed25519 generated"
  shows "is_ed25519 key \<and> (pem \<noteq> None \<and> pem \<noteq> Some [] \<longrightarrow> load (the pem) = Inr key)"
  using assms by (auto simp: load_signing_key_def split: option.splits if_splits sum.splits)

section \<open>The end of the lifespan\<close>

text \<open>\<open>try: ... finally: ...\<close>: an exception of the second part replaces one of the first.\<close>

definition finally_do :: "('s, 'e, unit) act \<Rightarrow> ('s, 'e, unit) act \<Rightarrow> ('s, 'e, unit) act" where
  "finally_do m f s =
     (case m s of (x, s1) \<Rightarrow> case f s1 of (Inl e, s2) \<Rightarrow> (Inl e, s2) | (Inr u, s2) \<Rightarrow> (x, s2))"

text \<open>What is released, each by a call that may raise. The first two await a task that was cancelled.\<close>

datatype release =
    Stop_consumer | Stop_publisher | Close_posts_api | Dispose_engine | Close_redis
  | Flush_metrics | Remove_reader | Shut_down_logs

definition release_all :: "(release \<Rightarrow> ('s, 'e, unit) act) \<Rightarrow> bool \<Rightarrow> bool \<Rightarrow> ('s, 'e, unit) act" where
  "release_all call has_reader has_logs =
     finally_do
       (bnd (call Stop_consumer) (\<lambda>_. bnd (call Stop_publisher) (\<lambda>_. bnd (call Close_posts_api) (\<lambda>_.
        bnd (call Dispose_engine) (\<lambda>_. call Close_redis)))))
       (bnd (if has_reader then finally_do (call Flush_metrics) (call Remove_reader) else skip) (\<lambda>_.
        if has_logs then call Shut_down_logs else skip))"

text \<open>Calls that leave a trace, and raise when their name is in a set.\<close>

definition traced :: "release set \<Rightarrow> release \<Rightarrow> (release list, release, unit) act" where
  "traced failing r trace = ((if r \<in> failing then Inl r else Inr ()), trace @ [r])"

lemmas release_defs = release_all_def finally_do_def traced_def bnd_def skip_def ret_def

text \<open>Nothing fails: everything is released, in this order.\<close>

lemma release_order:
  "release_all (traced {}) True True [] =
     (Inr (), [Stop_consumer, Stop_publisher, Close_posts_api, Dispose_engine, Close_redis,
       Flush_metrics, Remove_reader, Shut_down_logs])"
  by (simp add: release_defs)

text \<open>Whatever fails, the reader is flushed and then removed.\<close>

lemma reader_removed:
  "\<exists>before after. snd (release_all (traced failing) True has_logs trace) =
     before @ [Flush_metrics, Remove_reader] @ after"
proof -
  have telemetry: "\<exists>after. snd (bnd (finally_do (traced failing Flush_metrics) (traced failing Remove_reader))
      (\<lambda>_. if has_logs then traced failing Shut_down_logs else skip) t) = t @ [Flush_metrics, Remove_reader] @ after" for t
    by (simp add: release_defs)
  have last: "\<exists>t. snd (finally_do m f s) = snd (f t)" for m f and s :: "release list"
    by (rule exI [of _ "snd (m s)"]) (auto simp: finally_do_def split: prod.split sum.split)
  show ?thesis
    unfolding release_all_def if_True using last telemetry by metis
qed

text \<open>A consumer that ends with an exception leaves the publisher running and the connections open.\<close>

lemma failed_consumer_stops_release:
  assumes "Stop_consumer \<in> failing"
  shows "set (snd (release_all (traced failing) has_reader has_logs [])) \<subseteq>
    {Stop_consumer, Flush_metrics, Remove_reader, Shut_down_logs}"
  using assms by (auto simp: release_defs split: if_splits)

section \<open>From the socket to the handler\<close>

text \<open>
  C38. Every request reaches the handler it is meant for: among the routes of the application, in the order
  they are added, the first that its method and path match is its own, no other route shadows it, and
  the handler is given the ids that are in the path. The requests that need no internal token are
  exactly those under the prefix the gateway lets through. What is logged of a request is its
  method, its path, the status and the duration, so none of the tokens a query carries.
\<close>

theorem request_reaches_handler:
  "(case request_line req of (m, handler, ids) \<Rightarrow>
      dispatch compiled_routes m (request_path req) = Handler handler (map uuid_str ids) \<and>
      map uuid_parse (map uuid_str ids) = map Some ids \<and>
      log_request m (request_path req) d (Inr r) =
        Some \<lparr> rl_method = m, rl_path = request_path req, rl_status = r_status r, rl_duration_ms = d \<rparr>) \<and>
   (prefix API_PREFIX (request_path req) \<longleftrightarrow> internal_token req = None)"
  using dispatch_request [of req] request_logged [of req d r] prefix_of_request [of req]
  by (simp add: case_prod_beta)

end
