(* ===== verification/Configuration.thy ===== *)
theory Configuration
  imports Environment
begin

text \<open>
  The whole of \<open>config/settings.py\<close>: the fields the services read are those of the record \<open>settings\<close>, which
  this theory extends by the ones only the start of the service reads, and how they are read from the
  environment. Reading a number or a list from the text of a variable is pydantic's, and a parameter.
\<close>

text \<open>\<open>'f\<close> is the type of Python's \<open>float\<close>.\<close>

record 'f service_settings = settings +
  database_url :: string
  redis_url :: string
  rabbitmq_url :: string
  posts_api_url :: string
  jwt_private_key :: "string option"
  cors_allowed_origins :: "string list"
  outbox_poll_seconds :: 'f
  log_level :: string
  otel_exporter_otlp_endpoint :: "string option"

record 'f readers =
  read_int :: "string \<Rightarrow> int option"
  read_float :: "string \<Rightarrow> 'f option"
  read_list :: "string \<Rightarrow> string list option"

text \<open>A variable that is not set is \<open>None\<close>. Names are matched whatever their case; here they are the fields'.\<close>

type_synonym environment = "string \<Rightarrow> string option"

definition setting :: "environment \<Rightarrow> (string \<Rightarrow> 'a option) \<Rightarrow> 'a option \<Rightarrow> string \<Rightarrow> 'a option" where
  "setting env reader preset name = (case env name of None \<Rightarrow> preset | Some text \<Rightarrow> reader text)"

definition required_fields :: "string list" where
  "required_fields = [''database_url'', ''redis_url'', ''rabbitmq_url'', ''internal_api_token'']"

definition number_fields :: "string list" where
  "number_fields =
     [''access_token_minutes'', ''refresh_token_days'', ''login_max_attempts'', ''login_lockout_minutes'',
      ''admin_login_max_attempts'', ''admin_login_lockout_minutes'', ''change_password_max_attempts'',
      ''change_password_lockout_minutes'', ''email_verification_hours'', ''password_reset_minutes'',
      ''password_reset_max_requests'', ''password_reset_window_minutes'']"

text \<open>The fields a \<open>ValidationError\<close> names: the required ones that are missing, and those that cannot be read.\<close>

definition invalid_fields :: "'f readers \<Rightarrow> environment \<Rightarrow> string list" where
  "invalid_fields R env =
     filter (\<lambda>n. env n = None) required_fields @
     filter (\<lambda>n. setting env (read_int R) (Some 0) n = None) number_fields @
     filter (\<lambda>n. setting env (read_list R) (Some []) n = None) [''cors_allowed_origins''] @
     filter (\<lambda>n. env n \<noteq> None \<and> setting env (read_float R) None n = None) [''outbox_poll_seconds'']"

definition Settings :: "('f::numeral) readers \<Rightarrow> environment \<Rightarrow> string list + 'f service_settings" where
  "Settings R env =
     (let required = (\<lambda>n. the (setting env Some None n));
          text = (\<lambda>n preset. the (setting env Some (Some preset) n));
          number = (\<lambda>n preset. the (setting env (read_int R) (Some preset) n)) in
      if invalid_fields R env \<noteq> [] then Inl (invalid_fields R env)
      else Inr
        \<lparr> internal_api_token = required ''internal_api_token'',
          jwt_issuer = text ''jwt_issuer'' ''users-api'',
          access_token_minutes = number ''access_token_minutes'' 15,
          refresh_token_days = number ''refresh_token_days'' 7,
          login_max_attempts = number ''login_max_attempts'' 5,
          login_lockout_minutes = number ''login_lockout_minutes'' 15,
          admin_login_max_attempts = number ''admin_login_max_attempts'' 3,
          admin_login_lockout_minutes = number ''admin_login_lockout_minutes'' 30,
          change_password_max_attempts = number ''change_password_max_attempts'' 3,
          change_password_lockout_minutes = number ''change_password_lockout_minutes'' 15,
          superadmin_email = env ''superadmin_email'',
          superadmin_password = env ''superadmin_password'',
          superadmin_handle = text ''superadmin_handle'' ''@superadmin'',
          administrator_email_domain = text ''administrator_email_domain'' [],
          email_verification_hours = number ''email_verification_hours'' 24,
          password_reset_minutes = number ''password_reset_minutes'' 10,
          password_reset_max_requests = number ''password_reset_max_requests'' 3,
          password_reset_window_minutes = number ''password_reset_window_minutes'' 60,
          public_base_url = text ''public_base_url'' ''http://localhost:8000'',
          database_url = required ''database_url'',
          redis_url = required ''redis_url'',
          rabbitmq_url = required ''rabbitmq_url'',
          posts_api_url = text ''posts_api_url'' ''http://posts-api'',
          jwt_private_key = env ''jwt_private_key'',
          cors_allowed_origins = the (setting env (read_list R) (Some []) ''cors_allowed_origins''),
          outbox_poll_seconds = the (setting env (read_float R) (Some 5) ''outbox_poll_seconds''),
          log_level = text ''log_level'' ''INFO'',
          otel_exporter_otlp_endpoint = env ''otel_exporter_otlp_endpoint'' \<rparr>)"

text \<open>\<open>get_settings\<close> under \<open>lru_cache\<close>: a result is kept for good, an exception is not kept.\<close>

definition get_settings ::
  "('f::numeral) readers \<Rightarrow> environment \<Rightarrow> 'f service_settings option \<Rightarrow>
     (string list + 'f service_settings) \<times> 'f service_settings option" where
  "get_settings R env cache =
     (case cache of
        Some s \<Rightarrow> (Inr s, cache)
      | None \<Rightarrow> (case Settings R env of
                   Inl e \<Rightarrow> (Inl e, None)
                 | Inr s \<Rightarrow> (Inr s, Some s)))"

section \<open>Facts\<close>

text \<open>A service starts with the four required values or not at all, and with exactly those it was given.\<close>

lemma missing_setting: "n \<in> set required_fields \<Longrightarrow> env n = None \<Longrightarrow> \<exists>e. Settings R env = Inl e \<and> n \<in> set e"
  by (auto simp: Settings_def Let_def invalid_fields_def filter_empty_conv)

lemma required_settings:
  assumes "Settings R env = Inr s"
  shows "env ''database_url'' = Some (database_url s) \<and> env ''redis_url'' = Some (redis_url s) \<and>
    env ''rabbitmq_url'' = Some (rabbitmq_url s) \<and> env ''internal_api_token'' = Some (internal_api_token s)"
proof -
  have "invalid_fields R env = []" using assms by (auto simp: Settings_def Let_def split: if_splits)
  then have "\<forall>n \<in> set required_fields. env n \<noteq> None" by (auto simp: invalid_fields_def filter_empty_conv)
  then show ?thesis using assms
    by (auto simp: Settings_def Let_def setting_def required_fields_def split: if_splits)
qed

text \<open>Nothing but the required values set: the settings the rest of the development calls the defaults.\<close>

lemma preset_settings:
  assumes "\<And>n. env n \<noteq> None \<longleftrightarrow> n \<in> set required_fields" and "env ''internal_api_token'' = Some token"
  shows "\<exists>s. Settings R env = Inr s \<and> settings.truncate s = default_settings token"
proof -
  have none: "env n = None" if "n \<notin> set required_fields" for n using assms(1) that by blast
  have "invalid_fields R env = []"
    using assms(1) none
    by (simp add: invalid_fields_def filter_empty_conv setting_def number_fields_def required_fields_def)
  then show ?thesis
    using none assms(2)
    by (simp add: Settings_def Let_def setting_def default_settings_def settings.truncate_def required_fields_def)
qed

text \<open>Whoever asks later gets what the first got, whatever became of the environment.\<close>

lemma settings_kept: "get_settings R env None = (Inr s, cache) \<Longrightarrow> get_settings R env' cache = (Inr s, cache)"
  by (auto simp: get_settings_def split: sum.splits)

end
