(* ===== verification/Startup.thy ===== *)
theory Startup
  imports Service_Shell Configuration
begin

text \<open>
  The start of the service (\<open>main.py\<close>): the lifespan from its first line to its last, the options of the
  CORS middleware, and what \<open>infrastructure/telemetry.py\<close> sets up. A call into a library is a step that may
  raise; what the libraries do with their options is theirs.
\<close>

section \<open>The lifespan\<close>

datatype startup_call =
    Configure_logging | Export_telemetry | Open_posts_api | Create_engine | Build_sessions | Open_redis
  | Load_signing_key | Start_publisher | Start_consumer | Add_metric_reader

text \<open>
  What is opened before the application is served. \<open>telemetry\<close> is whether an endpoint is configured: an empty
  one counts as none.
\<close>

definition telemetry_on :: "'f service_settings \<Rightarrow> bool" where
  "telemetry_on S \<longleftrightarrow> otel_exporter_otlp_endpoint S \<noteq> None \<and> otel_exporter_otlp_endpoint S \<noteq> Some []"

definition open_all :: "(startup_call \<Rightarrow> ('s, 'e, unit) act) \<Rightarrow> bool \<Rightarrow> ('s, 'e, unit) act" where
  "open_all call telemetry =
     bnd (call Configure_logging) (\<lambda>_.
     bnd (if telemetry then call Export_telemetry else skip) (\<lambda>_.
     bnd (call Open_posts_api) (\<lambda>_.
     bnd (call Create_engine) (\<lambda>_.
     bnd (call Build_sessions) (\<lambda>_.
     bnd (call Open_redis) (\<lambda>_.
     bnd (call Load_signing_key) (\<lambda>_.
     bnd (call Start_publisher) (\<lambda>_.
     bnd (call Start_consumer) (\<lambda>_.
     if telemetry then call Add_metric_reader else skip)))))))))"

definition lifespan ::
  "(startup_call \<Rightarrow> ('s, 'e, unit) act) \<Rightarrow> ('s, 'e, unit) act \<Rightarrow> (release \<Rightarrow> ('s, 'e, unit) act) \<Rightarrow>
     'f service_settings \<Rightarrow> ('s, 'e, unit) act" where
  "lifespan call serving free S =
     bnd (open_all call (telemetry_on S)) (\<lambda>_.
     finally_do serving (release_all free (telemetry_on S) (telemetry_on S)))"

text \<open>Calls that leave a trace, and raise when their name is in a set.\<close>

datatype lifespan_event = Opened startup_call | Served | Released release

definition noted :: "lifespan_event set \<Rightarrow> lifespan_event \<Rightarrow> (lifespan_event list, lifespan_event, unit) act" where
  "noted failing e trace = ((if e \<in> failing then Inl e else Inr ()), trace @ [e])"

definition traced_lifespan ::
  "lifespan_event set \<Rightarrow> 'f service_settings \<Rightarrow> (lifespan_event + unit) \<times> lifespan_event list" where
  "traced_lifespan failing S =
     lifespan (\<lambda>x. noted failing (Opened x)) (noted failing Served) (\<lambda>r. noted failing (Released r)) S []"

lemmas lifespan_defs = lifespan_def open_all_def release_all_def finally_do_def noted_def bnd_def skip_def ret_def

text \<open>A failure while opening ends the start: nothing is served, and what was opened before is not released.\<close>

lemma open_all_failed:
  assumes "fst (open_all (\<lambda>x. noted failing (Opened x)) telemetry trace) = Inl e"
  shows "e \<in> failing \<and> (\<exists>x. e = Opened x) \<and>
    set (snd (open_all (\<lambda>x. noted failing (Opened x)) telemetry trace)) \<subseteq> set trace \<union> range Opened"
  using assms by (auto simp: lifespan_defs split: if_splits)

lemma failed_start:
  assumes "fst (open_all (\<lambda>x. noted failing (Opened x)) (telemetry_on S) []) = Inl e"
  shows "fst (traced_lifespan failing S) = Inl e \<and> set (snd (traced_lifespan failing S)) \<subseteq> range Opened"
proof -
  have "traced_lifespan failing S = open_all (\<lambda>x. noted failing (Opened x)) (telemetry_on S) []"
    using assms by (auto simp: traced_lifespan_def lifespan_def bnd_def split: prod.splits sum.splits)
  then show ?thesis using open_all_failed [OF assms] assms by simp
qed

text \<open>Nothing fails: whatever was opened is released, tasks before the connections they use, however serving ends.\<close>

lemma served_and_released:
  assumes "failing \<subseteq> {Served}"
  shows "snd (traced_lifespan failing S) =
    map Opened (Configure_logging # (if telemetry_on S then [Export_telemetry] else []) @
      [Open_posts_api, Create_engine, Build_sessions, Open_redis, Load_signing_key, Start_publisher, Start_consumer] @
      (if telemetry_on S then [Add_metric_reader] else [])) @
    [Served] @
    map Released ([Stop_consumer, Stop_publisher, Close_posts_api, Dispose_engine, Close_redis] @
      (if telemetry_on S then [Flush_metrics, Remove_reader, Shut_down_logs] else []))"
proof -
  have "Opened x \<notin> failing" "Released r \<notin> failing" for x r using assms by auto
  then show ?thesis
    by (cases "telemetry_on S"; cases "Served \<in> failing") (simp_all add: traced_lifespan_def lifespan_defs)
qed

section \<open>CORS\<close>

record cors_options =
  allow_origins :: "string list"
  allow_methods :: "string list"
  allow_headers :: "string list"
  expose_headers :: "string list"

definition cors_middleware :: "'f service_settings \<Rightarrow> cors_options" where
  "cors_middleware S =
     \<lparr> allow_origins = cors_allowed_origins S, allow_methods = [''*''],
       allow_headers = [''Authorization'', ''Content-Type''], expose_headers = [''Retry-After''] \<rparr>"

text \<open>The browser is shown every header the service puts on an error beside the usual ones.\<close>

lemma lockout_header_exposed:
  "map fst (p_headers (too_many_attempts policy)) = expose_headers (cors_middleware S)"
  by (simp add: cors_middleware_def too_many_attempts_def)

section \<open>Metrics and spans\<close>

definition SERVICE_NAME :: string where
  "SERVICE_NAME = ''users-api''"

definition resource_attributes :: "string \<Rightarrow> string \<Rightarrow> (string \<times> string) list" where
  "resource_attributes version instance_id =
     [(''service.name'', SERVICE_NAME), (''service.version'', version), (''service.instance.id'', instance_id)]"

datatype aggregation = Drop | Histogram "int list"

text \<open>A view: the instrument it selects, \<open>*\<close> for all, the attributes it keeps, if it says, and how it aggregates.\<close>

record view =
  v_instrument :: string
  v_attributes :: "string list option"
  v_aggregation :: aggregation

definition metric_views :: "view list" where
  "metric_views =
     [\<lparr> v_instrument = ''http.server.request.duration'',
        v_attributes = Some [''http.request.method'', ''http.route'', ''http.response.status_code''],
        v_aggregation = Histogram HTTP_DURATION_BUCKETS \<rparr>,
      \<lparr> v_instrument = ''*'', v_attributes = None, v_aggregation = Drop \<rparr>]"

text \<open>
  The documented reading of views: every view that selects the instrument gives a stream of its own with
  the attributes it keeps, and none when it drops.
\<close>

definition recorded :: "view list \<Rightarrow> string \<Rightarrow> (string \<times> 'v) list \<Rightarrow> (int list \<times> (string \<times> 'v) list) list" where
  "recorded views instrument attributes =
     concat (map (\<lambda>v.
       if v_instrument v = instrument \<or> v_instrument v = ''*'' then
         case v_aggregation v of
           Drop \<Rightarrow> []
         | Histogram bounds \<Rightarrow>
             [(bounds, filter (\<lambda>a. case v_attributes v of None \<Rightarrow> True | Some ks \<Rightarrow> fst a \<in> set ks) attributes)]
       else []) views)"

text \<open>
  Whatever the instrumentation measures, only the duration of requests is recorded, under the method, the
  template of the route and the status: no path, id, address or token becomes a label.
\<close>

lemma bounded_labels:
  assumes "(bounds, labels) \<in> set (recorded metric_views instrument attributes)"
  shows "instrument = ''http.server.request.duration'' \<and> bounds = HTTP_DURATION_BUCKETS \<and>
    fst ` set labels \<subseteq> {''http.request.method'', ''http.route'', ''http.response.status_code''}"
proof -
  have "instrument = ''http.server.request.duration''"
    using assms by (cases "instrument = ''http.server.request.duration''") (simp_all add: recorded_def metric_views_def)
  moreover from this have "bounds = HTTP_DURATION_BUCKETS" and "labels = filter (\<lambda>a. fst a \<in>
      {''http.request.method'', ''http.route'', ''http.response.status_code''}) attributes"
    using assms by (simp_all add: recorded_def metric_views_def)
  ultimately show ?thesis by auto
qed

lemma duration_recorded:
  "map fst (recorded metric_views ''http.server.request.duration'' attributes) = [HTTP_DURATION_BUCKETS]"
  by (simp add: recorded_def metric_views_def)

lemma buckets_increase: "sorted_wrt (<) HTTP_DURATION_BUCKETS"
  by (simp add: HTTP_DURATION_BUCKETS_def)

end
