(* ===== verification/Refresh_Race.thy ===== *)
theory Refresh_Race
  imports Repositories
begin

text \<open>
  Requests that present one refresh token at the same time. \<open>RefreshTokenRepository.consume\<close> is one
  \<open>UPDATE ... WHERE ... RETURNING\<close> in the transaction of its request, and here its transactions
  interleave, with the row locks of PostgreSQL at READ COMMITTED: an update that finds the row locked
  waits for the other transaction and then tests its condition again on the row as it was committed.
  Elsewhere in the development a request runs alone; \<open>lone_exchange\<close> is that case.
\<close>

section \<open>Transactions on one row\<close>

datatype exchange =
    Arriving | Blocked | Returned "refresh_token_model option"
  | Committed "refresh_token_model option" | Rolled_back

text \<open>The row as it is committed, the transaction that has it locked, and where each transaction is.\<close>

record race =
  rc_row :: refresh_token_model
  rc_lock :: "nat option"
  rc_phase :: "nat \<Rightarrow> exchange"

definition consumed_row :: "time \<Rightarrow> refresh_token_model \<Rightarrow> refresh_token_model" where
  "consumed_row now row = row\<lparr>rtm_used_at := Some now\<rparr>"

definition set_phase :: "nat \<Rightarrow> exchange \<Rightarrow> race \<Rightarrow> race" where
  "set_phase t p c = c\<lparr>rc_phase := (rc_phase c)(t := p)\<rparr>"

definition unlocked :: "nat \<Rightarrow> race \<Rightarrow> race" where
  "unlocked t c = c\<lparr>rc_lock := if rc_lock c = Some t then None else rc_lock c\<rparr>"

text \<open>
  The steps of transaction \<open>t\<close>, which reads the clock at \<open>at t\<close>. A request commits when its answer is
  ready and rolls back when anything raised; another one may revoke the token in between.
\<close>

inductive exchange_step :: "string \<Rightarrow> (nat \<Rightarrow> time) \<Rightarrow> race \<Rightarrow> race \<Rightarrow> bool" for h at where
  unusable: "rc_phase c t = Arriving \<Longrightarrow> \<not> rtm_consumable h (at t) (rc_row c) \<Longrightarrow>
    exchange_step h at c (set_phase t (Returned None) c)"
| locks: "rc_phase c t = Arriving \<or> rc_phase c t = Blocked \<Longrightarrow> rc_lock c = None \<Longrightarrow>
    rtm_consumable h (at t) (rc_row c) \<Longrightarrow>
    exchange_step h at c (set_phase t (Returned (Some (consumed_row (at t) (rc_row c)))) (c\<lparr>rc_lock := Some t\<rparr>))"
| blocks: "rc_phase c t = Arriving \<Longrightarrow> rc_lock c \<noteq> None \<Longrightarrow> rtm_consumable h (at t) (rc_row c) \<Longrightarrow>
    exchange_step h at c (set_phase t Blocked c)"
| too_late: "rc_phase c t = Blocked \<Longrightarrow> rc_lock c = None \<Longrightarrow> \<not> rtm_consumable h (at t) (rc_row c) \<Longrightarrow>
    exchange_step h at c (set_phase t (Returned None) c)"
| commits: "rc_phase c t = Returned x \<Longrightarrow>
    exchange_step h at c
      (set_phase t (Committed x) (unlocked t (c\<lparr>rc_row := case x of None \<Rightarrow> rc_row c | Some row \<Rightarrow> row\<rparr>)))"
| rolls_back: "rc_phase c t = Blocked \<or> rc_phase c t = Returned x \<Longrightarrow>
    exchange_step h at c (set_phase t Rolled_back (unlocked t c))"
| revoked_elsewhere: "rc_lock c = None \<Longrightarrow>
    exchange_step h at c (c\<lparr>rc_row := (rc_row c)\<lparr>rtm_revoked_at := Some now\<rparr>\<rparr>)"

definition exchange_runs :: "string \<Rightarrow> (nat \<Rightarrow> time) \<Rightarrow> race \<Rightarrow> race \<Rightarrow> bool" where
  "exchange_runs h at = (exchange_step h at)\<^sup>*\<^sup>*"

definition race_of :: "refresh_token_model \<Rightarrow> race" where
  "race_of row = \<lparr> rc_row = row, rc_lock = None, rc_phase = (\<lambda>_. Arriving) \<rparr>"

lemma exchange_runs_step:
  "exchange_step h at c c' \<Longrightarrow> exchange_runs h at c' c'' \<Longrightarrow> exchange_runs h at c c''"
  unfolding exchange_runs_def by (rule converse_rtranclp_into_rtranclp)

lemma exchange_runs_refl: "exchange_runs h at c c"
  by (simp add: exchange_runs_def)

section \<open>A transaction alone\<close>

text \<open>Without others a transaction does to the row, and returns, what \<open>refresh_tokens_consume\<close> does.\<close>

lemma lone_exchange:
  fixes h :: string and at :: "nat \<Rightarrow> time" and c :: race and t :: nat
  assumes "rc_phase c t = Arriving" and "rc_lock c = None"
  defines "row \<equiv> if rtm_consumable h (at t) (rc_row c) then (rc_row c)\<lparr>rtm_used_at := Some (at t)\<rparr> else rc_row c"
  shows "exchange_runs h at c (set_phase t
    (Committed (if rtm_consumable h (at t) (rc_row c) then Some row else None)) (c\<lparr>rc_row := row\<rparr>))"
proof (cases "rtm_consumable h (at t) (rc_row c)")
  case True
  let ?c = "set_phase t (Returned (Some (consumed_row (at t) (rc_row c)))) (c\<lparr>rc_lock := Some t\<rparr>)"
  have "exchange_step h at c ?c" by (rule locks) (use assms True in auto)
  moreover have "exchange_step h at ?c (set_phase t (Committed (Some row)) (c\<lparr>rc_row := row\<rparr>))"
    using commits [of ?c t "Some row" h at] True assms(2)
    by (cases c) (simp add: set_phase_def unlocked_def row_def consumed_row_def)
  ultimately show ?thesis using True unfolding exchange_runs_def by auto
next
  case False
  let ?c = "set_phase t (Returned None) c"
  have "exchange_step h at c ?c" by (rule unusable) (use assms False in auto)
  moreover have "unlocked t ?c = ?c" using assms(2) by (cases c) (simp add: unlocked_def set_phase_def)
  then have "exchange_step h at ?c (set_phase t (Committed None) ?c)"
    using commits [of ?c t None h at] by (cases c) (simp add: set_phase_def)
  then have "exchange_step h at ?c (set_phase t (Committed None) (c\<lparr>rc_row := row\<rparr>))"
    using False by (cases c) (simp add: set_phase_def row_def)
  ultimately show ?thesis using False unfolding exchange_runs_def by auto
qed

section \<open>At most one exchange\<close>

text \<open>
  The lock belongs to the only transaction that returned the row and is still open; once one has
  committed it, the row is used and nobody can lock it again.
\<close>

definition race_invariant :: "race \<Rightarrow> bool" where
  "race_invariant c \<longleftrightarrow>
     (\<forall>t row. rc_phase c t = Returned (Some row) \<longrightarrow> rc_lock c = Some t \<and> rtm_used_at row \<noteq> None) \<and>
     (\<forall>t row. rc_phase c t = Committed (Some row) \<longrightarrow> rtm_used_at (rc_row c) \<noteq> None \<and>
        (\<forall>u x. rc_phase c u = Committed (Some x) \<longrightarrow> u = t) \<and> (\<forall>u x. rc_phase c u \<noteq> Returned (Some x))) \<and>
     (rtm_used_at (rc_row c) = None \<or> (\<exists>t row. rc_phase c t = Committed (Some row)))"

lemma consumable_unused: "rtm_consumable h now row \<Longrightarrow> rtm_used_at row = None"
  by (simp add: rtm_consumable_def)

text \<open>A step that neither takes the lock nor commits an exchange.\<close>

lemma race_quiet:
  assumes "race_invariant c" and "rtm_used_at (rc_row c') = rtm_used_at (rc_row c)"
    and "\<And>t row. rc_phase c' t = Committed (Some row) \<longleftrightarrow> rc_phase c t = Committed (Some row)"
    and "\<And>t row. rc_phase c' t = Returned (Some row) \<Longrightarrow>
      rc_phase c t = Returned (Some row) \<and> (rc_lock c = Some t \<longrightarrow> rc_lock c' = Some t)"
  shows "race_invariant c'"
  using assms unfolding race_invariant_def by (simp only:) blast

lemma race_committed:
  assumes "race_invariant c" and "rc_phase c t = Returned (Some row)"
    and "rc_phase c' = (rc_phase c)(t := Committed (Some row))" and "rc_row c' = row"
  shows "race_invariant c'"
proof -
  have t: "rc_lock c = Some t" "rtm_used_at row \<noteq> None" "rc_phase c u \<noteq> Committed (Some y)" for u y
    using assms(1,2) unfolding race_invariant_def by blast+
  have "rc_phase c u \<noteq> Returned (Some y)" if "u \<noteq> t" for u y
    using assms(1) t(1) that unfolding race_invariant_def by force
  with t(2,3) show ?thesis unfolding race_invariant_def assms(3,4) by auto
qed

lemma race_locked:
  assumes "race_invariant c" and "rc_lock c = None" and "rtm_used_at (rc_row c) = None"
    and "rtm_used_at row \<noteq> None"
    and "rc_phase c' = (rc_phase c)(t := Returned (Some row))" and "rc_row c' = rc_row c" and "rc_lock c' = Some t"
  shows "race_invariant c'"
proof -
  have "rc_phase c u \<noteq> Returned (Some y)" "rc_phase c u \<noteq> Committed (Some y)" for u y
    using assms(1-3) unfolding race_invariant_def by auto
  with assms(3-7) show ?thesis unfolding race_invariant_def by auto
qed

lemma step_race:
  assumes "exchange_step h at c c'" and "race_invariant c"
  shows "race_invariant c'"
  using assms
proof (cases rule: exchange_step.cases)
  case (locks t)
  then show ?thesis
    by (intro race_locked [OF assms(2), of "consumed_row (at t) (rc_row c)" c' t])
       (auto simp: set_phase_def consumed_row_def dest: consumable_unused)
next
  case (commits t x)
  then show ?thesis
  proof (cases x)
    case None
    then show ?thesis
      using commits by (intro race_quiet [OF assms(2)]) (auto simp: set_phase_def unlocked_def split: if_splits)
  next
    case (Some row)
    then show ?thesis
      using commits by (intro race_committed [OF assms(2)]) (auto simp: set_phase_def unlocked_def)
  qed
next
  case (rolls_back t x)
  show ?thesis
  proof (rule race_quiet [OF assms(2)])
  qed (use rolls_back in \<open>auto simp: set_phase_def unlocked_def split: if_splits\<close>)
qed (rule race_quiet [OF assms(2)], auto simp: set_phase_def split: if_splits)+

lemma runs_race:
  assumes "exchange_runs h at c c'" and "race_invariant c"
  shows "race_invariant c'"
  using assms unfolding exchange_runs_def by (induction rule: rtranclp_induct) (auto dest: step_race)

text \<open>
  C4. A refresh token is exchanged once however many requests present it at the same time: among any number
  of transactions, interleaved in any way, at most one commits with the token, and every other one
  commits with nothing or rolls back. The token is left used exactly when one has committed it, so a
  winner that fails leaves it to the next.
\<close>

theorem exchanged_once:
  assumes "rtm_used_at row = None" and "exchange_runs h at (race_of row) c"
  shows "(\<forall>t u x y. rc_phase c t = Committed (Some x) \<and> rc_phase c u = Committed (Some y) \<longrightarrow> t = u) \<and>
    (rtm_used_at (rc_row c) \<noteq> None \<longleftrightarrow> (\<exists>t x. rc_phase c t = Committed (Some x)))"
proof -
  have "race_invariant (race_of row)" using assms(1) by (simp add: race_invariant_def race_of_def)
  from runs_race [OF assms(2) this] have inv: "race_invariant c" .
  have "t = u" if "rc_phase c t = Committed (Some x)" "rc_phase c u = Committed (Some y)" for t u x y
    using inv that unfolding race_invariant_def by metis
  moreover have "rtm_used_at (rc_row c) \<noteq> None \<longleftrightarrow> (\<exists>t x. rc_phase c t = Committed (Some x))"
    using inv unfolding race_invariant_def by metis
  ultimately show ?thesis by blast
qed

text \<open>The first of two takes the row, the second waits for it, and finds it used.\<close>

definition demo_token_row :: refresh_token_model where
  "demo_token_row = \<lparr> rtm_id = 1, rtm_user_id = 1, rtm_family_id = 1, rtm_token_hash = ''h'',
     rtm_expires_at = 10, rtm_used_at = None, rtm_revoked_at = None, rtm_created_at = 0 \<rparr>"

definition demo_race :: race where
  "demo_race =
     set_phase 1 (Committed None) (set_phase 1 (Returned None)
       (set_phase 0 (Committed (Some (consumed_row 5 demo_token_row)))
         (set_phase 1 Blocked ((race_of demo_token_row)\<lparr>rc_row := consumed_row 5 demo_token_row\<rparr>))))"

lemma demo_race_runs: "exchange_runs ''h'' (\<lambda>_. 5) (race_of demo_token_row) demo_race"
proof -
  let ?used = "consumed_row 5 demo_token_row" and ?step = "exchange_step ''h'' (\<lambda>_. 5)"
  let ?c1 = "set_phase 0 (Returned (Some ?used)) ((race_of demo_token_row)\<lparr>rc_lock := Some 0\<rparr>)"
  let ?c2 = "set_phase 1 Blocked ?c1"
  let ?c3 = "set_phase 0 (Committed (Some ?used)) (unlocked 0 (?c2\<lparr>rc_row := ?used\<rparr>))"
  let ?c4 = "set_phase 1 (Returned None) ?c3"
  let ?c5 = "set_phase 1 (Committed None) (unlocked 1 (?c4\<lparr>rc_row := ?used\<rparr>))"
  note eval = race_of_def set_phase_def unlocked_def demo_token_row_def consumed_row_def rtm_consumable_def
  have s1: "?step (race_of demo_token_row) ?c1"
    using locks [of "race_of demo_token_row" 0 "''h''" "\<lambda>_. 5"] by (simp add: eval)
  have s2: "?step ?c1 ?c2" using blocks [of ?c1 1 "''h''" "\<lambda>_. 5"] by (simp add: eval)
  have s3: "?step ?c2 ?c3" using commits [of ?c2 0 "Some ?used" "''h''" "\<lambda>_. 5"] by (simp add: eval)
  have s4: "?step ?c3 ?c4" using too_late [of ?c3 1 "''h''" "\<lambda>_. 5"] by (simp add: eval)
  have s5: "?step ?c4 ?c5" using commits [of ?c4 1 None "''h''" "\<lambda>_. 5"] by (simp add: eval)
  note exchange_runs_step [OF s1 exchange_runs_step [OF s2 exchange_runs_step [OF s3
    exchange_runs_step [OF s4 exchange_runs_step [OF s5 exchange_runs_refl]]]]]
  moreover have "?c5 = demo_race" by (simp add: demo_race_def eval)
  ultimately show ?thesis by simp
qed

theorem exchanged_once_witness:
  "rtm_used_at (rc_row demo_race) \<noteq> None \<and> rc_phase demo_race 1 = Committed None"
proof -
  have "rtm_used_at demo_token_row = None" by (simp add: demo_token_row_def)
  from exchanged_once [OF this demo_race_runs] have "rtm_used_at (rc_row demo_race) \<noteq> None \<longleftrightarrow>
    (\<exists>t x. rc_phase demo_race t = Committed (Some x))" by blast
  moreover have "rc_phase demo_race 0 = Committed (Some (consumed_row 5 demo_token_row))"
    by (simp add: demo_race_def set_phase_def)
  moreover have "rc_phase demo_race 1 = Committed None" by (simp add: demo_race_def set_phase_def)
  ultimately show ?thesis by blast
qed

end
