(* ===== verification/Revocation_Race.thy ===== *)
theory Revocation_Race
  imports Interleaving Refresh_Race
begin

text \<open>
  The refresh tokens of an account while they are all revoked: \<open>revoke_all\<close> of a password change, a reset, a
  block or a detected reuse, among exchanges and logins of other requests. Each request is a transaction at
  PostgreSQL's READ COMMITTED: \<open>revoke_all\<close> is one \<open>UPDATE\<close> over the rows that were committed when it
  started, it waits for a row another transaction has locked and then tests its condition again on the row
  as it was committed, and a row that is committed after it started is not among its rows.
\<close>

section \<open>Transactions on the table\<close>

text \<open>The committed rows, and which transaction has a row locked, by the id of the row.\<close>

record token_table =
  tt_rows :: "refresh_token_model list"
  tt_lock :: "uuid \<Rightarrow> nat option"

text \<open>
  A transaction arrives to exchange a token, to store the token of a login, or to revoke all of an account.
  \<open>Sweeping ids rows\<close> is the revocation with the ids it still has to visit and the rows it has updated;
  \<open>Open rows added\<close> has made all its changes: new versions of rows it has locked, and rows it adds.
\<close>

datatype token_tx =
    Exchanging | Logging_in | Revoking
  | Sweeping "uuid list" "refresh_token_model list"
  | Open "refresh_token_model list" "refresh_token_model list"
  | Durable | Undone

definition version :: "refresh_token_model list \<Rightarrow> refresh_token_model \<Rightarrow> refresh_token_model" where
  "version changed r = (case List.find (\<lambda>v. rtm_id v = rtm_id r) changed of None \<Rightarrow> r | Some v \<Rightarrow> v)"

definition install ::
  "refresh_token_model list \<Rightarrow> refresh_token_model list \<Rightarrow> refresh_token_model list \<Rightarrow> refresh_token_model list" where
  "install changed added rows = map (version changed) rows @ added"

definition locked :: "uuid \<Rightarrow> nat \<Rightarrow> token_table \<Rightarrow> token_table" where
  "locked k i s = s\<lparr>tt_lock := (tt_lock s)(k := Some i)\<rparr>"

definition released :: "nat \<Rightarrow> token_table \<Rightarrow> token_table" where
  "released i s = s\<lparr>tt_lock := (\<lambda>k. if tt_lock s k = Some i then None else tt_lock s k)\<rparr>"

definition revoked_row :: "time \<Rightarrow> refresh_token_model \<Rightarrow> refresh_token_model" where
  "revoked_row now row = row\<lparr>rtm_revoked_at := Some now\<rparr>"

definition to_revoke :: "uuid \<Rightarrow> refresh_token_model \<Rightarrow> bool" where
  "to_revoke u row \<longleftrightarrow> rtm_user_id row = u \<and> rtm_revoked_at row = None"

text \<open>
  Transaction \<open>i\<close> reads the clock at \<open>at i\<close>, presents the token with hash \<open>h i\<close> when it exchanges one,
  stores the row \<open>fresh i\<close> when it hands one out, and is about account \<open>u\<close> when it revokes.
\<close>

inductive token_step ::
  "uuid \<Rightarrow> (nat \<Rightarrow> time) \<Rightarrow> (nat \<Rightarrow> string) \<Rightarrow> (nat \<Rightarrow> refresh_token_model) \<Rightarrow>
     nat \<Rightarrow> token_table \<times> token_tx \<Rightarrow> token_table \<times> token_tx \<Rightarrow> bool"
  for u at h fresh i where
  takes: "row \<in> set (tt_rows s) \<Longrightarrow> rtm_consumable (h i) (at i) row \<Longrightarrow> tt_lock s (rtm_id row) = None \<Longrightarrow>
    token_step u at h fresh i (s, Exchanging)
      (locked (rtm_id row) i s, Open [consumed_row (at i) row]
        [(fresh i)\<lparr>rtm_user_id := rtm_user_id row, rtm_family_id := rtm_family_id row\<rparr>])"
| takes_none: "\<forall>row \<in> set (tt_rows s). \<not> rtm_consumable (h i) (at i) row \<Longrightarrow>
    token_step u at h fresh i (s, Exchanging) (s, Undone)"
| stores: "token_step u at h fresh i (s, Logging_in) (s, Open [] [fresh i])"
| begins: "token_step u at h fresh i (s, Revoking)
    (s, Sweeping (map rtm_id (filter (to_revoke u) (tt_rows s))) [])"
| sweeps: "row \<in> set (tt_rows s) \<Longrightarrow> rtm_id row = k \<Longrightarrow> to_revoke u row \<Longrightarrow> tt_lock s k = None \<Longrightarrow>
    token_step u at h fresh i (s, Sweeping (k # ks) vs)
      (locked k i s, Sweeping ks (revoked_row (at i) row # vs))"
| passes_over: "row \<in> set (tt_rows s) \<Longrightarrow> rtm_id row = k \<Longrightarrow> \<not> to_revoke u row \<Longrightarrow> tt_lock s k = None \<Longrightarrow>
    token_step u at h fresh i (s, Sweeping (k # ks) vs) (s, Sweeping ks vs)"
| swept: "token_step u at h fresh i (s, Sweeping [] vs) (s, Open vs [])"
| commits_tx: "distinct (map rtm_id new) \<Longrightarrow> set (map rtm_id new) \<inter> set (map rtm_id (tt_rows s)) = {} \<Longrightarrow>
    token_step u at h fresh i (s, Open vs new)
      (released i (s\<lparr>tt_rows := install vs new (tt_rows s)\<rparr>), Durable)"
| rolls_back_tx: "p = Open vs new \<or> p = Sweeping ks vs \<Longrightarrow>
    token_step u at h fresh i (s, p) (released i s, Undone)"

abbreviation token_runs ::
  "uuid \<Rightarrow> (nat \<Rightarrow> time) \<Rightarrow> (nat \<Rightarrow> string) \<Rightarrow> (nat \<Rightarrow> refresh_token_model) \<Rightarrow> nat \<Rightarrow>
     token_table \<times> (nat \<Rightarrow> token_tx) \<Rightarrow> token_table \<times> (nat \<Rightarrow> token_tx) \<Rightarrow> bool" where
  "token_runs u at h fresh c \<equiv> interleaved (token_step u at h fresh) (\<lambda>_ _. False) c"

fun writes :: "token_tx \<Rightarrow> refresh_token_model list" where
  "writes (Sweeping ks vs) = vs"
| "writes (Open vs new) = vs"
| "writes _ = []"

fun arriving :: "token_tx \<Rightarrow> bool" where
  "arriving Exchanging = True"
| "arriving Logging_in = True"
| "arriving Revoking = True"
| "arriving _ = False"

section \<open>Locks\<close>

text \<open>
  Ids are unique, a transaction that is open has locked every row it has a new version of, and the new
  version keeps the owner and any revocation of the committed one.
\<close>

definition extends :: "refresh_token_model \<Rightarrow> refresh_token_model \<Rightarrow> bool" where
  "extends r v \<longleftrightarrow> rtm_id v = rtm_id r \<and> rtm_user_id v = rtm_user_id r \<and>
     (rtm_revoked_at r \<noteq> None \<longrightarrow> rtm_revoked_at v \<noteq> None)"

definition locks_held :: "token_table \<Rightarrow> (nat \<Rightarrow> token_tx) \<Rightarrow> bool" where
  "locks_held s f \<longleftrightarrow> distinct (map rtm_id (tt_rows s)) \<and>
     (\<forall>i. \<forall>v \<in> set (writes (f i)). tt_lock s (rtm_id v) = Some i \<and> (\<exists>r \<in> set (tt_rows s). extends r v))"

lemma extends_refl: "extends r r"
  by (simp add: extends_def)

lemma version_id [simp]: "rtm_id (version vs r) = rtm_id r"
  by (auto simp: version_def find_Some_iff split: option.splits)

lemma version_extends:
  assumes "distinct (map rtm_id rows)" and "r \<in> set rows" and "\<forall>v \<in> set vs. \<exists>r \<in> set rows. extends r v"
  shows "extends r (version vs r)"
proof (cases "List.find (\<lambda>v. rtm_id v = rtm_id r) vs")
  case None
  then show ?thesis by (simp add: version_def extends_refl)
next
  case (Some v)
  then have v: "v \<in> set vs" "rtm_id v = rtm_id r" by (auto simp: find_Some_iff)
  then obtain r2 where "r2 \<in> set rows" "extends r2 v" using assms(3) by blast
  moreover have "rtm_id r2 = rtm_id r" using \<open>extends r2 v\<close> v by (simp add: extends_def)
  ultimately have "extends r v" using assms(1,2) by (auto simp: distinct_map dest: inj_onD)
  then show ?thesis using Some by (simp add: version_def)
qed

lemma version_untouched: "rtm_id r \<notin> rtm_id ` set vs \<Longrightarrow> version vs r = r"
  by (auto simp: version_def find_Some_iff split: option.splits) (metis imageI nth_mem)

lemma version_written: "rtm_id r \<in> rtm_id ` set vs \<Longrightarrow> version vs r \<in> set vs"
  by (auto simp: version_def find_Some_iff find_None_iff split: option.splits)

text \<open>A step that leaves the rows, takes at most locks that are free, and writes nothing new.\<close>

lemma locks_kept:
  assumes "locks_held s f" and "tt_rows s' = tt_rows s"
    and "\<And>k j. j \<noteq> i \<Longrightarrow> tt_lock s k = Some j \<Longrightarrow> tt_lock s' k = Some j"
    and "\<And>v. v \<in> set (writes p) \<Longrightarrow> tt_lock s' (rtm_id v) = Some i \<and> (\<exists>r \<in> set (tt_rows s). extends r v)"
  shows "locks_held s' (f(i := p))"
  using assms unfolding locks_held_def by auto

lemma locks_same: "locks_held s f \<Longrightarrow> writes p = writes (f i) \<Longrightarrow> locks_held s (f(i := p))"
  by (simp add: locks_held_def)

lemma step_locks:
  assumes "locks_held s f" and "token_step u at h fresh i (s, f i) (s', p)"
  shows "locks_held s' (f(i := p))"
  using assms(2)
proof (cases rule: token_step.cases)
  case (takes row)
  then show ?thesis
    by (intro locks_kept [OF assms(1)]) (auto simp: locked_def consumed_row_def extends_def)
next
  case (sweeps row k ks vs)
  have vs: "tt_lock s (rtm_id v) = Some i" "\<exists>r \<in> set (tt_rows s). extends r v" if "v \<in> set vs" for v
    using that assms(1) sweeps(1) unfolding locks_held_def by (metis writes.simps(1))+
  show ?thesis
  proof (rule locks_kept [OF assms(1)])
    show "tt_rows s' = tt_rows s" "\<And>k j. j \<noteq> i \<Longrightarrow> tt_lock s k = Some j \<Longrightarrow> tt_lock s' k = Some j"
      using sweeps by (auto simp: locked_def)
    show "tt_lock s' (rtm_id v) = Some i \<and> (\<exists>r \<in> set (tt_rows s). extends r v)" if "v \<in> set (writes p)" for v
    proof (cases "v \<in> set vs")
      case True
      then show ?thesis using sweeps vs by (auto simp: locked_def)
    next
      case False
      then have "v = revoked_row (at i) row" using that sweeps by simp
      then show ?thesis using sweeps by (auto simp: locked_def revoked_row_def extends_def)
    qed
  qed
next
  case (commits_tx new vs)
  have vs: "tt_lock s (rtm_id v) = Some i" "\<exists>r \<in> set (tt_rows s). extends r v" if "v \<in> set vs" for v
    using that assms(1) commits_tx(1) unfolding locks_held_def by (metis writes.simps(2))+
  have rows: "tt_rows s' = map (version vs) (tt_rows s) @ new"
    using commits_tx by (simp add: released_def install_def)
  have "distinct (map rtm_id (tt_rows s'))"
    using assms(1) commits_tx rows by (auto simp: locks_held_def comp_def)
  moreover have "tt_lock s' (rtm_id v) = Some j \<and> (\<exists>r \<in> set (tt_rows s'). extends r v)"
    if j: "j \<noteq> i" "v \<in> set (writes (f j))" for j v
  proof -
    obtain r where l: "tt_lock s (rtm_id v) = Some j" and r: "r \<in> set (tt_rows s)" "extends r v"
      using j(2) assms(1) unfolding locks_held_def by blast
    have "rtm_id r \<notin> rtm_id ` set vs" using vs(1) l r(2) j(1) by (auto simp: extends_def)
    then have "r \<in> set (tt_rows s')" using version_untouched r(1) rows by force
    with l r(2) j(1) commits_tx show ?thesis by (auto simp: released_def)
  qed
  ultimately show ?thesis using commits_tx by (auto simp: locks_held_def)
next
  case (passes_over row k ks vs)
  then show ?thesis using locks_same [OF assms(1), of p i] by simp
next
  case (swept vs)
  then show ?thesis using locks_same [OF assms(1), of p i] by simp
qed (auto intro!: locks_kept [OF assms(1)] simp: released_def)

section \<open>What a revocation covers\<close>

definition row_revoked :: "uuid \<Rightarrow> token_table \<Rightarrow> bool" where
  "row_revoked k s \<longleftrightarrow> (\<forall>r \<in> set (tt_rows s). rtm_id r = k \<longrightarrow> rtm_revoked_at r \<noteq> None)"

abbreviation all_revoked :: "refresh_token_model list \<Rightarrow> bool" where
  "all_revoked vs \<equiv> \<forall>v \<in> set vs. rtm_revoked_at v \<noteq> None"

fun covering :: "uuid \<Rightarrow> token_table \<Rightarrow> token_tx \<Rightarrow> bool" where
  "covering k s Revoking \<longleftrightarrow> True"
| "covering k s (Sweeping ks vs) \<longleftrightarrow> all_revoked vs \<and> (k \<in> set ks \<or> k \<in> rtm_id ` set vs \<or> row_revoked k s)"
| "covering k s (Open vs new) \<longleftrightarrow> all_revoked vs \<and> (k \<in> rtm_id ` set vs \<or> row_revoked k s)"
| "covering k s Durable \<longleftrightarrow> row_revoked k s"
| "covering k s Undone \<longleftrightarrow> True"
| "covering k s p \<longleftrightarrow> False"

definition revocation_invariant :: "uuid \<Rightarrow> nat \<Rightarrow> uuid \<Rightarrow> token_table \<Rightarrow> (nat \<Rightarrow> token_tx) \<Rightarrow> bool" where
  "revocation_invariant u j k s f \<longleftrightarrow> locks_held s f \<and> covering k s (f j) \<and>
     (\<exists>r \<in> set (tt_rows s). rtm_id r = k \<and> rtm_user_id r = u)"

text \<open>What a step makes of a committed row, and that a row is added under an id of its own.\<close>

lemma step_rows:
  assumes "locks_held s f" and "token_step u at h fresh i (s, f i) (s', p)" and r: "r \<in> set (tt_rows s)"
  shows "(\<exists>r' \<in> set (tt_rows s'). extends r r') \<and>
    (\<forall>r' \<in> set (tt_rows s'). rtm_id r' = rtm_id r \<longrightarrow> extends r r')"
proof -
  have d: "distinct (map rtm_id (tt_rows s))" using assms(1) by (simp add: locks_held_def)
  then have only: "r2 = r" if "r2 \<in> set (tt_rows s)" "rtm_id r2 = rtm_id r" for r2
    using that r by (auto simp: distinct_map dest: inj_onD)
  show ?thesis
    using assms(2)
  proof (cases rule: token_step.cases)
    case (commits_tx new vs)
    have "\<forall>v \<in> set vs. \<exists>r \<in> set (tt_rows s). extends r v"
      using assms(1) commits_tx(1) unfolding locks_held_def by (metis writes.simps(2))
    note e = version_extends [OF d _ this]
    have rows: "tt_rows s' = map (version vs) (tt_rows s) @ new"
      using commits_tx by (simp add: released_def install_def)
    have "extends r r'" if r': "r' \<in> set (tt_rows s')" "rtm_id r' = rtm_id r" for r'
    proof -
      have "r' \<notin> set new" using r'(2) commits_tx r by (metis disjoint_iff imageI list.set_map)
      then obtain r2 where "r2 \<in> set (tt_rows s)" "r' = version vs r2" using r'(1) rows by auto
      with only [of r2] r'(2) show ?thesis using e [OF r] by simp
    qed
    moreover have "version vs r \<in> set (tt_rows s')" using rows r by simp
    ultimately show ?thesis using e [OF r] by blast
  qed (use r only extends_refl in \<open>force simp: locked_def released_def\<close>)+
qed

lemma row_revoked_kept:
  assumes "locks_held s f" and "token_step u at h fresh i (s, f i) (s', p)" and "row_revoked k s"
    and "r \<in> set (tt_rows s)" and "rtm_id r = k"
  shows "row_revoked k s'"
  using step_rows [OF assms(1,2,4)] assms(3-5) by (auto simp: row_revoked_def extends_def)

lemma covering_mono: "covering k s q \<Longrightarrow> (row_revoked k s \<Longrightarrow> row_revoked k s') \<Longrightarrow> covering k s' q"
  by (cases q) auto

lemma own_step_covering:
  assumes "locks_held s f" and "token_step u at h fresh j (s, f j) (s', p)" and "covering k s (f j)"
    and r: "r \<in> set (tt_rows s)" "rtm_id r = k" "rtm_user_id r = u"
  shows "covering k s' p"
proof -
  note kept = row_revoked_kept [OF assms(1,2) _ r(1,2)]
  have d: "distinct (map rtm_id (tt_rows s))" using assms(1) by (simp add: locks_held_def)
  then have only: "r2 = r" if "r2 \<in> set (tt_rows s)" "rtm_id r2 = k" for r2
    using that r by (auto simp: distinct_map dest: inj_onD)
  have unlisted: "row_revoked k s" if "\<not> to_revoke u r"
    unfolding row_revoked_def
  proof (intro ballI impI)
    fix r2 assume "r2 \<in> set (tt_rows s)" "rtm_id r2 = k"
    from only [OF this] show "rtm_revoked_at r2 \<noteq> None" using that r(3) by (simp add: to_revoke_def)
  qed
  show ?thesis
    using assms(2)
  proof (cases rule: token_step.cases)
    case begins
    then show ?thesis using r unlisted by (auto simp: row_revoked_def)
  next
    case (sweeps row k' ks vs)
    then show ?thesis using assms(3) by (auto simp: revoked_row_def row_revoked_def locked_def)
  next
    case (passes_over row k' ks vs)
    then show ?thesis using assms(3) only [of row] unlisted by auto
  next
    case (commits_tx new vs)
    have rows: "tt_rows s' = map (version vs) (tt_rows s) @ new"
      using commits_tx by (simp add: released_def install_def)
    have "row_revoked k s'" if k: "k \<in> rtm_id ` set vs" and vs: "all_revoked vs"
      unfolding row_revoked_def
    proof (intro ballI impI)
      fix r' assume r': "r' \<in> set (tt_rows s')" "rtm_id r' = k"
      have "r' \<notin> set new" using r'(2) r commits_tx by (metis disjoint_iff imageI list.set_map)
      then obtain r2 where "r2 \<in> set (tt_rows s)" "r' = version vs r2" using r'(1) rows by auto
      then show "rtm_revoked_at r' \<noteq> None" using version_written [of r2 vs] k vs r'(2) by auto
    qed
    then show ?thesis using assms(3) commits_tx kept by auto
  qed (use assms(3) in auto)
qed

lemma step_revocation:
  assumes "revocation_invariant u j k s f" and "token_step u at h fresh i (s, f i) (s', p)"
  shows "revocation_invariant u j k s' (f(i := p))"
proof -
  have l: "locks_held s f" and c: "covering k s (f j)" using assms(1) by (simp_all add: revocation_invariant_def)
  obtain r where r: "r \<in> set (tt_rows s)" "rtm_id r = k" "rtm_user_id r = u"
    using assms(1) by (auto simp: revocation_invariant_def)
  have "\<exists>r \<in> set (tt_rows s'). rtm_id r = k \<and> rtm_user_id r = u"
    using step_rows [OF l assms(2) r(1)] r by (auto simp: extends_def)
  moreover have "covering k s' ((f(i := p)) j)"
    using own_step_covering [OF l _ c r] covering_mono [OF c row_revoked_kept [OF l assms(2) _ r(1,2)]] assms(2)
    by auto
  ultimately show ?thesis using step_locks [OF l assms(2)] by (simp add: revocation_invariant_def)
qed

text \<open>Locks are held in every execution from the start.\<close>

interpretation table_locks: interleaving_invariant "token_step u at h fresh" "\<lambda>_ _. False" c locks_held
  for u at h fresh c
  by unfold_locales (auto intro: step_locks)

interpretation revoking: interleaving_invariant "token_step u at h fresh" "\<lambda>_ _. False" c "revocation_invariant u j k"
  for u at h fresh c j k
  by unfold_locales (auto intro: step_revocation)

definition quiet_table :: "refresh_token_model list \<Rightarrow> token_table" where
  "quiet_table rows = \<lparr> tt_rows = rows, tt_lock = (\<lambda>_. None) \<rparr>"

lemma quiet_simps [simp]:
  "tt_rows (quiet_table rows) = rows" "tt_lock (quiet_table rows) k = None"
  "tt_rows (locked k i s) = tt_rows s"
  "released i ((locked k i (quiet_table rows))\<lparr>tt_rows := rows'\<rparr>) = quiet_table rows'"
  by (auto simp: quiet_table_def locked_def released_def)

text \<open>
  C5. Whatever exchanges, logins and revocations run at the same time, a revocation of all the refresh tokens of an
  account that commits leaves every token revoked that was in the table when its statement began, and no
  such token is exchanged from then on.
\<close>

theorem revocation_covers:
  assumes "distinct (map rtm_id rows)" and "\<forall>i. arriving (f0 i)"
    and "token_runs u at h fresh c (quiet_table rows, f0) (s, f)" and "f j = Revoking"
    and "r \<in> set (tt_rows s)" and "rtm_user_id r = u"
    and "token_runs u at h fresh c (s, f) (s', f')" and "f' j = Durable"
  shows "(\<exists>r' \<in> set (tt_rows s'). rtm_id r' = rtm_id r) \<and>
    (\<forall>r' \<in> set (tt_rows s'). rtm_id r' = rtm_id r \<longrightarrow>
       rtm_revoked_at r' \<noteq> None \<and> (\<forall>hash now. \<not> rtm_consumable hash now r'))"
proof -
  have "writes (f0 i) = []" for i using assms(2) [rule_format, of i] by (cases "f0 i") simp_all
  then have "locks_held (quiet_table rows) f0" using assms(1) by (simp add: locks_held_def quiet_table_def)
  from table_locks.kept [OF assms(3) this] have "revocation_invariant u j (rtm_id r) s f"
    using assms(4-6) by (auto simp: revocation_invariant_def)
  from revoking.kept [OF assms(7) this] show ?thesis
    using assms(8) by (auto simp: revocation_invariant_def row_revoked_def rtm_consumable_def)
qed

text \<open>
  The token that an exchange hands out is not among those. Here the exchange has taken the row when the
  revocation starts, the revocation waits for it and then revokes the old token, and the new one, committed
  in between, is left as good as before.
\<close>

definition demo_fresh_row :: refresh_token_model where
  "demo_fresh_row = demo_token_row\<lparr>rtm_id := 2, rtm_token_hash := ''n''\<rparr>"

definition demo_arrivals :: "nat \<Rightarrow> token_tx" where
  "demo_arrivals = (\<lambda>_. Revoking)(0 := Exchanging)"

abbreviation demo_tokens ::
  "token_table \<times> (nat \<Rightarrow> token_tx) \<Rightarrow> token_table \<times> (nat \<Rightarrow> token_tx) \<Rightarrow> bool" where
  "demo_tokens \<equiv> token_runs 1 (\<lambda>_. 5) (\<lambda>_. ''h'') (\<lambda>_. demo_fresh_row) 2"

definition demo_used :: refresh_token_model where
  "demo_used = consumed_row 5 demo_token_row"

lemmas demo_table_defs = demo_used_def demo_fresh_row_def demo_token_row_def consumed_row_def revoked_row_def
  rtm_consumable_def to_revoke_def install_def version_def

lemma demo_taken:
  "demo_tokens (quiet_table [demo_token_row], demo_arrivals)
     (locked 1 0 (quiet_table [demo_token_row]), demo_arrivals(0 := Open [demo_used] [demo_fresh_row]))"
proof -
  have "token_step 1 (\<lambda>_. 5) (\<lambda>_. ''h'') (\<lambda>_. demo_fresh_row) 0 (quiet_table [demo_token_row], Exchanging)
      (locked 1 0 (quiet_table [demo_token_row]), Open [demo_used] [demo_fresh_row])"
    using takes [of demo_token_row "quiet_table [demo_token_row]" "\<lambda>_. ''h''" 0 "\<lambda>_. 5" 1 "\<lambda>_. demo_fresh_row"]
    by (simp add: demo_table_defs)
  then show ?thesis by - (rule interleaved_first [where i = 0, OF _ _ idle], simp_all add: demo_arrivals_def)
qed

lemma demo_revoked:
  "demo_tokens (locked 1 0 (quiet_table [demo_token_row]), demo_arrivals(0 := Open [demo_used] [demo_fresh_row]))
     (quiet_table [revoked_row 5 demo_used, demo_fresh_row], demo_arrivals(0 := Durable, 1 := Durable))"
proof -
  let ?step = "token_step 1 (\<lambda>_. 5) (\<lambda>_. ''h'') (\<lambda>_. demo_fresh_row)"
  let ?s1 = "locked 1 0 (quiet_table [demo_token_row])" and ?s2 = "quiet_table [demo_used, demo_fresh_row]"
  have s1: "?step (Suc 0) (?s1, Revoking) (?s1, Sweeping [1] [])"
    using begins [of 1 "\<lambda>_. 5" "\<lambda>_. ''h''" "\<lambda>_. demo_fresh_row" "Suc 0" ?s1] by (simp add: demo_table_defs)
  have s2: "?step 0 (?s1, Open [demo_used] [demo_fresh_row]) (?s2, Durable)"
    using commits_tx [of "[demo_fresh_row]" ?s1 1 "\<lambda>_. 5" "\<lambda>_. ''h''" "\<lambda>_. demo_fresh_row" 0 "[demo_used]"]
    by (simp add: demo_table_defs)
  have s3: "?step (Suc 0) (?s2, Sweeping [1] []) (locked 1 (Suc 0) ?s2, Sweeping [] [revoked_row 5 demo_used])"
    using sweeps [of demo_used ?s2 1 1 "\<lambda>_. 5" "\<lambda>_. ''h''" "\<lambda>_. demo_fresh_row" "Suc 0" "[]" "[]"]
    by (simp add: demo_table_defs)
  have s4: "?step (Suc 0) (locked 1 (Suc 0) ?s2, Sweeping [] [revoked_row 5 demo_used]) (locked 1 (Suc 0) ?s2, Open [revoked_row 5 demo_used] [])"
    by (rule swept)
  have s5: "?step (Suc 0) (locked 1 (Suc 0) ?s2, Open [revoked_row 5 demo_used] [])
      (quiet_table [revoked_row 5 demo_used, demo_fresh_row], Durable)"
    using commits_tx [of "[]" "locked 1 (Suc 0) ?s2" 1 "\<lambda>_. 5" "\<lambda>_. ''h''" "\<lambda>_. demo_fresh_row" "Suc 0" "[revoked_row 5 demo_used]"]
    by (simp add: demo_table_defs)
  show ?thesis
    apply (rule interleaved_first [where i = "Suc 0"], simp, simp add: demo_arrivals_def, rule s1)
    apply (rule interleaved_first [where i = 0], simp, simp, rule s2)
    apply (rule interleaved_first [where i = "Suc 0"], simp, simp, rule s3)
    apply (rule interleaved_first [where i = "Suc 0"], simp, simp, rule s4)
    apply (rule interleaved_first [where i = "Suc 0"], simp, simp, rule s5)
    apply (simp add: fun_upd_twist idle)
    done
qed

lemma fresh_token_survives: "rtm_consumable ''n'' 6 demo_fresh_row"
  by (simp add: demo_table_defs)

theorem revocation_covers_witness:
  "rtm_revoked_at (revoked_row 5 demo_used) \<noteq> None \<and> \<not> rtm_consumable ''h'' 6 (revoked_row 5 demo_used)"
proof -
  have "\<forall>i. arriving (demo_arrivals i)" by (simp add: demo_arrivals_def)
  note covered = revocation_covers [OF _ this demo_taken _ _ _ demo_revoked, of 1 demo_token_row]
  have "revoked_row 5 demo_used \<in> set (tt_rows (quiet_table [revoked_row 5 demo_used, demo_fresh_row]))"
    by (simp add: quiet_table_def)
  moreover have "rtm_id (revoked_row 5 demo_used) = rtm_id demo_token_row" by (simp add: demo_table_defs)
  ultimately show ?thesis using covered by (simp add: demo_arrivals_def demo_token_row_def quiet_table_def locked_def)
qed

end
