(* ===== verification/Registration_Race.thy ===== *)
theory Registration_Race
  imports Interleaving Repositories
begin

text \<open>
  Registrations at the same time. \<open>register\<close> of \<open>app/services/auth.py\<close> looks whether the address or the
  handle is taken and inserts afterwards, so two registrations may both find them free. The unique indexes of
  the table decide: an insertion that meets one that is not committed yet waits for it, and fails with
  \<open>IntegrityError\<close> once that one is committed. Creating an administrator does the same.
\<close>

section \<open>Two statements and a commit\<close>

text \<open>The committed accounts, and the row each transaction has inserted and not committed.\<close>

record account_table =
  at_users :: "user_model list"
  at_pending :: "nat \<Rightarrow> user_model option"

datatype registration =
    Looking | Cleared | Inserted | Created | Conflict_409 | Integrity_500 | Abandoned

definition same_name :: "user_model \<Rightarrow> user_model \<Rightarrow> bool" where
  "same_name a b \<longleftrightarrow> um_email a = um_email b \<or> um_handle a = um_handle b"

text \<open>Transaction \<open>i\<close> registers the account \<open>row i\<close>, whose address and handle are normalised.\<close>

inductive registration_step ::
  "(nat \<Rightarrow> user_model) \<Rightarrow> nat \<Rightarrow> account_table \<times> registration \<Rightarrow> account_table \<times> registration \<Rightarrow> bool"
  for row i where
  taken: "\<exists>r \<in> set (at_users s). um_email r = um_email (row i) \<or> um_handle r = um_handle (row i) \<Longrightarrow>
    registration_step row i (s, Looking) (s, Conflict_409)"
| free: "\<forall>r \<in> set (at_users s). um_email r \<noteq> um_email (row i) \<and> um_handle r \<noteq> um_handle (row i) \<Longrightarrow>
    registration_step row i (s, Looking) (s, Cleared)"
| inserts: "\<forall>r \<in> set (at_users s). \<not> same_name r (row i) \<Longrightarrow>
    \<forall>k r. at_pending s k = Some r \<longrightarrow> \<not> same_name r (row i) \<Longrightarrow>
    registration_step row i (s, Cleared) (s\<lparr>at_pending := (at_pending s)(i := Some (row i))\<rparr>, Inserted)"
| violates: "\<exists>r \<in> set (at_users s). same_name r (row i) \<Longrightarrow>
    registration_step row i (s, Cleared) (s, Integrity_500)"
| registers: "at_pending s i = Some r \<Longrightarrow>
    registration_step row i (s, Inserted)
      (s\<lparr>at_users := at_users s @ [r], at_pending := (at_pending s)(i := None)\<rparr>, Created)"
| abandons: "p = Cleared \<or> p = Inserted \<Longrightarrow>
    registration_step row i (s, p) (s\<lparr>at_pending := (at_pending s)(i := None)\<rparr>, Abandoned)"

abbreviation registrations ::
  "(nat \<Rightarrow> user_model) \<Rightarrow> nat \<Rightarrow>
     account_table \<times> (nat \<Rightarrow> registration) \<Rightarrow> account_table \<times> (nat \<Rightarrow> registration) \<Rightarrow> bool" where
  "registrations row c \<equiv> interleaved (registration_step row) (\<lambda>_ _. False) c"

section \<open>One account per address and handle\<close>

text \<open>
  No two rows, committed or not, share a name, a row that is pending is its transaction's own, and the row of
  an account that was created is among the committed ones, which a refused registration has met.
\<close>

definition names_unique :: "(nat \<Rightarrow> user_model) \<Rightarrow> account_table \<Rightarrow> (nat \<Rightarrow> registration) \<Rightarrow> bool" where
  "names_unique row s f \<longleftrightarrow>
     distinct (map um_email (at_users s)) \<and> distinct (map um_handle (at_users s)) \<and>
     (\<forall>i r. at_pending s i = Some r \<longrightarrow> f i = Inserted \<and> r = row i \<and> (\<forall>u \<in> set (at_users s). \<not> same_name u r) \<and>
        (\<forall>j v. at_pending s j = Some v \<longrightarrow> same_name v r \<longrightarrow> j = i))"

definition answers_justified :: "(nat \<Rightarrow> user_model) \<Rightarrow> account_table \<Rightarrow> (nat \<Rightarrow> registration) \<Rightarrow> bool" where
  "answers_justified row s f \<longleftrightarrow>
     (\<forall>i. f i = Created \<longrightarrow> row i \<in> set (at_users s)) \<and>
     (\<forall>i j. f i = Created \<longrightarrow> f j = Created \<longrightarrow> same_name (row i) (row j) \<longrightarrow> i = j) \<and>
     (\<forall>i. f i = Conflict_409 \<or> f i = Integrity_500 \<longrightarrow> (\<exists>r \<in> set (at_users s). same_name r (row i)))"

lemma same_name_sym: "same_name a b \<longleftrightarrow> same_name b a"
  by (auto simp: same_name_def)

lemma step_names_unique:
  assumes "names_unique row s f" and "registration_step row i (s, f i) (s', p)"
  shows "names_unique row s' (f(i := p))"
proof -
  have none: "at_pending s i = None" if "f i \<noteq> Inserted"
    using assms(1) that unfolding names_unique_def by (cases "at_pending s i") auto
  show ?thesis
    using assms(2)
  proof (cases rule: registration_step.cases)
    case inserts
    then show ?thesis using assms(1) same_name_sym unfolding names_unique_def by auto
  next
    case (registers r)
    have r: "r = row i" "\<forall>u \<in> set (at_users s). \<not> same_name u r"
      and others: "\<And>j v. at_pending s j = Some v \<Longrightarrow> same_name v r \<Longrightarrow> j = i"
      using assms(1) registers(4) unfolding names_unique_def by blast+
    have "distinct (map um_email (at_users s @ [r]))" "distinct (map um_handle (at_users s @ [r]))"
      using assms(1) r(2) unfolding names_unique_def by (auto simp: same_name_def)
    moreover have "\<not> same_name r v" if "at_pending s j = Some v" "j \<noteq> i" for j v
      using others [OF that(1)] that(2) same_name_sym by blast
    ultimately show ?thesis using assms(1) registers unfolding names_unique_def by auto
  qed (use assms(1) none in \<open>auto simp: names_unique_def\<close>)
qed

lemma step_answers_justified:
  assumes "names_unique row s f \<and> answers_justified row s f" and "registration_step row i (s, f i) (s', p)"
  shows "answers_justified row s' (f(i := p))"
  using assms(2)
proof (cases rule: registration_step.cases)
  case (registers r)
  then have "r = row i" "\<forall>u \<in> set (at_users s). \<not> same_name u (row i)"
    using assms(1) unfolding names_unique_def by blast+
  with registers show ?thesis
    using assms(1) same_name_sym unfolding answers_justified_def by (auto; blast)
qed (use assms(1) in \<open>auto simp: answers_justified_def same_name_def\<close>)

interpretation naming: interleaving_invariant "registration_step row" "\<lambda>_ _. False" c
  "\<lambda>s f. names_unique row s f \<and> answers_justified row s f" for row c
  by unfold_locales (auto intro: step_names_unique step_answers_justified)

text \<open>
  Of the registrations with one address or handle at most one creates its account, whatever interleaves, and
  one that is refused, in either way, has met an account with a name of its own.
\<close>

lemma registered_once:
  assumes "users_unique rows"
    and "registrations row c (\<lparr> at_users = rows, at_pending = (\<lambda>_. None) \<rparr>, \<lambda>_. Looking) (s, f)"
  shows "distinct (map um_email (at_users s)) \<and> distinct (map um_handle (at_users s)) \<and>
    (\<forall>i j. f i = Created \<longrightarrow> f j = Created \<longrightarrow> same_name (row i) (row j) \<longrightarrow> i = j) \<and>
    (\<forall>i. f i = Conflict_409 \<or> f i = Integrity_500 \<longrightarrow> (\<exists>r \<in> set (at_users s). same_name r (row i)))"
proof -
  let ?s = "\<lparr> at_users = rows, at_pending = (\<lambda>_. None) \<rparr>"
  have "names_unique row ?s (\<lambda>_. Looking) \<and> answers_justified row ?s (\<lambda>_. Looking)"
    using assms(1) by (simp add: names_unique_def answers_justified_def users_unique_def)
  from naming.kept [OF assms(2) this] show ?thesis by (simp add: names_unique_def answers_justified_def)
qed

text \<open>
  A registration that looks once the other is committed is answered 409, as the code means to; one that has
  looked before ends with the 500 of an exception nobody handles.
\<close>

lemma late_registration:
  assumes "registration_step row i (s, Looking) (s', p)" and "\<exists>r \<in> set (at_users s). same_name r (row i)"
  shows "p = Conflict_409"
  using assms by (cases rule: registration_step.cases) (auto simp: same_name_def)

lemma overtaken_registration:
  assumes "registrations row c x (s, f)" and "i < c" and "f i = Cleared"
    and "\<exists>r \<in> set (at_users s). same_name r (row i)"
  shows "registrations row c x (s, f(i := Integrity_500)) \<and>
    (\<forall>s' p. registration_step row i (s, Cleared) (s', p) \<longrightarrow> p = Integrity_500 \<or> p = Abandoned)"
proof -
  have "registration_step row i (s, f i) (s, Integrity_500)" using violates assms(3,4) by simp
  from moves [where f = f, OF assms(1,2) this] show ?thesis
    using assms(4) by (auto elim: registration_step.cases)
qed

text \<open>Two registrations of one name that is free: one is created, the other is an exception.\<close>

lemma simultaneous_registrations:
  assumes "\<forall>r \<in> set rows. \<not> same_name r (row 0) \<and> \<not> same_name r (row 1)" and "same_name (row 0) (row 1)"
  shows "registrations row 2 (\<lparr> at_users = rows, at_pending = (\<lambda>_. None) \<rparr>, \<lambda>_. Looking)
    (\<lparr> at_users = rows @ [row 0], at_pending = (\<lambda>_. None) \<rparr>, (\<lambda>_. Looking)(0 := Created, 1 := Integrity_500))"
proof -
  let ?s = "\<lparr> at_users = rows, at_pending = (\<lambda>_. None) \<rparr>"
  let ?held = "\<lparr> at_users = rows, at_pending = [0 \<mapsto> row 0] \<rparr>"
  let ?done = "\<lparr> at_users = rows @ [row 0], at_pending = (\<lambda>_. None) \<rparr>"
  have l: "registration_step row 0 (?s, Looking) (?s, Cleared)"
    "registration_step row (Suc 0) (?s, Looking) (?s, Cleared)"
    using assms(1) by (auto intro!: free simp: same_name_def)
  have i: "registration_step row 0 (?s, Cleared) (?held, Inserted)" using inserts [of ?s row 0] assms(1) by simp
  have c: "registration_step row 0 (?held, Inserted) (?done, Created)" using registers [of ?held 0 "row 0" row] by simp
  have v: "registration_step row (Suc 0) (?done, Cleared) (?done, Integrity_500)"
    using assms(2) by (intro violates) simp
  show ?thesis
    apply (rule interleaved_first [where i = 0], simp, rule l(1))
    apply (rule interleaved_first [where i = "Suc 0"], simp, simp, rule l(2))
    apply (rule interleaved_first [where i = 0], simp, simp, rule i)
    apply (rule interleaved_first [where i = 0], simp, simp, rule c)
    apply (rule interleaved_first [where i = "Suc 0"], simp, simp, rule v)
    apply (simp add: fun_upd_twist idle)
    done
qed

end
