(* ===== verification/Link_Race.thy ===== *)
theory Link_Race
  imports Interleaving Repositories
begin

text \<open>
  Resets that present one recovery link at the same time. \<open>reset_password\<close> of
  \<open>app/services/password_reset.py\<close> reads the link, and the statements that store the password and mark the
  links of the account as used come later, unlike the exchange of a refresh token, which tests and marks in
  one statement. The row of the account is locked from the first of them to the commit.
\<close>

section \<open>A reset, statement by statement\<close>

text \<open>The committed row of the link, the committed password hash of its account, and who has that row locked.\<close>

record link_state =
  ln_row :: password_reset_token_model
  ln_hash :: string
  ln_lock :: "nat option"

datatype reset = Presenting | Reading_done | Writing | Reset | Rejected_400 | Unfinished

text \<open>Reset \<open>i\<close> reads the clock at \<open>at i\<close> and stores the hash \<open>new i\<close>.\<close>

inductive reset_step ::
  "(nat \<Rightarrow> time) \<Rightarrow> (nat \<Rightarrow> string) \<Rightarrow> nat \<Rightarrow> link_state \<times> reset \<Rightarrow> link_state \<times> reset \<Rightarrow> bool"
  for at new i where
  accepts: "prt_is_usable (prt_of_row (ln_row s)) (at i) \<Longrightarrow> reset_step at new i (s, Presenting) (s, Reading_done)"
| rejects: "\<not> prt_is_usable (prt_of_row (ln_row s)) (at i) \<Longrightarrow> reset_step at new i (s, Presenting) (s, Rejected_400)"
| writes_password: "ln_lock s = None \<Longrightarrow>
    reset_step at new i (s, Reading_done) (s\<lparr>ln_lock := Some i\<rparr>, Writing)"
| commits_reset:
    "reset_step at new i (s, Writing)
       (s\<lparr>ln_row := if prm_used_at (ln_row s) = None then (ln_row s)\<lparr>prm_used_at := Some (at i)\<rparr> else ln_row s,
          ln_hash := new i, ln_lock := None\<rparr>, Reset)"
| fails_reading: "reset_step at new i (s, Reading_done) (s, Unfinished)"
| fails_writing: "reset_step at new i (s, Writing) (s\<lparr>ln_lock := None\<rparr>, Unfinished)"

text \<open>Outside, another link of the account may close this one.\<close>

definition link_elsewhere :: "link_state \<Rightarrow> link_state \<Rightarrow> bool" where
  "link_elsewhere s s' \<longleftrightarrow> (\<exists>now. s' = s\<lparr>ln_row := (ln_row s)\<lparr>prm_used_at := Some now\<rparr>\<rparr>)"

abbreviation resets ::
  "(nat \<Rightarrow> time) \<Rightarrow> (nat \<Rightarrow> string) \<Rightarrow> nat \<Rightarrow>
     link_state \<times> (nat \<Rightarrow> reset) \<Rightarrow> link_state \<times> (nat \<Rightarrow> reset) \<Rightarrow> bool" where
  "resets at new c \<equiv> interleaved (reset_step at new) link_elsewhere c"

section \<open>Who gets through\<close>

definition link_closed :: "nat set \<Rightarrow> link_state \<Rightarrow> (nat \<Rightarrow> reset) \<Rightarrow> bool" where
  "link_closed waiting s f \<longleftrightarrow> prm_used_at (ln_row s) \<noteq> None \<and> (\<forall>i \<in> waiting. f i = Presenting \<or> f i = Rejected_400)"

definition link_used :: "link_state \<Rightarrow> (nat \<Rightarrow> reset) \<Rightarrow> bool" where
  "link_used s f \<longleftrightarrow> (\<forall>i. f i = Reset \<longrightarrow> prm_used_at (ln_row s) \<noteq> None)"

lemma used_unusable: "prm_used_at row \<noteq> None \<Longrightarrow> \<not> prt_is_usable (prt_of_row row) now"
  by (simp add: prt_is_usable_def prt_of_row_def)

interpretation closing: interleaving_invariant "reset_step at new" link_elsewhere c "link_closed waiting"
  for at new c waiting
proof
  show "link_closed waiting s' (f(i := p))"
    if "link_closed waiting s f" "i < c" "reset_step at new i (s, f i) (s', p)" for s f i s' p
    using that(3)
    by (cases rule: reset_step.cases)
       (use that(1) used_unusable in \<open>auto simp: link_closed_def\<close>)
  show "link_closed waiting s' f" if "link_closed waiting s f" "link_elsewhere s s'" for s f s'
    using that by (auto simp: link_closed_def link_elsewhere_def)
qed

interpretation usage: interleaving_invariant "reset_step at new" link_elsewhere c link_used for at new c
proof
  show "link_used s' (f(i := p))"
    if "link_used s f" "i < c" "reset_step at new i (s, f i) (s', p)" for s f i s' p
    using that(3) by (cases rule: reset_step.cases) (use that(1) in \<open>auto simp: link_used_def\<close>)
  show "link_used s' f" if "link_used s f" "link_elsewhere s s'" for s f s'
    using that by (auto simp: link_used_def link_elsewhere_def)
qed

text \<open>
  Once a reset with the link has committed, every reset that reads it from then on is refused: those that
  get through besides it had all read the link before.
\<close>

lemma later_resets_rejected:
  assumes "resets at new c (s0, \<lambda>_. Presenting) (s, f)" and "f j = Reset"
    and "resets at new c (s, f) (s', f')" and "f i = Presenting"
  shows "f' i = Presenting \<or> f' i = Rejected_400"
proof -
  have "link_used s0 (\<lambda>_. Presenting)" by (simp add: link_used_def)
  from usage.kept [OF assms(1) this] assms(2,4) have "link_closed {i} s f"
    by (auto simp: link_used_def link_closed_def)
  from closing.kept [OF assms(3) this] show ?thesis by (simp add: link_closed_def)
qed

text \<open>And two that read it before either has committed do get through, and the later commit has the password.\<close>

lemma both_reset:
  assumes "prt_is_usable (prt_of_row (ln_row s)) (at 0)" and "prt_is_usable (prt_of_row (ln_row s)) (at 1)"
    and "ln_lock s = None"
  shows "resets at new 2 (s, \<lambda>_. Presenting)
    (s\<lparr>ln_row := (ln_row s)\<lparr>prm_used_at := Some (at 0)\<rparr>, ln_hash := new 1\<rparr>, (\<lambda>_. Presenting)(0 := Reset, 1 := Reset))"
proof -
  let ?used = "(ln_row s)\<lparr>prm_used_at := Some (at 0)\<rparr>"
  let ?s1 = "s\<lparr>ln_lock := Some 0\<rparr>" and ?s2 = "s\<lparr>ln_row := ?used, ln_hash := new 0, ln_lock := None\<rparr>"
  let ?s3 = "s\<lparr>ln_row := ?used, ln_hash := new 0, ln_lock := Some (Suc 0)\<rparr>"
  have unused: "prm_used_at (ln_row s) = None" using assms(1) by (simp add: prt_is_usable_def prt_of_row_def)
  have a: "reset_step at new 0 (s, Presenting) (s, Reading_done)"
    "reset_step at new (Suc 0) (s, Presenting) (s, Reading_done)"
    using accepts [of s at 0] accepts [of s at "Suc 0"] assms(1,2) by simp_all
  have w0: "reset_step at new 0 (s, Reading_done) (?s1, Writing)" using assms(3) by (rule writes_password)
  have c0: "reset_step at new 0 (?s1, Writing) (?s2, Reset)" using commits_reset [of at new 0 ?s1] unused by simp
  have w1: "reset_step at new (Suc 0) (?s2, Reading_done) (?s3, Writing)" using writes_password [of ?s2] by simp
  have c1: "reset_step at new (Suc 0) (?s3, Writing) (s\<lparr>ln_row := ?used, ln_hash := new 1\<rparr>, Reset)"
    using commits_reset [of at new "Suc 0" ?s3] assms(3) by (cases s) simp
  show ?thesis
    apply (rule interleaved_first [where i = 0], simp, rule a(1))
    apply (rule interleaved_first [where i = "Suc 0"], simp, simp, rule a(2))
    apply (rule interleaved_first [where i = 0], simp, simp, rule w0)
    apply (rule interleaved_first [where i = 0], simp, simp, rule c0)
    apply (rule interleaved_first [where i = "Suc 0"], simp, simp, rule w1)
    apply (rule interleaved_first [where i = "Suc 0"], simp, simp, rule c1)
    apply (simp add: fun_upd_twist idle)
    done
qed

end
