(* ===== verification/Spec2Isabelle.thy ===== *)
theory Spec2Isabelle
  imports Lockout_Properties Search_Properties Messaging_Properties Access_Properties Account_Properties
    Store_Properties Logout_Properties Migration_Properties
    Publisher_Properties Delivery_Properties Startup Revocation_Race Registration_Race Link_Race
begin

text \<open>
  \<^bold>\<open>The users service of UdeSA-X.\<close>

  The program is an HTTP service (FastAPI) that keeps the accounts of a social network in PostgreSQL,
  its session revocations and counters in Redis, and exchanges events with other services: its own leave
  through an outbox table and a publisher, those of the others arrive in a queue and fill an audit log.
  This development models its business logic, from the rows of the tables to the answer of a route and
  the settling of a message, and proves what makes it correct.

  \<^bold>\<open>Parts and theories\<close>, from the bottom up (paths under \<open>src/src/users_api/\<close>):

  \<^item> \<open>Prelude\<close>: Python strings, instants in microseconds, UUIDs with their text form, and the
    state-and-exception operations \<open>('s, 'e, 'a) act\<close> with \<open>bnd\<close>, \<open>preserves\<close> and \<open>wp\<close>.
  \<^item> \<open>Domain\<close> (\<open>app/models\<close>, \<open>app/errors.py\<close>) and \<open>Tables\<close>
    (\<open>infrastructure/database/models.py\<close>): dataclasses, enumerations, rows and constraints.
  \<^item> \<open>Environment\<close> (\<open>config/settings.py\<close>, \<open>infrastructure/database/session.py\<close>): the settings the
    services read, the code that is not in the repository as parameters, the state of the world
    \<open>'r world\<close> and the transaction of a request. \<open>Configuration\<close>: all the settings, as an extension of
    that record, and how they are read from the environment.
  \<^item> \<open>Redis_Stores\<close> (\<open>infrastructure/redis\<close>) and \<open>Sign_Out\<close>: the rate limiter and the session store,
    their contracts as locales, and what a cutoff written to Redis guarantees from then on.
  \<^item> \<open>Security\<close> (\<open>app/security.py\<close>), \<open>Events\<close> (\<open>app/events.py\<close>) and \<open>Repositories\<close>
    (\<open>infrastructure/database/*_repository.py\<close>).
  \<^item> \<open>Calendar\<close>, \<open>Cursors\<close> and \<open>Search\<close> (the searches of \<open>user_repository.py\<close>, \<open>app/services/search.py\<close>,
    \<open>app/services/admin_user_accounts.py\<close>, \<open>app/clients\<close>, \<open>infrastructure/posts_api\<close>): the dates of the
    cursors in ISO form, the cursors, both account searches.
  \<^item> \<open>Event_Consumer\<close> (\<open>api/event_handlers.py\<close>, \<open>app/audit_events.py\<close>,
    \<open>infrastructure/rabbitmq/event_consumer.py\<close>), \<open>Outbox_Publisher\<close>
    (\<open>infrastructure/rabbitmq/outbox_publisher.py\<close>), \<open>Superadmin_Seed\<close> (\<open>seed_superadmin.py\<close>) and
    \<open>Health\<close> (\<open>infrastructure/health.py\<close>): what runs beside the requests. \<open>Publisher_Life\<close> and
    \<open>Event_Delivery\<close>: the publisher and the consumer as step relations, from one \<open>await\<close> to the next.
  \<^item> \<open>Auth_Service\<close> (\<open>app/services/auth.py\<close>), \<open>Access\<close> (\<open>api/deps.py\<close>), \<open>Password_Services\<close> and
    \<open>Account_Services\<close> (the other files of \<open>app/services\<close>).
  \<^item> \<open>Schemas\<close> (\<open>api/schemas\<close>) and \<open>Routes\<close> (\<open>api/*.py\<close>, \<open>main.py\<close>): \<open>serve E S req w\<close> is the answer
    to a request and the world it leaves. \<open>Url_Routing\<close>: the routers, their order and the route a path
    leads to. \<open>Service_Shell\<close> (\<open>infrastructure/telemetry.py\<close>, \<open>main.py\<close>): the log of the requests, the signing
    key, the end of the lifespan, and the property that ties a request to its route (C38). \<open>Startup\<close>: the
    lifespan as a whole, the options of CORS, and the views that bound what is measured.
  \<^item> \<open>Interleaving\<close>: processes whose commands are carried out between those of the others, with the locale
    of their invariants. On it, or on transactions with the row locks of PostgreSQL, the requests that
    meet: \<open>Guess_Race\<close> (logins at one door), \<open>Refresh_Race\<close> and \<open>Revocation_Race\<close> (exchanges and revocations
    of refresh tokens), \<open>Registration_Race\<close> (registrations of one name) and \<open>Link_Race\<close> (resets with one
    link). Each ends with an execution that shows where the guarantee stops.
  \<^item> \<open>Sessions\<close>, \<open>Session_Revocation\<close>, \<open>Authentication\<close>: what may happen after a request (\<open>later\<close>:
    requests, deliveries, publications, seeds and waiting, in any order), the operations that end the
    sessions of an account, and what passing the authentication means.
  \<^item> \<open>Database_Invariants\<close>, \<open>Token_Lifecycle\<close>, \<open>Logins\<close>, \<open>Lockout\<close>: the writes a request is made of
    as the locales \<open>database_frame\<close> and \<open>database_invariant\<close>, what happens to stored tokens over time,
    who is given a session, and the failure counters of the logins. \<open>Logout\<close>: what the session store
    knows after a logout, as long as the tokens of the session last.
  \<^item> \<open>Schema_Checks\<close>: what the checks of the handlers guarantee of the rows they write, before the commit
    looks at them.
  \<^item> \<open>Search_Results\<close>: what the batches of a search find, and that the loop ends. \<open>Access_Control\<close>: which
    requests only certain callers get answered, and whose rows a request may write. \<open>Request_Effects\<close>:
    the exact effect of an operation that succeeds.
  \<^item> \<open>Migrations\<close> (\<open>src/migrations/versions\<close>): the statements of PostgreSQL the migrations issue, with
    their effect on a catalogue and on the rows, the upgrade and the downgrade of every file, and the
    order Alembic runs them in. \<open>Declared_Schema\<close>: the catalogue that \<open>models.py\<close> declares.
    \<open>Migration_Effects\<close>: what the migrations do to a database, one after another.
  \<^item> \<open>Example_World\<close>, \<open>Example_Runs\<close>: a concrete environment that satisfies every hypothesis, and
    requests served in it, for the examples of the properties.

  \<^bold>\<open>Properties\<close>, each with an example that applies it:

  \<^item> \<open>Session_Properties\<close>: the operations that end the sessions of an account, and what a caller who
    passes the authentication is (C1, C2, C6, C7, C33).
  \<^item> \<open>Token_Properties\<close>: single use of the tokens, the history of an account, refusals that tell
    nothing (C8 to C12). \<open>Lockout_Properties\<close>: the doors of the logins, one login after another and many
    at a time (C13, C14).
  \<^item> \<open>Search_Properties\<close>: complete pages, the public search, cursors (C15 to C17).
  \<^item> \<open>Messaging_Properties\<close>: a pass of the publisher, a delivery and the seed (C19 to C23).
    \<open>Publisher_Properties\<close> and \<open>Delivery_Properties\<close>: the publisher and the consumer through failures,
    interruptions and restarts (C18, C37). \<open>Refresh_Race\<close> and \<open>Revocation_Race\<close>: transactions that exchange
    one refresh token at the same time, and a revocation among them (C4, C5).
  \<^item> \<open>Access_Properties\<close>: errors that change nothing, roles, isolation of the accounts, the audit log
    (C24 to C27).
  \<^item> \<open>Account_Properties\<close>: what the requests of an account's life leave, and nothing else (C28 to C32).
  \<^item> \<open>Store_Properties\<close>: sessions, the refresh tokens as a map, rows, and the constraints of the schema,
    which every reachable database keeps and no handler runs into (C3, C34, C35). \<open>Logout_Properties\<close>: the end of a session (C39).
    \<open>Migration_Properties\<close>: what the migrations keep, and the schema they build (C36, C40).

  \<^bold>\<open>Correspondence.\<close> A method of a class is a definition with the environment \<open>E\<close> and the settings
  \<open>S\<close> first; the collaborators a class is built with are the operations it calls. Every raise, early
  return and call that changes state is a step of the definition, in the source's order. A raise keeps
  what Redis was told and rolls back the database; the one exception, the detected reuse of a refresh
  token, is answered by the route and committed, as in \<open>api/auth.py\<close>.

  \<^bold>\<open>Loops.\<close> Two loops of the code have no bound in their text. The search asks for batches until a page
  is full: \<open>search_loop\<close> has fuel, one more than a batch per account, and \<open>search_loop_run\<close> shows that
  it never runs out, since every full batch moves the cursor past at least one account. The publisher
  drains the outbox batch by batch: \<open>drain_loop\<close> is a function whose recursive call follows a batch
  that deleted rows, so it terminates by the length of the table.
  \<open>path_from\<close>, the walk along the chain of revisions, has fuel: one step per file and one to
  stop, which is all a chain without repetition needs.

  \<^bold>\<open>Parameters.\<close> The clock, the random sources, argon2, SHA-256, PyJWT with the signing key, the address
  check of \<open>EmailStr\<close>, \<open>nh3\<close>, the Redis server, the answers of the social graph about blocks, the
  JSON reader, the broker and the two functions of PostgreSQL the migrations call (\<open>sql_env\<close>: \<open>now()\<close> and
  \<open>gen_random_uuid()\<close>) are arguments of the definitions. The hypotheses about them are
  \<open>service_env\<close> (a clock that does not go back, and the documented effect of the six Redis
  commands, any of which may also raise), \<open>amqp_queue\<close> (a queue that keeps a message until it is acknowledged
  or rejected, takes back what is handed back or what a closed channel had not answered, and gives what it took
  back more often than its delivery limit to the dead letter exchange), \<open>jwt_codec\<close>, \<open>argon2_correct\<close>,
  \<open>fitting_values\<close> (an accepted address and the text of an argon2 hash fit their columns) and
  \<open>right_answers\<close> (the social graph, when it answers, answers what it was asked). \<open>Example_World\<close>,
  \<open>Event_Delivery\<close> and \<open>Store_Properties\<close> have executable instances. The delivery limit is a parameter of the
  broker: the repository declares none, RabbitMQ 4 then sets 20, and \<open>outage_dead_letters\<close> shows an outage that
  brings a valid event over it.

  \<^bold>\<open>Limits of the model.\<close> In \<open>serve\<close> a request is served alone, and \<open>later\<close> is a sequence of whole requests.
  Where requests that interleave meet on the same row or counter, the five theories of races say what
  remains; elsewhere two requests do not interleave. The publisher and the consumer do, with the requests and
  with their own tasks, at every \<open>await\<close>. A row lock that is never released, and the deadlocks PostgreSQL
  ends with an error, are a transaction that does not go on or rolls back. A
  commit that fails is reported as a 500, while recent versions of FastAPI commit after the answer was
  sent. A request carries its bearer token. Strings are Latin-1, and a NUL character, which PostgreSQL
  refuses, is a character like the others. Column widths are checked for the table of accounts. What
  becomes of a message once it was given to the dead letter exchange is not followed: RabbitMQ forwards it
  without a confirmation, and nothing of the program reads that queue. A cursor
  whose date is in the week or basic ISO form, which \<open>fromisoformat\<close> also reads, counts as malformed.
  \<open>judged_alike\<close>, a
  hypothesis of the properties on ended sessions, excludes that a token expires between the two clock
  readings of one authentication: the cutoff in Redis lives exactly as long as the tokens it guards, so
  a token accepted in its last moment may find its cutoff gone. For the same reason the marks of
  a logout, counted in whole seconds, guard a token until less than a second before it expires
  (\<open>covered_until\<close>); that two tokens of different sessions have different ids is the hypothesis
  \<open>id_of_its_own\<close>. The small PostgreSQL of the migrations checks types, \<open>NOT NULL\<close>, checks and unique
  keys; foreign keys are part of its catalogue and are not checked for the rows.

  \<^bold>\<open>Not modelled\<close>: what OpenTelemetry and the CORS middleware do with their options, and the functions of
  \<open>api/deps.py\<close> and of the routers that hand an implementation to a service: an operation of the model calls
  the one implementation there is. They are calls into libraries, or wiring without decisions of this
  program.
\<close>

end
